(* ===== verification/Prelude.thy ===== *)
theory Prelude
  imports
    "HOL-Library.Word"
    "HOL-Library.List_Lexorder"
    "HOL-Library.Sublist"
begin

text \<open>
  Shared vocabulary of the development: the machine integers and byte strings of the Rust
  sources, results (\<open>Result<T, E>\<close> is the sum type \<open>'e + 'a\<close>, with \<^term>\<open>Inl\<close> for \<open>Err\<close>),
  the combinators that stand for the question-mark operator, \<open>ensure!\<close> and the fallible
  iterators, checked machine arithmetic, and generic facts on lists and words.
\<close>

section \<open>Machine types\<close>

type_synonym u8 = "8 word"
type_synonym u16 = "16 word"
type_synonym u32 = "32 word"
type_synonym u64 = "64 word"
type_synonym u128 = "128 word"
type_synonym usize = "64 word"
type_synonym bytes = "u8 list"
type_synonym h256 = "256 word"

named_theorems res_simps \<open>characteristic equations of the result combinators\<close>
named_theorems u_arith \<open>readings of machine words as natural numbers\<close>

section \<open>Results\<close>

text \<open>How code fails: by returning an error, or by a panic.\<close>

datatype 'e exn = Panics | Fails 'e

text \<open>The question-mark operator.\<close>

fun bind_res :: "'e + 'a \<Rightarrow> ('a \<Rightarrow> 'e + 'b) \<Rightarrow> 'e + 'b" where
  "bind_res (Inl e) f = Inl e"
| "bind_res (Inr x) f = f x"

text \<open>\<open>ensure!(cond, err)\<close>.\<close>

definition ensure :: "bool \<Rightarrow> 'e \<Rightarrow> 'e + unit" where
  "ensure b e = (if b then Inr () else Inl e)"

text \<open>\<open>Option::ok_or\<close>.\<close>

fun ok_or :: "'a option \<Rightarrow> 'e \<Rightarrow> 'e + 'a" where
  "ok_or None e = Inl e"
| "ok_or (Some x) e = Inr x"

text \<open>\<open>Option::unwrap_or\<close> and \<open>unwrap_or_default\<close>.\<close>

fun unwrap_or :: "'a option \<Rightarrow> 'a \<Rightarrow> 'a" where
  "unwrap_or None d = d"
| "unwrap_or (Some x) d = x"

text \<open>\<open>iter().map(f).collect::<Result<Vec<_>, _>>()\<close>: stops at the first error.\<close>

fun mapM_res :: "('a \<Rightarrow> 'e + 'b) \<Rightarrow> 'a list \<Rightarrow> 'e + 'b list" where
  "mapM_res f [] = Inr []"
| "mapM_res f (x # xs) = bind_res (f x) (\<lambda>y. bind_res (mapM_res f xs) (\<lambda>ys. Inr (y # ys)))"

text \<open>A \<open>for\<close> loop whose body may return early with an error.\<close>

fun foldM_res :: "('s \<Rightarrow> 'a \<Rightarrow> 'e + 's) \<Rightarrow> 's \<Rightarrow> 'a list \<Rightarrow> 'e + 's" where
  "foldM_res f s [] = Inr s"
| "foldM_res f s (x # xs) = bind_res (f s x) (\<lambda>s'. foldM_res f s' xs)"

lemma bind_res_eq_Inr [simp, res_simps]:
  "bind_res m f = Inr y \<longleftrightarrow> (\<exists>x. m = Inr x \<and> f x = Inr y)"
  by (cases m) auto

lemma bind_res_eq_Inl [res_simps]:
  "bind_res m f = Inl e \<longleftrightarrow> m = Inl e \<or> (\<exists>x. m = Inr x \<and> f x = Inl e)"
  by (cases m) auto

lemma bind_res_assoc: "bind_res (bind_res m f) g = bind_res m (\<lambda>x. bind_res (f x) g)"
  by (cases m) auto

lemma ensure_eq_Inr [simp, res_simps]: "ensure b e = Inr u \<longleftrightarrow> b"
  by (simp add: ensure_def)

lemma ensure_eq_Inl [simp, res_simps]: "ensure b e = Inl e' \<longleftrightarrow> \<not> b \<and> e' = e"
  by (auto simp: ensure_def)

lemma ensure_True [simp]: "ensure True e = Inr ()"
  and ensure_False [simp]: "ensure False e = Inl e"
  by (simp_all add: ensure_def)

lemma ok_or_eq_Inr [simp, res_simps]: "ok_or m e = Inr x \<longleftrightarrow> m = Some x"
  by (cases m) auto

lemma ok_or_eq_Inl [simp, res_simps]: "ok_or m e = Inl e' \<longleftrightarrow> m = None \<and> e' = e"
  by (cases m) auto

lemma mapM_res_length: "mapM_res f xs = Inr ys \<Longrightarrow> length ys = length xs"
  by (induction xs arbitrary: ys) auto

lemma mapM_res_nth:
  "mapM_res f xs = Inr ys \<Longrightarrow> i < length xs \<Longrightarrow> f (xs ! i) = Inr (ys ! i)"
proof (induction xs arbitrary: ys i)
  case (Cons x xs)
  then show ?case by (cases i) auto
qed simp

lemma mapM_res_Inr_iff:
  "mapM_res f xs = Inr ys \<longleftrightarrow> list_all2 (\<lambda>x y. f x = Inr y) xs ys"
  by (induction xs arbitrary: ys) (auto simp: list_all2_Cons1)

lemma mapM_res_pure [simp]: "mapM_res (\<lambda>x. Inr (f x)) xs = Inr (map f xs)"
  by (induction xs) auto

lemma foldM_res_append:
  "foldM_res f s (xs @ ys) = bind_res (foldM_res f s xs) (\<lambda>s'. foldM_res f s' ys)"
  by (induction xs arbitrary: s) (auto simp: bind_res_assoc)

text \<open>A loop invariant of a fallible loop: kept by the body, it holds at the end.\<close>

lemma foldM_res_invariant:
  assumes "foldM_res f s xs = Inr t" and "P s"
    and "\<And>s x s'. x \<in> set xs \<Longrightarrow> P s \<Longrightarrow> f s x = Inr s' \<Longrightarrow> P s'"
  shows "P t"
  using assms by (induction xs arbitrary: s) auto

lemma foldM_res_pure [simp]: "foldM_res (\<lambda>s x. Inr (f x s)) s xs = Inr (fold f xs s)"
  by (induction xs arbitrary: s) auto

section \<open>Machine arithmetic\<close>

text \<open>
  \<open>+\<close> and \<open>-\<close> of the sources are \<open>+\<close> and \<open>-\<close> of words: release builds of the workspace wrap
  around. The checked and saturating operations are spelled out.
\<close>

definition checked_add :: "'w::len word \<Rightarrow> 'w word \<Rightarrow> 'w word option" where
  "checked_add a b = (if unat a + unat b < 2 ^ LENGTH('w) then Some (a + b) else None)"

definition checked_sub :: "'w::len word \<Rightarrow> 'w word \<Rightarrow> 'w word option" where
  "checked_sub a b = (if b \<le> a then Some (a - b) else None)"

definition saturating_sub :: "'w::len word \<Rightarrow> 'w word \<Rightarrow> 'w word" where
  "saturating_sub a b = (if b \<le> a then a - b else 0)"

definition saturating_add :: "'w::len word \<Rightarrow> 'w word \<Rightarrow> 'w word" where
  "saturating_add a b = (if unat a + unat b < 2 ^ LENGTH('w) then a + b else - 1)"

lemma unat_of_nat_word: "n < 2 ^ LENGTH('a) \<Longrightarrow> unat (of_nat n :: 'a::len word) = n"
  by (simp add: unsigned_of_nat take_bit_nat_eq_self)

lemma of_nat_eq_word:
  "i < 2 ^ LENGTH('a) \<Longrightarrow> j < 2 ^ LENGTH('a) \<Longrightarrow> (of_nat i = (of_nat j :: 'a::len word)) = (i = j)"
  by (metis unat_of_nat_word)

lemma unat_less_word: "unat (w :: 'a::len word) < 2 ^ LENGTH('a)"
  by (rule unsigned_less)

lemma of_nat_neq_above: "i < unat w \<Longrightarrow> of_nat i \<noteq> (w :: 'a::len word)"
  using unat_of_nat_word [of i, where 'a = 'a] unat_less_word [of w] by auto

lemma unat_Suc_word [u_arith]:
  fixes w :: "'w::len word"
  assumes "w \<noteq> - 1"
  shows "unat (w + 1) = Suc (unat w)"
proof -
  have "1 + w \<noteq> 0" using assms by (metis add.commute add_eq_0_iff)
  from unatSuc [OF this] show ?thesis by (simp add: add.commute)
qed

lemma word_less_Suc:
  fixes w :: "'w::len word"
  assumes "w \<noteq> - 1"
  shows "w < w + 1"
  using unat_Suc_word [OF assms] by (simp add: word_less_nat_alt)

lemma word_less_Suc_iff:
  fixes w x :: "'w::len word"
  assumes "w \<noteq> - 1"
  shows "x < w + 1 \<longleftrightarrow> x \<le> w"
  using unat_Suc_word [OF assms] by (auto simp: word_less_nat_alt word_le_nat_alt)

lemma unat_checked_add [u_arith]: "checked_add a b = Some c \<Longrightarrow> unat c = unat a + unat b"
  by (auto simp: checked_add_def unat_word_ariths split: if_splits)

lemma unat_checked_sub [u_arith]: "checked_sub a b = Some c \<Longrightarrow> unat c = unat a - unat b"
  by (auto simp: checked_sub_def unat_sub split: if_splits)

lemma unat_saturating_sub [u_arith]: "unat (saturating_sub a b) = unat a - unat b"
  by (auto simp: saturating_sub_def unat_sub word_le_nat_alt)

section \<open>Lists\<close>

lemma sorted_wrt_filter: "sorted_wrt R xs \<Longrightarrow> sorted_wrt R (filter P xs)"
  by (induction xs) auto

lemma fold_invariant_mem:
  assumes "P s" and "\<And>s x. x \<in> set xs \<Longrightarrow> P s \<Longrightarrow> P (f x s)"
  shows "P (fold f xs s)"
  using assms by (induction xs arbitrary: s) auto

section \<open>Little-endian bytes\<close>

text \<open>A concrete codec for 32-bit numbers, used where a codec parameter is instantiated.\<close>

definition le_u32 :: "u32 \<Rightarrow> bytes" where
  "le_u32 x = map (\<lambda>i. of_nat (unat x div 256 ^ i mod 256)) [0 ..< 4]"

definition un_le_u32 :: "bytes \<Rightarrow> u32 option" where
  "un_le_u32 b = (case b of x0 # x1 # x2 # x3 # _ \<Rightarrow>
     Some (of_nat (unat x0 + 256 * unat x1 + 65536 * unat x2 + 16777216 * unat x3)) | _ \<Rightarrow> None)"

lemma le_u32_roundtrip: "un_le_u32 (le_u32 x) = Some x"
proof -
  have b: "unat (of_nat n :: u8) = n mod 256" for n by (simp add: unsigned_of_nat take_bit_eq_mod)
  let ?n = "unat x"
  have "?n mod 256 + 256 * (?n div 256 mod 256) + 65536 * (?n div 65536 mod 256) +
      16777216 * (?n div 16777216) = ?n"
  proof -
    define a b c where "a = ?n div 256" and "b = a div 256" and "c = b div 256"
    have d: "?n div 65536 = b" "?n div 16777216 = c"
      by (simp_all add: a_def b_def c_def div_mult2_eq [symmetric])
    have "?n = ?n mod 256 + 256 * a" "a = a mod 256 + 256 * b" "b = b mod 256 + 256 * c"
      unfolding a_def b_def c_def by (metis mod_mult_div_eq)+
    then show ?thesis unfolding d a_def [symmetric] by linarith
  qed
  moreover have "?n div 16777216 mod 256 = ?n div 16777216" using unat_less_word [of x] by simp
  ultimately show ?thesis by (simp add: le_u32_def un_le_u32_def upt_rec b del: of_nat_add of_nat_mult)
qed

lemma length_le_u32 [simp]: "length (le_u32 x) = 4"
  by (simp add: le_u32_def)

end
