(* ===== verification/BTree.thy ===== *)
theory BTree
  imports Prelude "HOL-Library.Multiset"
begin

text \<open>
  The ordered containers of the Rust standard library the sources use: \<open>BTreeMap\<close> is an
  association list with strictly increasing keys, \<open>BTreeSet\<close> a strictly increasing list, so
  iteration order is list order. The locale \<open>map_interface\<close> states what a client relies on;
  its lemmas on bulk insertion (\<open>collect\<close>) and bulk update are proved once there.
\<close>

section \<open>The interface of a map\<close>

locale map_interface =
  fixes get :: "'m \<Rightarrow> 'k \<Rightarrow> 'v option"
    and ins :: "'k \<Rightarrow> 'v \<Rightarrow> 'm \<Rightarrow> 'm"
    and del :: "'k \<Rightarrow> 'm \<Rightarrow> 'm"
    and wf :: "'m \<Rightarrow> bool"
  assumes get_ins: "wf m \<Longrightarrow> get (ins k v m) = (get m)(k \<mapsto> v)"
    and get_del: "wf m \<Longrightarrow> get (del k m) = (get m)(k := None)"
    and wf_ins: "wf m \<Longrightarrow> wf (ins k v m)"
    and wf_del: "wf m \<Longrightarrow> wf (del k m)"
begin

lemma wf_fold_ins: "wf m \<Longrightarrow> wf (fold (\<lambda>(k, v). ins k v) kvs m)"
  by (rule fold_invariant_mem) (auto intro: wf_ins)

lemma get_fold_ins:
  "wf m \<Longrightarrow> get (fold (\<lambda>(k, v). ins k v) kvs m) = get m ++ map_of (rev kvs)"
proof (induction kvs arbitrary: m)
  case (Cons kv kvs)
  then show ?case
    by (cases kv) (auto simp: wf_ins get_ins map_add_def fun_eq_iff split: option.splits)
qed simp

lemma get_fold_ins_map:
  assumes "wf m" and "get m = Map.empty"
  shows "get (fold (\<lambda>(k, v). ins k v) (map (\<lambda>k. (k, f k)) ks) m) x =
    (if x \<in> set ks then Some (f x) else None)"
proof -
  have "map_of (rev (map (\<lambda>k. (k, f k)) ks)) x = (if x \<in> set ks then Some (f x) else None)"
    by (simp add: rev_map map_of_map_restrict restrict_map_def)
  with assms show ?thesis
    by (simp add: get_fold_ins map_add_def split: option.splits)
qed

lemma wf_fold_del: "wf m \<Longrightarrow> wf (fold del ks m)"
  by (rule fold_invariant_mem) (auto intro: wf_del)

lemma get_fold_del: "wf m \<Longrightarrow> get (fold del ks m) x = (if x \<in> set ks then None else get m x)"
  by (induction ks arbitrary: m) (auto simp: wf_del get_del)

end

section \<open>Ordered maps\<close>

type_synonym ('k, 'v) btree_map = "('k \<times> 'v) list"

definition bt_wf :: "('k::linorder, 'v) btree_map \<Rightarrow> bool" where
  "bt_wf m = sorted_wrt (<) (map fst m)"

definition bt_get :: "('k, 'v) btree_map \<Rightarrow> 'k \<Rightarrow> 'v option" where
  "bt_get m k = map_of m k"

fun bt_insert :: "'k::linorder \<Rightarrow> 'v \<Rightarrow> ('k, 'v) btree_map \<Rightarrow> ('k, 'v) btree_map" where
  "bt_insert k v [] = [(k, v)]"
| "bt_insert k v ((a, b) # m) =
     (if k < a then (k, v) # (a, b) # m
      else if k = a then (k, v) # m
      else (a, b) # bt_insert k v m)"

fun bt_remove :: "'k::linorder \<Rightarrow> ('k, 'v) btree_map \<Rightarrow> ('k, 'v) btree_map" where
  "bt_remove k [] = []"
| "bt_remove k ((a, b) # m) = (if k = a then m else (a, b) # bt_remove k m)"

text \<open>\<open>iter_mut()\<close> with a body that changes the values only.\<close>

definition bt_map_values :: "('k \<Rightarrow> 'v \<Rightarrow> 'w) \<Rightarrow> ('k, 'v) btree_map \<Rightarrow> ('k, 'w) btree_map" where
  "bt_map_values f m = map (\<lambda>(k, v). (k, f k v)) m"

lemma bt_wf_Nil [simp]: "bt_wf []"
  by (simp add: bt_wf_def)

lemma bt_wf_Cons: "bt_wf ((k, v) # m) \<longleftrightarrow> (\<forall>x \<in> set m. k < fst x) \<and> bt_wf m"
  by (auto simp: bt_wf_def)

lemma bt_get_Nil [simp]: "bt_get [] k = None"
  by (simp add: bt_get_def)

lemma bt_get_Cons [simp]: "bt_get ((a, b) # m) k = (if k = a then Some b else bt_get m k)"
  by (simp add: bt_get_def)

lemma fst_set_bt_insert [simp]: "fst ` set (bt_insert k v m) = insert k (fst ` set m)"
  by (induction k v m rule: bt_insert.induct) auto

lemma set_bt_insert: "x \<in> set (bt_insert k v m) \<Longrightarrow> x = (k, v) \<or> x \<in> set m"
  by (induction k v m rule: bt_insert.induct) (auto split: if_splits)

lemma set_bt_remove: "set (bt_remove k m) \<subseteq> set m"
  by (induction k m rule: bt_remove.induct) auto

lemma bt_wf_insert: "bt_wf m \<Longrightarrow> bt_wf (bt_insert k v m)"
proof (induction k v m rule: bt_insert.induct)
  case (2 k v a b m)
  then show ?case
    by (force simp: bt_wf_Cons dest: set_bt_insert)
qed (simp add: bt_wf_def)

lemma bt_wf_remove: "bt_wf m \<Longrightarrow> bt_wf (bt_remove k m)"
  by (induction k m rule: bt_remove.induct) (use set_bt_remove in \<open>fastforce simp: bt_wf_Cons\<close>)+

lemma bt_get_None: "\<forall>x \<in> set m. k \<noteq> fst x \<Longrightarrow> bt_get m k = None"
  by (induction m) auto

lemma bt_get_eq_None: "bt_get m k = None \<longleftrightarrow> k \<notin> fst ` set m"
  by (simp add: bt_get_def map_of_eq_None_iff)

lemma bt_get_insert_at: "bt_get (bt_insert k v m) x = (if x = k then Some v else bt_get m x)"
  by (induction k v m rule: bt_insert.induct) auto

lemma bt_get_remove_at:
  "bt_wf m \<Longrightarrow> bt_get (bt_remove k m) x = (if x = k then None else bt_get m x)"
proof (induction k m rule: bt_remove.induct)
  case (2 k a b m)
  then show ?case
    by (cases "k = a") (force simp: bt_wf_Cons intro: bt_get_None)+
qed simp

interpretation bt: map_interface
  "bt_get :: ('k::linorder, 'v) btree_map \<Rightarrow> 'k \<Rightarrow> 'v option" bt_insert bt_remove bt_wf
  by unfold_locales (auto simp: fun_eq_iff bt_get_insert_at bt_get_remove_at bt_wf_insert bt_wf_remove)

lemma bt_get_in_set: "bt_wf m \<Longrightarrow> bt_get m k = Some v \<longleftrightarrow> (k, v) \<in> set m"
  unfolding bt_get_def bt_wf_def
  by (rule map_of_eq_Some_iff) (simp add: strict_sorted_iff)

lemma bt_wf_map_values [simp]: "bt_wf (bt_map_values f m) \<longleftrightarrow> bt_wf m"
  by (simp add: bt_wf_def bt_map_values_def comp_def case_prod_unfold)

lemma bt_get_map_values [simp]: "bt_get (bt_map_values f m) k = map_option (f k) (bt_get m k)"
  by (induction m) (auto simp: bt_map_values_def)

text \<open>Two ordered maps with the same lookups are the same list.\<close>

lemma bt_ext:
  assumes "bt_wf m" and "bt_wf n" and "\<And>k. bt_get m k = bt_get n k"
  shows "m = n"
proof -
  have "set m = set n"
    using assms by (metis (full_types) bt_get_in_set surj_pair subsetI subset_antisym)
  moreover have "sorted (map fst m)" "distinct (map fst m)" "sorted (map fst n)" "distinct (map fst n)"
    using assms(1,2) by (auto simp: bt_wf_def strict_sorted_iff)
  ultimately show ?thesis
    by (intro map_sorted_distinct_set_unique [of fst]) (auto simp: inj_on_def eq_key_imp_eq_value)
qed

text \<open>The multiset of all elements of a map to lists, after an entry is replaced.\<close>

lemma mset_concat_bt_insert:
  "bt_wf m \<Longrightarrow>
   mset (concat (map snd (bt_insert k v m))) + mset (unwrap_or (bt_get m k) []) =
   mset (concat (map snd m)) + mset v"
proof (induction k v m rule: bt_insert.induct)
  case (2 k v a b m)
  show ?case
  proof (cases "k < a")
    case True
    with 2 have "bt_get ((a, b) # m) k = None"
      by (intro bt_get_None) (auto simp: bt_wf_Cons)
    with True show ?thesis by simp
  next
    case False
    with 2 show ?thesis by (auto simp: bt_wf_Cons ac_simps)
  qed
qed simp

lemma distinct_mset_subset:
  assumes "distinct ys" and "mset xs \<subseteq># mset ys"
  shows "distinct xs"
proof -
  have "count (mset xs) a = (if a \<in> set xs then 1 else 0)" for a
  proof -
    have "count (mset xs) a \<le> (if a \<in> set ys then 1 else 0)"
      using mset_subset_eq_count [OF assms(2), of a] assms(1)
      by (simp add: distinct_count_atmost_1)
    then show ?thesis
      by (auto split: if_splits simp: le_Suc_eq count_mset_0_iff simp flip: not_None_eq)
  qed
  then show ?thesis by (simp add: distinct_count_atmost_1)
qed

section \<open>Ordered sets\<close>

fun bs_insert :: "'k::linorder \<Rightarrow> 'k list \<Rightarrow> 'k list" where
  "bs_insert k [] = [k]"
| "bs_insert k (a # s) = (if k < a then k # a # s else if k = a then a # s else a # bs_insert k s)"

lemma set_bs_insert [simp]: "set (bs_insert k s) = insert k (set s)"
  by (induction k s rule: bs_insert.induct) auto

lemma bs_wf_insert: "sorted_wrt (<) s \<Longrightarrow> sorted_wrt (<) (bs_insert k s)"
proof (induction k s rule: bs_insert.induct)
  case (2 k a s)
  then show ?case by (cases "k < a"; cases "k = a") auto
qed simp

text \<open>\<open>iter().collect::<BTreeSet<_>>()\<close>.\<close>

definition bs_collect :: "'k::linorder list \<Rightarrow> 'k list" where
  "bs_collect xs = fold bs_insert xs []"

lemma set_bs_collect [simp]: "set (bs_collect xs) = set xs"
proof -
  have "set (fold bs_insert xs s) = set xs \<union> set s" for s
    by (induction xs arbitrary: s) auto
  then show ?thesis by (simp add: bs_collect_def)
qed

lemma bs_wf_collect: "sorted_wrt (<) (bs_collect xs)"
  unfolding bs_collect_def by (rule fold_invariant_mem) (auto intro: bs_wf_insert)

end
