(* ===== verification/Mq_Types.thy ===== *)
theory Mq_Types
  imports BTree "HOL-Library.Product_Lexorder"
begin

text \<open>
  The message types of the crate \<open>phala-mq\<close> (\<open>crates/phala-mq/src/types.rs\<close>): origins, topics,
  messages and their signing, and the domain separation of signed contents in \<open>phala-types\<close>.
  SCALE encoding (\<open>parity_scale_codec\<close>) and signature schemes are not part of the repository:
  an encoder, a decoder and a signer are arguments of the definitions that use them.
\<close>

section \<open>Message origins\<close>

text \<open>\<open>H256\<close> and public keys are 256-bit values, read big-endian, so their order is that of words.\<close>

datatype MessageOrigin =
    Pallet bytes
  | Contract h256
  | Worker h256
  | AccountId h256
  | MultiLocation bytes
  | Gatekeeper
  | Cluster h256
  | Reserved

text \<open>The derived \<open>Ord\<close>: variants in declaration order, then the payload.\<close>

fun origin_key :: "MessageOrigin \<Rightarrow> nat \<times> bytes \<times> h256" where
  "origin_key (Pallet b) = (0, b, 0)"
| "origin_key (Contract h) = (1, [], h)"
| "origin_key (Worker h) = (2, [], h)"
| "origin_key (AccountId h) = (3, [], h)"
| "origin_key (MultiLocation b) = (4, b, 0)"
| "origin_key Gatekeeper = (5, [], 0)"
| "origin_key (Cluster h) = (6, [], h)"
| "origin_key Reserved = (7, [], 0)"

lemma origin_key_inject [simp]: "origin_key a = origin_key b \<longleftrightarrow> a = b"
  by (cases a; cases b) auto

instantiation MessageOrigin :: linorder
begin

definition less_eq_MessageOrigin :: "MessageOrigin \<Rightarrow> MessageOrigin \<Rightarrow> bool" where
  "less_eq_MessageOrigin a b = (origin_key a \<le> origin_key b)"

definition less_MessageOrigin :: "MessageOrigin \<Rightarrow> MessageOrigin \<Rightarrow> bool" where
  "less_MessageOrigin a b = (origin_key a < origin_key b)"

instance
  by standard
    (auto simp: less_eq_MessageOrigin_def less_MessageOrigin_def simp flip: origin_key_inject)

end

text \<open>\<open>PartialEq\<close> and \<open>Hash\<close> go through the SCALE encoding \<open>enc\<close>.\<close>

definition MessageOrigin_eq :: "(MessageOrigin \<Rightarrow> bytes) \<Rightarrow> MessageOrigin \<Rightarrow> MessageOrigin \<Rightarrow> bool" where
  "MessageOrigin_eq enc a b = (enc a = enc b)"

fun MessageOrigin_is_offchain :: "MessageOrigin \<Rightarrow> bool" where
  "MessageOrigin_is_offchain (Cluster _) = True"
| "MessageOrigin_is_offchain (Contract _) = True"
| "MessageOrigin_is_offchain (Worker _) = True"
| "MessageOrigin_is_offchain Gatekeeper = True"
| "MessageOrigin_is_offchain _ = False"

fun MessageOrigin_is_pallet :: "MessageOrigin \<Rightarrow> bool" where
  "MessageOrigin_is_pallet (Pallet _) = True"
| "MessageOrigin_is_pallet _ = False"

fun MessageOrigin_always_well_formed :: "MessageOrigin \<Rightarrow> bool" where
  "MessageOrigin_always_well_formed (Pallet _) = True"
| "MessageOrigin_always_well_formed (Worker _) = True"
| "MessageOrigin_always_well_formed Gatekeeper = True"
| "MessageOrigin_always_well_formed _ = False"

fun MessageOrigin_is_gatekeeper :: "MessageOrigin \<Rightarrow> bool" where
  "MessageOrigin_is_gatekeeper Gatekeeper = True"
| "MessageOrigin_is_gatekeeper _ = False"

datatype bad_origin = BadOrigin

fun MessageOrigin_account :: "MessageOrigin \<Rightarrow> bad_origin + h256" where
  "MessageOrigin_account (AccountId a) = Inr a"
| "MessageOrigin_account _ = Inl BadOrigin"

section \<open>Topics\<close>

datatype Topic = Topic (Topic_path: bytes)

text \<open>The bytes \<^verbatim>\<open>~!@#$%&*_+-=|<>?,./;:'\<close>.\<close>

definition RESERVED_BYTES :: bytes where
  "RESERVED_BYTES = [126, 33, 64, 35, 36, 37, 38, 42, 95, 43, 45, 61, 124, 60, 62, 63, 44, 46,
     47, 59, 58, 39]"

definition Topic_is_valid :: "Topic \<Rightarrow> bool" where
  "Topic_is_valid t = (case Topic_path t of [] \<Rightarrow> False | b # _ \<Rightarrow> b \<notin> set RESERVED_BYTES)"

text \<open>The byte \<^verbatim>\<open>^\<close> is 94.\<close>

definition Topic_is_offchain :: "Topic \<Rightarrow> bool" where
  "Topic_is_offchain t =
     (if \<not> Topic_is_valid t then False
      else case Topic_path t of [] \<Rightarrow> False | b # _ \<Rightarrow> b \<noteq> 94)"

lemma Topic_is_offchain_valid: "Topic_is_offchain t \<Longrightarrow> Topic_is_valid t"
  by (simp add: Topic_is_offchain_def split: if_splits)

section \<open>Messages\<close>

record Message =
  msg_sender :: MessageOrigin
  msg_destination :: Topic
  msg_payload :: bytes

definition Message_new :: "MessageOrigin \<Rightarrow> bytes \<Rightarrow> bytes \<Rightarrow> Message" where
  "Message_new sender destination payload =
     \<lparr>msg_sender = sender, msg_destination = Topic destination, msg_payload = payload\<rparr>"

record 'a DecodedMessage =
  dm_sender :: MessageOrigin
  dm_destination :: Topic
  dm_payload :: 'a

definition Message_decode_payload :: "(bytes \<Rightarrow> 'a option) \<Rightarrow> Message \<Rightarrow> 'a option" where
  "Message_decode_payload dec m = dec (msg_payload m)"

definition Message_decode :: "(bytes \<Rightarrow> 'a option) \<Rightarrow> Message \<Rightarrow> 'a DecodedMessage option" where
  "Message_decode dec m =
     (case Message_decode_payload dec m of
        None \<Rightarrow> None
      | Some p \<Rightarrow> Some \<lparr>dm_sender = msg_sender m, dm_destination = msg_destination m, dm_payload = p\<rparr>)"

record SignedMessage =
  sm_message :: Message
  sm_sequence :: u64
  sm_signature :: bytes

text \<open>
  \<open>MessageToBeSigned\<close> is the pair of a message and its sequence number; \<open>enc\<close> is its SCALE
  encoder, \<open>sig_fn\<close> the \<open>sign\<close> method of a \<open>MessageSigner\<close>.
\<close>

definition MessageToBeSigned_raw_data :: "(Message \<times> u64 \<Rightarrow> bytes) \<Rightarrow> Message \<Rightarrow> u64 \<Rightarrow> bytes" where
  "MessageToBeSigned_raw_data enc m sequence = enc (m, sequence)"

definition SignedMessage_data_be_signed :: "(Message \<times> u64 \<Rightarrow> bytes) \<Rightarrow> SignedMessage \<Rightarrow> bytes" where
  "SignedMessage_data_be_signed enc m =
     MessageToBeSigned_raw_data enc (sm_message m) (sm_sequence m)"

record 'signer SigningMessage =
  sgm_message :: Message
  sgm_signer :: 'signer

definition SigningMessage_sign ::
  "(Message \<times> u64 \<Rightarrow> bytes) \<Rightarrow> ('signer \<Rightarrow> bytes \<Rightarrow> bytes) \<Rightarrow> 'signer SigningMessage \<Rightarrow> u64 \<Rightarrow> SignedMessage"
where
  "SigningMessage_sign enc sig_fn m sequence =
     \<lparr>sm_message = sgm_message m, sm_sequence = sequence,
      sm_signature = sig_fn (sgm_signer m) (MessageToBeSigned_raw_data enc (sgm_message m) sequence)\<rparr>"

lemma SigningMessage_sign_fields [simp]:
  "sm_message (SigningMessage_sign enc sig_fn m s) = sgm_message m"
  "sm_sequence (SigningMessage_sign enc sig_fn m s) = s"
  by (simp_all add: SigningMessage_sign_def)

text \<open>A signature is computed over exactly the bytes the verifier recomputes.\<close>

lemma sign_data_be_signed:
  "sm_signature (SigningMessage_sign enc sig_fn m s) =
     sig_fn (sgm_signer m) (SignedMessage_data_be_signed enc (SigningMessage_sign enc sig_fn m s))"
  by (simp add: SigningMessage_sign_def SignedMessage_data_be_signed_def)

section \<open>Domain separation of signed contents\<close>

datatype SignedContentType =
    MqMessage
  | RpcResponse
  | EndpointInfo
  | MasterKeyRotation
  | MasterKeyStore
  | ClusterStateRequest
  | EventChainBlock

fun SignedContentType_as_u8 :: "SignedContentType \<Rightarrow> u8" where
  "SignedContentType_as_u8 MqMessage = 0"
| "SignedContentType_as_u8 RpcResponse = 1"
| "SignedContentType_as_u8 EndpointInfo = 2"
| "SignedContentType_as_u8 MasterKeyRotation = 3"
| "SignedContentType_as_u8 MasterKeyStore = 4"
| "SignedContentType_as_u8 ClusterStateRequest = 5"
| "SignedContentType_as_u8 EventChainBlock = 6"

lemma SignedContentType_as_u8_inject [simp]:
  "SignedContentType_as_u8 a = SignedContentType_as_u8 b \<longleftrightarrow> a = b"
  by (cases a; cases b) auto

fun wrap_content_to_sign :: "bytes \<Rightarrow> SignedContentType \<Rightarrow> bytes" where
  "wrap_content_to_sign data MqMessage = data"
| "wrap_content_to_sign data sigtype = 255 # SignedContentType_as_u8 sigtype # data"

lemma wrap_content_other:
  "t \<noteq> MqMessage \<Longrightarrow> wrap_content_to_sign data t = 255 # SignedContentType_as_u8 t # data"
  by (cases t) auto

section \<open>Properties\<close>

text \<open>
  Signed contents of different types never coincide. For the types other than queue messages
  this needs nothing; a queue message is told apart from them because the encoding of a message
  starts with the variant index of its sender (a property of SCALE, stated as the hypothesis), and
  only the reserved origin, which never signs, has the index 255.
\<close>

theorem signed_contents_separated:
  assumes scale: "\<And>m sq. \<exists>rest. enc (m, sq) =
      (if msg_sender m = Reserved then 255 else of_nat (fst (origin_key (msg_sender m)))) # rest"
    and "msg_sender m \<noteq> Reserved" and "t \<noteq> MqMessage" and "t' \<noteq> MqMessage"
  shows "wrap_content_to_sign (MessageToBeSigned_raw_data enc m sq) MqMessage \<noteq>
      wrap_content_to_sign data t \<and>
    (wrap_content_to_sign data t = wrap_content_to_sign data' t' \<longleftrightarrow> t = t' \<and> data = data')"
proof -
  obtain rest where "enc (m, sq) = of_nat (fst (origin_key (msg_sender m))) # rest"
    using scale [of m sq] assms(2) by auto
  moreover have "(of_nat (fst (origin_key (msg_sender m))) :: u8) \<noteq> 255"
    by (cases "msg_sender m") auto
  ultimately show ?thesis
    using assms(3,4) by (auto simp: wrap_content_other MessageToBeSigned_raw_data_def)
qed

definition ex_enc :: "Message \<times> u64 \<Rightarrow> bytes" where
  "ex_enc p = (let m = fst p in
     [if msg_sender m = Reserved then 255 else of_nat (fst (origin_key (msg_sender m)))] @
     Topic_path (msg_destination m) @ msg_payload m)"

theorem signed_contents_separated_witness:
  "wrap_content_to_sign (MessageToBeSigned_raw_data ex_enc (Message_new (Worker 1) [97] [2]) 3) MqMessage
     \<noteq> wrap_content_to_sign [1, 2, 3] RpcResponse"
  by (rule signed_contents_separated [where t' = RpcResponse, THEN conjunct1])
    (auto simp: ex_enc_def Message_new_def Let_def)

end
