(* ===== verification/Mq_Mpsc.thy ===== *)
theory Mq_Mpsc
  imports Mq_Types
begin

text \<open>
  The in-process channel of \<open>crates/phala-mq/src/simple_mpsc.rs\<close>. A \<open>Sender\<close> and a \<open>Receiver\<close>
  share one locked \<open>Channel\<close>; every method takes the lock for its whole body, so a method is one
  atomic function on the channel, and a use of the channel is a sequence of such steps.
\<close>

section \<open>Data and operations\<close>

record 'a Mpsc_Channel =
  ch_deque :: "'a list"
  ch_sender_count :: usize
  ch_receiver_count :: usize

datatype SendError = ReceiverGone
datatype ReceiveError = SenderGone

text \<open>\<open>channel()\<close>: one sender and one receiver on a fresh \<open>Channel::new()\<close>.\<close>

definition Channel_new :: "'a Mpsc_Channel" where
  "Channel_new = \<lparr>ch_deque = [], ch_sender_count = 1, ch_receiver_count = 1\<rparr>"

definition Sender_send :: "'a \<Rightarrow> 'a Mpsc_Channel \<Rightarrow> SendError + 'a Mpsc_Channel" where
  "Sender_send v ch =
     (if ch_receiver_count ch = 0 then Inl ReceiverGone
      else Inr (ch\<lparr>ch_deque := ch_deque ch @ [v]\<rparr>))"

definition Sender_clear :: "'a Mpsc_Channel \<Rightarrow> nat \<times> 'a Mpsc_Channel" where
  "Sender_clear ch = (length (ch_deque ch), ch\<lparr>ch_deque := []\<rparr>)"

definition Sender_clone :: "'a Mpsc_Channel \<Rightarrow> 'a Mpsc_Channel" where
  "Sender_clone ch = ch\<lparr>ch_sender_count := ch_sender_count ch + 1\<rparr>"

definition Sender_drop :: "'a Mpsc_Channel \<Rightarrow> 'a Mpsc_Channel" where
  "Sender_drop ch = ch\<lparr>ch_sender_count := ch_sender_count ch - 1\<rparr>"

definition Receiver_try_next ::
  "'a Mpsc_Channel \<Rightarrow> (ReceiveError + 'a option) \<times> 'a Mpsc_Channel" where
  "Receiver_try_next ch =
     (case ch_deque ch of
        v # vs \<Rightarrow> (Inr (Some v), ch\<lparr>ch_deque := vs\<rparr>)
      | [] \<Rightarrow> if ch_sender_count ch = 0 then (Inl SenderGone, ch) else (Inr None, ch))"

definition Receiver_drain :: "'a Mpsc_Channel \<Rightarrow> 'a list \<times> 'a Mpsc_Channel" where
  "Receiver_drain ch = (ch_deque ch, ch\<lparr>ch_deque := []\<rparr>)"

text \<open>\<open>peek_ind\<close> takes the \<open>Seq::seq\<close> method of the element type.\<close>

definition Receiver_peek_ind :: "('a \<Rightarrow> u64) \<Rightarrow> 'a Mpsc_Channel \<Rightarrow> ReceiveError + u64 option" where
  "Receiver_peek_ind seq ch =
     (case ch_deque ch of
        v # _ \<Rightarrow> Inr (Some (seq v))
      | [] \<Rightarrow> if ch_sender_count ch = 0 then Inl SenderGone else Inr None)"

definition Receiver_drop :: "'a Mpsc_Channel \<Rightarrow> 'a Mpsc_Channel" where
  "Receiver_drop ch = ch\<lparr>ch_receiver_count := ch_receiver_count ch - 1\<rparr>"

definition Receiver_clone :: "'a Mpsc_Channel \<Rightarrow> 'a Mpsc_Channel" where
  "Receiver_clone ch = ch\<lparr>ch_receiver_count := ch_receiver_count ch + 1\<rparr>"

section \<open>The contract of a channel end\<close>

text \<open>
  What the dispatcher relies on: a channel is a queue of values; sending appends while a
  receiver lives and fails otherwise; receiving takes the front.
\<close>

locale channel_interface =
  fixes send :: "'a \<Rightarrow> 'c \<Rightarrow> SendError + 'c"
    and try_next :: "'c \<Rightarrow> (ReceiveError + 'a option) \<times> 'c"
    and content :: "'c \<Rightarrow> 'a list"
    and live :: "'c \<Rightarrow> bool"
  assumes send_live: "live c \<Longrightarrow> \<exists>c'. send x c = Inr c' \<and> content c' = content c @ [x] \<and> live c'"
    and send_dead: "\<not> live c \<Longrightarrow> send x c = Inl ReceiverGone"
    and next_Cons: "content c = x # xs \<Longrightarrow>
      \<exists>c'. try_next c = (Inr (Some x), c') \<and> content c' = xs \<and> live c' = live c"
    and next_Nil: "content c = [] \<Longrightarrow> snd (try_next c) = c \<and> fst (try_next c) \<noteq> Inr (Some x)"
begin

text \<open>\<open>n\<close> calls of \<open>try_next\<close>, keeping what they deliver.\<close>

fun receive_n :: "nat \<Rightarrow> 'c \<Rightarrow> 'a list \<times> 'c" where
  "receive_n 0 c = ([], c)"
| "receive_n (Suc n) c =
     (case try_next c of
        (Inr (Some x), c') \<Rightarrow> (case receive_n n c' of (xs, c'') \<Rightarrow> (x # xs, c''))
      | (_, c') \<Rightarrow> receive_n n c')"

lemma receive_n_content:
  "fst (receive_n n c) = take n (content c) \<and> content (snd (receive_n n c)) = drop n (content c)"
proof (induction n arbitrary: c)
  case (Suc n)
  show ?case
  proof (cases "content c")
    case Nil
    with next_Nil [of c] obtain r where "try_next c = (r, c)" "\<And>x. r \<noteq> Inr (Some x)"
      by (metis fst_conv snd_conv surj_pair)
    then show ?thesis using Suc Nil by (auto split: sum.splits option.splits)
  next
    case (Cons x xs)
    with next_Cons [of c x xs] obtain c' where c': "try_next c = (Inr (Some x), c')" "content c' = xs"
      by blast
    with Suc [of c'] Cons show ?thesis by (auto split: prod.splits)
  qed
qed simp

lemma send_all_live:
  "live c \<Longrightarrow> \<exists>c'. foldM_res (\<lambda>c x. send x c) c xs = Inr c' \<and> content c' = content c @ xs \<and> live c'"
proof (induction xs arbitrary: c)
  case (Cons x xs)
  from send_live [OF Cons.prems, of x] obtain c1
    where c1: "send x c = Inr c1" "content c1 = content c @ [x]" "live c1" by blast
  from Cons.IH [OF c1(3)] c1 show ?case by auto
qed simp

text \<open>First in, first out: what was sent comes out in order, each value once.\<close>

lemma fifo:
  assumes "live c" and "content c = []"
  shows "\<exists>c'. foldM_res (\<lambda>c x. send x c) c xs = Inr c' \<and> fst (receive_n (length xs) c') = xs"
proof -
  from send_all_live [OF assms(1), of xs] assms(2) obtain c'
    where "foldM_res (\<lambda>c x. send x c) c xs = Inr c'" "content c' = xs" by auto
  then show ?thesis by (auto simp: receive_n_content)
qed

end

interpretation mpsc: channel_interface
  Sender_send Receiver_try_next ch_deque "\<lambda>ch. ch_receiver_count ch \<noteq> 0"
  by unfold_locales
    (auto simp: Sender_send_def Receiver_try_next_def split: list.splits if_splits)

section \<open>Sequences of channel operations\<close>

text \<open>
  Any interleaving of the methods of the handles of one channel. A step reports the values it
  hands to the receiver and the values it accepts from a sender.
\<close>

datatype 'a mpsc_op =
    Op_send 'a | Op_clear | Op_clone_tx | Op_drop_tx
  | Op_try_next | Op_drain | Op_clone_rx | Op_drop_rx

fun mpsc_step :: "'a mpsc_op \<Rightarrow> 'a Mpsc_Channel \<Rightarrow> 'a list \<times> 'a list \<times> 'a Mpsc_Channel" where
  "mpsc_step (Op_send v) ch =
     (case Sender_send v ch of Inl _ \<Rightarrow> ([], [], ch) | Inr ch' \<Rightarrow> ([], [v], ch'))"
| "mpsc_step Op_clear ch = ([], [], snd (Sender_clear ch))"
| "mpsc_step Op_clone_tx ch = ([], [], Sender_clone ch)"
| "mpsc_step Op_drop_tx ch = ([], [], Sender_drop ch)"
| "mpsc_step Op_try_next ch =
     (case Receiver_try_next ch of (Inr (Some v), ch') \<Rightarrow> ([v], [], ch') | (_, ch') \<Rightarrow> ([], [], ch'))"
| "mpsc_step Op_drain ch = (case Receiver_drain ch of (vs, ch') \<Rightarrow> (vs, [], ch'))"
| "mpsc_step Op_clone_rx ch = ([], [], Receiver_clone ch)"
| "mpsc_step Op_drop_rx ch = ([], [], Receiver_drop ch)"

text \<open>A run returns everything delivered, everything accepted, and the last channel.\<close>

fun mpsc_run :: "'a mpsc_op list \<Rightarrow> 'a Mpsc_Channel \<Rightarrow> 'a list \<times> 'a list \<times> 'a Mpsc_Channel" where
  "mpsc_run [] ch = ([], [], ch)"
| "mpsc_run (e # es) ch =
     (case mpsc_step e ch of (d, a, ch') \<Rightarrow>
        case mpsc_run es ch' of (ds, as, ch'') \<Rightarrow> (d @ ds, a @ as, ch''))"

lemmas mpsc_op_defs =
  Sender_send_def Sender_clear_def Sender_clone_def Sender_drop_def Receiver_try_next_def
  Receiver_drain_def Receiver_clone_def Receiver_drop_def

lemma mpsc_step_queue:
  assumes "mpsc_step e ch = (d, a, ch')" and "e \<noteq> Op_clear"
  shows "d @ ch_deque ch' = ch_deque ch @ a"
  using assms by (cases e) (auto simp: mpsc_op_defs split: sum.splits list.splits if_splits)

lemma mpsc_run_queue:
  assumes "mpsc_run es ch = (d, a, ch')" and "Op_clear \<notin> set es"
  shows "d @ ch_deque ch' = ch_deque ch @ a"
  using assms
proof (induction es arbitrary: ch d a)
  case (Cons e es)
  from Cons.prems obtain d1 a1 c1 d2 a2 where s: "mpsc_step e ch = (d1, a1, c1)"
    and r: "mpsc_run es c1 = (d2, a2, ch')" and [simp]: "d = d1 @ d2" "a = a1 @ a2"
    by (auto split: prod.splits)
  from mpsc_step_queue [OF s] Cons.IH [OF r] Cons.prems(2)
  show ?case by (metis (no_types, lifting) \<open>d = d1 @ d2\<close> \<open>a = a1 @ a2\<close> append.assoc list.set_intros(1,2))
qed auto

lemma mpsc_step_subseq:
  assumes "mpsc_step e ch = (d, a, ch')"
  shows "subseq (d @ ch_deque ch') (ch_deque ch @ a)"
proof (cases "e = Op_clear")
  case True
  with assms show ?thesis by (auto simp: Sender_clear_def)
next
  case False
  then show ?thesis using mpsc_step_queue [OF assms] by simp
qed

lemma mpsc_run_subseq:
  "mpsc_run es ch = (d, a, ch') \<Longrightarrow> subseq (d @ ch_deque ch') (ch_deque ch @ a)"
proof (induction es arbitrary: ch d a)
  case (Cons e es)
  then obtain d1 a1 c1 d2 a2 where s: "mpsc_step e ch = (d1, a1, c1)"
    and r: "mpsc_run es c1 = (d2, a2, ch')" and [simp]: "d = d1 @ d2" "a = a1 @ a2"
    by (auto split: prod.splits)
  have "subseq (d1 @ (d2 @ ch_deque ch')) (d1 @ (ch_deque c1 @ a2))"
    by (rule list_emb_append_mono [OF _ Cons.IH [OF r]]) simp
  moreover have "subseq ((d1 @ ch_deque c1) @ a2) ((ch_deque ch @ a1) @ a2)"
    by (rule list_emb_append_mono [OF mpsc_step_subseq [OF s]]) simp
  ultimately show ?case
    by (metis (no_types, lifting) \<open>d = d1 @ d2\<close> \<open>a = a1 @ a2\<close> append.assoc subseq_order.trans)
qed auto

section \<open>Properties\<close>

text \<open>
  C36: Over any sequence of operations on the handles of a fresh channel, the values delivered so
  far followed by the values still queued are a subsequence, in order, of the values accepted;
  and unless the queue is cleared nothing accepted is ever lost or repeated.
\<close>

theorem mpsc_fifo:
  assumes "mpsc_run es Channel_new = (delivered, accepted, ch)"
  shows "subseq (delivered @ ch_deque ch) accepted \<and>
    (Op_clear \<notin> set es \<longrightarrow> delivered @ ch_deque ch = accepted)"
  using mpsc_run_subseq [OF assms] mpsc_run_queue [OF assms] by (simp add: Channel_new_def)

theorem mpsc_fifo_witness:
  "(case mpsc_run [Op_send 1, Op_send 2, Op_drop_tx, Op_try_next] (Channel_new :: nat Mpsc_Channel) of
     (delivered, accepted, ch) \<Rightarrow> delivered = [1] \<and> accepted = [1, 2] \<and> delivered @ ch_deque ch = accepted)"
proof -
  obtain dl ac ch where r: "mpsc_run [Op_send 1, Op_send 2, Op_drop_tx, Op_try_next]
      (Channel_new :: nat Mpsc_Channel) = (dl, ac, ch)"
    by (metis prod_cases3)
  then have "dl = [1] \<and> ac = [1, 2]" by (auto simp: mpsc_op_defs Channel_new_def)
  with r mpsc_fifo [OF r] show ?thesis by simp
qed

end
