(* ===== verification/Mq_Dispatcher.thy ===== *)
theory Mq_Dispatcher
  imports Mq_Mpsc
begin

text \<open>
  The message dispatcher of \<open>crates/phala-mq/src/dispatcher.rs\<close>. Senders and receivers share
  channels, so channels live in an explicit store (a list, addressed by position): the
  dispatcher holds the positions of its senders per topic, a receiver holds its own.
\<close>

section \<open>Data and operations\<close>

type_synonym mq_item = "u64 \<times> Message"
type_synonym chan_store = "mq_item Mpsc_Channel list"

record MessageDispatcher =
  md_subscribers :: "(bytes, nat list) btree_map"
  md_local_index :: u64

record Dispatcher_Receiver =
  rx_inner :: nat
  rx_topic :: bytes

definition MessageDispatcher_new :: MessageDispatcher where
  "MessageDispatcher_new = \<lparr>md_subscribers = [], md_local_index = 0\<rparr>"

definition MessageDispatcher_subscribe ::
  "bytes \<Rightarrow> MessageDispatcher \<times> chan_store \<Rightarrow> Dispatcher_Receiver \<times> MessageDispatcher \<times> chan_store"
where
  "MessageDispatcher_subscribe path s =
     (let (d, st) = s;
          id = length st;
          entry = unwrap_or (bt_get (md_subscribers d) path) []
      in (\<lparr>rx_inner = id, rx_topic = path\<rparr>,
          d\<lparr>md_subscribers := bt_insert path (entry @ [id]) (md_subscribers d)\<rparr>,
          st @ [Channel_new]))"

text \<open>
  The \<open>retain\<close> loop of \<open>dispatch\<close>: a sender whose receivers are gone is removed from the list,
  which drops it.
\<close>

fun dispatch_retain :: "mq_item \<Rightarrow> nat list \<Rightarrow> chan_store \<Rightarrow> nat list \<times> nat \<times> chan_store" where
  "dispatch_retain v [] st = ([], 0, st)"
| "dispatch_retain v (i # is) st =
     (case Sender_send v (st ! i) of
        Inl ReceiverGone \<Rightarrow> dispatch_retain v is (st[i := Sender_drop (st ! i)])
      | Inr c \<Rightarrow>
          (case dispatch_retain v is (st[i := c]) of (ks, n, st') \<Rightarrow> (i # ks, Suc n, st')))"

definition MessageDispatcher_dispatch ::
  "Message \<Rightarrow> MessageDispatcher \<times> chan_store \<Rightarrow> nat \<times> MessageDispatcher \<times> chan_store" where
  "MessageDispatcher_dispatch message s =
     (let (d, st) = s;
          sn = md_local_index d;
          d = d\<lparr>md_local_index := md_local_index d + 1\<rparr>;
          path = Topic_path (msg_destination message)
      in case bt_get (md_subscribers d) path of
           None \<Rightarrow> (0, d, st)
         | Some receivers \<Rightarrow>
             (case dispatch_retain (sn, message) receivers st of
                (ks, cnt, st') \<Rightarrow>
                  (cnt, d\<lparr>md_subscribers := bt_insert path ks (md_subscribers d)\<rparr>, st')))"

definition MessageDispatcher_reset_local_index :: "MessageDispatcher \<Rightarrow> MessageDispatcher" where
  "MessageDispatcher_reset_local_index d = d\<lparr>md_local_index := 0\<rparr>"

text \<open>\<open>clear\<close> empties the channel of every sender and counts what it dropped.\<close>

definition subscribed :: "MessageDispatcher \<Rightarrow> nat list" where
  "subscribed d = concat (map snd (md_subscribers d))"

fun clear_loop :: "nat list \<Rightarrow> nat \<times> chan_store \<Rightarrow> nat \<times> chan_store" where
  "clear_loop [] s = s"
| "clear_loop (i # is) (cnt, st) =
     (case Sender_clear (st ! i) of (n, c) \<Rightarrow> clear_loop is (cnt + n, st[i := c]))"

definition MessageDispatcher_clear :: "MessageDispatcher \<times> chan_store \<Rightarrow> nat \<times> chan_store" where
  "MessageDispatcher_clear s = (case s of (d, st) \<Rightarrow> clear_loop (subscribed d) (0, st))"

section \<open>Typed receivers\<close>

text \<open>A call either panics or returns.\<close>

datatype 'a outcome = Panic | Return 'a

datatype TypedReceiveError = Typed_SenderGone | CodecError

definition TypedReceiver_try_next ::
  "(bytes \<Rightarrow> 'a option) \<Rightarrow> mq_item Mpsc_Channel \<Rightarrow>
   (TypedReceiveError + (u64 \<times> 'a \<times> MessageOrigin) option) outcome \<times> mq_item Mpsc_Channel" where
  "TypedReceiver_try_next dec ch =
     (case Receiver_try_next ch of
        (Inl SenderGone, ch') \<Rightarrow> (Return (Inl Typed_SenderGone), ch')
      | (Inr None, ch') \<Rightarrow> (Return (Inr None), ch')
      | (Inr (Some (sn, msg)), ch') \<Rightarrow>
          (case dec (msg_payload msg) of
             Some typed \<Rightarrow> (Return (Inr (Some (sn, typed, msg_sender msg))), ch')
           | None \<Rightarrow>
               if MessageOrigin_always_well_formed (msg_sender msg) then (Panic, ch')
               else (Return (Inl CodecError), ch')))"

section \<open>The select macro\<close>

text \<open>First pass of \<open>select!\<close>: the running minimum, its position, and the current position.\<close>

fun select_scan ::
  "(ReceiveError + u64 option) list \<Rightarrow> u64 option \<times> nat \<Rightarrow> nat \<Rightarrow> u64 option \<times> nat" where
  "select_scan [] m ind = m"
| "select_scan (p # ps) (mn, min_ind) ind =
     select_scan ps
       (case p of
          Inr (Some sn) \<Rightarrow>
            (case mn of
               None \<Rightarrow> (Some sn, ind)
             | Some old \<Rightarrow> if sn < old then (Some sn, ind) else (mn, min_ind))
        | Inl _ \<Rightarrow> (Some 0, ind)
        | Inr None \<Rightarrow> (mn, min_ind))
       (Suc ind)"

text \<open>\<open>Result<Option<T>, E>::transpose\<close>.\<close>

fun transpose_res :: "'e + 'a option \<Rightarrow> ('e + 'a) option" where
  "transpose_res (Inl e) = Some (Inl e)"
| "transpose_res (Inr None) = None"
| "transpose_res (Inr (Some x)) = Some (Inr x)"

text \<open>The whole macro over the receivers' channels: which branch runs, and on what.\<close>

definition select_next ::
  "mq_item Mpsc_Channel list \<Rightarrow> (nat \<times> (ReceiveError + mq_item)) option \<times> mq_item Mpsc_Channel list"
where
  "select_next chs =
     (case select_scan (map (Receiver_peek_ind fst) chs) (None, 0) 0 of
        (None, _) \<Rightarrow> (None, chs)
      | (Some _, i) \<Rightarrow>
          (case Receiver_try_next (chs ! i) of
             (r, c) \<Rightarrow> (map_option (Pair i) (transpose_res r), chs[i := c])))"

text \<open>An event loop: select until nothing is pending.\<close>

fun select_loop ::
  "nat \<Rightarrow> mq_item Mpsc_Channel list \<Rightarrow> mq_item list \<times> mq_item Mpsc_Channel list" where
  "select_loop 0 chs = ([], chs)"
| "select_loop (Suc n) chs =
     (case select_next chs of
        (Some (_, Inr m), chs') \<Rightarrow> (case select_loop n chs' of (ms, chs'') \<Rightarrow> (m # ms, chs''))
      | (_, chs') \<Rightarrow> ([], chs'))"

section \<open>Dispatching\<close>

abbreviation rx_live :: "chan_store \<Rightarrow> nat \<Rightarrow> bool" where
  "rx_live st i \<equiv> ch_receiver_count (st ! i) \<noteq> 0"

abbreviation push_item :: "mq_item \<Rightarrow> mq_item Mpsc_Channel \<Rightarrow> mq_item Mpsc_Channel" where
  "push_item v c \<equiv> c\<lparr>ch_deque := ch_deque c @ [v]\<rparr>"

text \<open>Each listed channel with a live receiver gets the item once, at its end; no other changes.\<close>

lemma dispatch_retain_spec:
  assumes "distinct is" and "\<forall>i \<in> set is. i < length st"
    and "dispatch_retain v is st = (ks, n, st')"
  shows "ks = filter (rx_live st) is \<and> n = length ks \<and> length st' = length st \<and>
    (\<forall>j. st' ! j =
       (if j \<notin> set is then st ! j else if rx_live st j then push_item v (st ! j) else Sender_drop (st ! j)))"
  using assms
proof (induction "is" arbitrary: st ks n st')
  case (Cons i "is")
  show ?case
  proof (cases "rx_live st i")
    case True
    then have s: "Sender_send v (st ! i) = Inr (push_item v (st ! i))"
      by (simp add: Sender_send_def)
    let ?st1 = "st[i := push_item v (st ! i)]"
    obtain ks1 n1 where r: "dispatch_retain v is ?st1 = (ks1, n1, st')" "ks = i # ks1" "n = Suc n1"
      using Cons.prems(3) s by (auto split: prod.splits)
    have "filter (rx_live ?st1) is = filter (rx_live st) is"
      by (intro filter_cong refl) (metis Cons.prems(1) distinct.simps(2) nth_list_update_neq)
    with Cons.IH [OF _ _ r(1)] Cons.prems r(2,3) True show ?thesis
      by (auto simp: nth_list_update)
  next
    case False
    then have s: "Sender_send v (st ! i) = Inl ReceiverGone" by (simp add: Sender_send_def)
    let ?st1 = "st[i := Sender_drop (st ! i)]"
    have r: "dispatch_retain v is ?st1 = (ks, n, st')" using Cons.prems(3) s by simp
    have "filter (rx_live ?st1) is = filter (rx_live st) is"
      by (intro filter_cong refl) (metis Cons.prems(1) distinct.simps(2) nth_list_update_neq)
    with Cons.IH [OF _ _ r] Cons.prems False show ?thesis
      by (auto simp: nth_list_update)
  qed
qed auto

definition disp_wf :: "MessageDispatcher \<times> chan_store \<Rightarrow> bool" where
  "disp_wf s = (case s of (d, st) \<Rightarrow>
     bt_wf (md_subscribers d) \<and> distinct (subscribed d) \<and> (\<forall>i \<in> set (subscribed d). i < length st))"

definition topic_subscribers :: "MessageDispatcher \<Rightarrow> bytes \<Rightarrow> nat list" where
  "topic_subscribers d path = unwrap_or (bt_get (md_subscribers d) path) []"

lemma topic_subscribers_subset: "bt_wf (md_subscribers d) \<Longrightarrow> set (topic_subscribers d p) \<subseteq> set (subscribed d)"
  by (cases "bt_get (md_subscribers d) p")
    (auto simp: topic_subscribers_def subscribed_def bt_get_def dest!: map_of_SomeD)

lemma mset_topic_subscribers:
  assumes "bt_wf (md_subscribers d)"
  shows "mset (topic_subscribers d p) \<subseteq># mset (subscribed d)"
  using mset_concat_bt_insert [OF assms, of p "[]"]
  by (metis add.right_neutral mset.simps(1) mset_subset_eq_add_right subscribed_def topic_subscribers_def)

lemma mset_subscribed_update:
  assumes "bt_wf (md_subscribers d)"
  shows "mset (subscribed (d\<lparr>md_subscribers := bt_insert p ks (md_subscribers d)\<rparr>)) + mset (topic_subscribers d p) =
    mset (subscribed d) + mset ks"
  using mset_concat_bt_insert [OF assms, of p ks] by (simp add: subscribed_def topic_subscribers_def)

text \<open>The behaviour of \<open>dispatch\<close> on a well-formed dispatcher, on both branches.\<close>

lemma dispatch_spec:
  assumes wf: "disp_wf (d, st)"
    and dp: "MessageDispatcher_dispatch message (d, st) = (cnt, d', st')"
  defines "rs \<equiv> topic_subscribers d (Topic_path (msg_destination message))"
  shows "cnt = length (filter (rx_live st) rs)"
    and "md_local_index d' = md_local_index d + 1"
    and "length st' = length st"
    and "j < length st \<Longrightarrow> st' ! j =
      (if j \<notin> set rs then st ! j
       else if rx_live st j then push_item (md_local_index d, message) (st ! j) else Sender_drop (st ! j))"
    and "mset (subscribed d') + mset rs = mset (subscribed d) + mset (filter (rx_live st) rs)"
    and "bt_wf (md_subscribers d')"
    and "topic_subscribers d' p =
      (if p = Topic_path (msg_destination message) then filter (rx_live st) rs else topic_subscribers d p)"
proof -
  let ?path = "Topic_path (msg_destination message)"
  let ?d = "d\<lparr>md_local_index := md_local_index d + 1\<rparr>"
  have bw: "bt_wf (md_subscribers d)" using wf by (simp add: disp_wf_def)
  have rs: "distinct rs" "\<forall>i \<in> set rs. i < length st"
    using wf mset_topic_subscribers [OF bw, of ?path] topic_subscribers_subset [OF bw, of ?path]
    by (auto simp: rs_def disp_wf_def intro: distinct_mset_subset)
  have all: "cnt = length (filter (rx_live st) rs) \<and> md_local_index d' = md_local_index d + 1 \<and>
    length st' = length st \<and>
    (\<forall>j < length st. st' ! j =
      (if j \<notin> set rs then st ! j
       else if rx_live st j then push_item (md_local_index d, message) (st ! j) else Sender_drop (st ! j))) \<and>
    mset (subscribed d') + mset rs = mset (subscribed d) + mset (filter (rx_live st) rs) \<and>
    bt_wf (md_subscribers d') \<and>
    (\<forall>p. topic_subscribers d' p =
      (if p = ?path then filter (rx_live st) rs else topic_subscribers d p))"
  proof (cases "bt_get (md_subscribers d) ?path")
    case None
    then have "rs = []" by (simp add: rs_def topic_subscribers_def)
    with None dp bw show ?thesis
      by (auto simp: MessageDispatcher_dispatch_def Let_def subscribed_def topic_subscribers_def)
  next
    case (Some receivers)
    then have r: "receivers = rs" by (simp add: rs_def topic_subscribers_def)
    obtain ks n st1 where dr: "dispatch_retain (md_local_index d, message) rs st = (ks, n, st1)"
      by (metis prod_cases3)
    from dp Some dr r have d': "cnt = n" "st' = st1"
      "d' = ?d\<lparr>md_subscribers := bt_insert ?path ks (md_subscribers ?d)\<rparr>"
      by (auto simp: MessageDispatcher_dispatch_def Let_def)
    have "mset (subscribed d') + mset rs = mset (subscribed d) + mset ks"
      using mset_subscribed_update [of ?d ?path ks] bw
      by (simp add: d' rs_def topic_subscribers_def subscribed_def)
    moreover have "topic_subscribers d' p = (if p = ?path then ks else topic_subscribers d p)" for p
      using bw by (simp add: d' topic_subscribers_def bt.get_ins)
    ultimately show ?thesis
      using dispatch_retain_spec [OF rs dr] d' bw by (auto simp: bt.wf_ins)
  qed
  then show "cnt = length (filter (rx_live st) rs)"
    and "md_local_index d' = md_local_index d + 1"
    and "length st' = length st"
    and "j < length st \<Longrightarrow> st' ! j =
      (if j \<notin> set rs then st ! j
       else if rx_live st j then push_item (md_local_index d, message) (st ! j) else Sender_drop (st ! j))"
    and "mset (subscribed d') + mset rs = mset (subscribed d) + mset (filter (rx_live st) rs)"
    and "bt_wf (md_subscribers d')"
    and "topic_subscribers d' p =
      (if p = ?path then filter (rx_live st) rs else topic_subscribers d p)"
    by auto
qed

lemma subscribed_dispatch_subset:
  assumes "mset (subscribed d') + mset rs = mset (subscribed d) + mset (filter P rs)"
  shows "mset (subscribed d') \<subseteq># mset (subscribed d)"
proof -
  have "mset (filter P rs) \<subseteq># mset rs" by (simp add: multiset_filter_subset)
  then have "mset (subscribed d') + mset rs \<subseteq># mset (subscribed d) + mset rs"
    using assms by (simp add: subset_mset.add_left_mono)
  then show ?thesis by simp
qed

section \<open>Serial numbers stay in order\<close>

text \<open>
  Items of a channel carry strictly increasing serial numbers, all below the dispatcher's index;
  this is what makes \<open>select!\<close> replay messages in dispatch order.
\<close>

definition items_below :: "u64 \<Rightarrow> mq_item Mpsc_Channel \<Rightarrow> bool" where
  "items_below li c \<longleftrightarrow> sorted_wrt (<) (map fst (ch_deque c)) \<and> (\<forall>x \<in> set (ch_deque c). fst x < li)"

text \<open>The dispatcher's own sender keeps each subscribed channel open.\<close>

definition disp_inv :: "MessageDispatcher \<times> chan_store \<Rightarrow> bool" where
  "disp_inv s \<longleftrightarrow> disp_wf s \<and>
     (\<forall>i \<in> set (subscribed (fst s)).
        items_below (md_local_index (fst s)) (snd s ! i) \<and> ch_sender_count (snd s ! i) = 1)"

lemma items_below_push:
  "items_below li c \<Longrightarrow> li \<noteq> - 1 \<Longrightarrow> items_below (li + 1) (push_item (li, m) c)"
  using word_less_Suc [of li] by (auto simp: items_below_def sorted_wrt_append dest: less_trans)

lemma items_below_mono: "items_below li c \<Longrightarrow> li \<noteq> - 1 \<Longrightarrow> items_below (li + 1) c"
  using word_less_Suc [of li] by (auto simp: items_below_def dest: less_trans)

lemma items_below_drop [simp]: "items_below li (Sender_drop c) = items_below li c"
  by (simp add: items_below_def Sender_drop_def)

lemma items_below_suffix: "items_below li c \<Longrightarrow> ch_deque c = xs @ ch_deque c' \<Longrightarrow> items_below li c'"
  by (auto simp: items_below_def sorted_wrt_append)

lemma dispatch_keeps_live:
  assumes wf: "disp_wf (d, st)"
    and m: "mset (subscribed d') + mset rs = mset (subscribed d) + mset (filter P rs)"
    and "i \<in> set (subscribed d')" and "i \<in> set rs"
  shows "P i"
proof (rule ccontr)
  assume "\<not> P i"
  then have "count (mset (filter P rs)) i = 0" by (simp add: count_mset_0_iff)
  moreover have "count (mset (subscribed d)) i \<le> 1"
    using wf by (simp add: disp_wf_def distinct_count_atmost_1)
  moreover have "count (mset (subscribed d')) i \<ge> 1" "count (mset rs) i \<ge> 1"
    using assms(3,4) by (simp_all add: Suc_le_eq)
  moreover have "count (mset (subscribed d')) i + count (mset rs) i =
      count (mset (subscribed d)) i + count (mset (filter P rs)) i"
    using arg_cong [OF m, of "\<lambda>M. count M i"] by simp
  ultimately show False by linarith
qed

lemma disp_inv_dispatch:
  assumes inv: "disp_inv (d, st)" and ov: "md_local_index d \<noteq> - 1"
    and dp: "MessageDispatcher_dispatch message (d, st) = (cnt, d', st')"
  shows "disp_inv (d', st')"
proof -
  have wf: "disp_wf (d, st)" using inv by (simp add: disp_inv_def)
  note sp = dispatch_spec [OF wf dp]
  have sub: "mset (subscribed d') \<subseteq># mset (subscribed d)"
    using sp(5) by (rule subscribed_dispatch_subset)
  then have set_sub: "set (subscribed d') \<subseteq> set (subscribed d)"
    by (metis set_mset_mono set_mset_mset)
  have "disp_wf (d', st')"
    using wf sp(3,6) set_sub distinct_mset_subset [OF _ sub] by (auto simp: disp_wf_def)
  moreover have "items_below (md_local_index d') (st' ! i) \<and> ch_sender_count (st' ! i) = 1"
    if i: "i \<in> set (subscribed d')" for i
  proof -
    from i set_sub have "i \<in> set (subscribed d)" by blast
    with inv have "items_below (md_local_index d) (st ! i)" "i < length st" "ch_sender_count (st ! i) = 1"
      by (auto simp: disp_inv_def disp_wf_def)
    then show ?thesis
      using sp(4) [of i] sp(2) ov dispatch_keeps_live [OF wf sp(5) i]
      by (auto simp: items_below_push items_below_mono)
  qed
  ultimately show ?thesis by (simp add: disp_inv_def)
qed

lemma subscribe_subscribed:
  assumes "bt_wf (md_subscribers d)"
    and "MessageDispatcher_subscribe path (d, st) = (rx, d', st')"
  shows "mset (subscribed d') = mset (length st # subscribed d)" and "bt_wf (md_subscribers d')"
    and "md_local_index d' = md_local_index d" and "st' = st @ [Channel_new]"
  using assms mset_subscribed_update [OF assms(1), of path "topic_subscribers d path @ [length st]"]
  by (auto simp: MessageDispatcher_subscribe_def Let_def topic_subscribers_def bt.wf_ins)

lemma disp_inv_subscribe:
  assumes inv: "disp_inv (d, st)" and sb: "MessageDispatcher_subscribe path (d, st) = (rx, d', st')"
  shows "disp_inv (d', st')"
proof -
  have bw: "bt_wf (md_subscribers d)" using inv by (simp add: disp_inv_def disp_wf_def)
  note sp = subscribe_subscribed [OF bw sb]
  have set': "set (subscribed d') = insert (length st) (set (subscribed d))"
    using mset_eq_setD [OF sp(1)] by simp
  have "distinct (subscribed d')"
    using inv mset_eq_imp_distinct_iff [OF sp(1)] by (auto simp: disp_inv_def disp_wf_def)
  with inv sp(2-4) set' show ?thesis
    by (auto simp: disp_inv_def disp_wf_def nth_append items_below_def Channel_new_def)
qed

lemma clear_loop_spec:
  assumes "clear_loop is (n, st) = (m, st')" and "\<forall>i \<in> set is. i < length st"
  shows "length st' = length st \<and>
    (\<forall>i. ch_deque (st' ! i) = (if i \<in> set is then [] else ch_deque (st ! i)) \<and>
         ch_sender_count (st' ! i) = ch_sender_count (st ! i))"
  using assms
proof (induction "is" arbitrary: n st)
  case (Cons i "is")
  then show ?case by (fastforce simp: Sender_clear_def nth_list_update split: if_splits)
qed auto

text \<open>Clearing at the end of a block makes it sound to reset the index for the next block.\<close>

lemma disp_inv_clear_reset:
  assumes inv: "disp_inv (d, st)" and cl: "MessageDispatcher_clear (d, st) = (n, st')"
  shows "disp_inv (MessageDispatcher_reset_local_index d, st')"
proof -
  have "\<forall>i \<in> set (subscribed d). i < length st" using inv by (simp add: disp_inv_def disp_wf_def)
  with clear_loop_spec [of "subscribed d" 0 st n st'] cl
  have c: "length st' = length st" "\<forall>i \<in> set (subscribed d). ch_deque (st' ! i) = []"
    "\<forall>i. ch_sender_count (st' ! i) = ch_sender_count (st ! i)"
    by (auto simp: MessageDispatcher_clear_def)
  with inv show ?thesis
    by (auto simp: disp_inv_def disp_wf_def MessageDispatcher_reset_local_index_def subscribed_def
        items_below_def)
qed

text \<open>A receiver's own steps only take items from the front.\<close>

lemma disp_inv_consume:
  assumes inv: "disp_inv (d, st)" and "i < length st" and "ch_deque (st ! i) = xs @ ch_deque c"
    and "ch_sender_count c = ch_sender_count (st ! i)"
  shows "disp_inv (d, st[i := c])"
  using assms items_below_suffix [of "md_local_index d" "st ! i" xs c]
  by (auto simp: disp_inv_def disp_wf_def nth_list_update)

section \<open>Reachable dispatcher states\<close>

text \<open>
  The steps of a process that owns a dispatcher: subscribe, dispatch (before the 64-bit index
  ends), any receive-side step on a channel, dropping and cloning a receiver, and the
  end-of-block pair of \<open>clear\<close> and \<open>reset_local_index\<close>. The list records the messages dispatched
  since the last such pair, in the order of the calls.
\<close>

inductive disp_reachable :: "Message list \<Rightarrow> MessageDispatcher \<times> chan_store \<Rightarrow> bool" where
  disp_init: "disp_reachable [] (MessageDispatcher_new, [])"
| disp_subscribe: "disp_reachable log (d, st) \<Longrightarrow>
    MessageDispatcher_subscribe path (d, st) = (rx, d', st') \<Longrightarrow> disp_reachable log (d', st')"
| disp_dispatch: "disp_reachable log (d, st) \<Longrightarrow> Suc (length log) < 2 ^ 64 \<Longrightarrow>
    MessageDispatcher_dispatch message (d, st) = (cnt, d', st') \<Longrightarrow> disp_reachable (log @ [message]) (d', st')"
| disp_try_next: "disp_reachable log (d, st) \<Longrightarrow> i < length st \<Longrightarrow>
    Receiver_try_next (st ! i) = (r, c) \<Longrightarrow> disp_reachable log (d, st[i := c])"
| disp_drain: "disp_reachable log (d, st) \<Longrightarrow> i < length st \<Longrightarrow>
    Receiver_drain (st ! i) = (vs, c) \<Longrightarrow> disp_reachable log (d, st[i := c])"
| disp_rx_drop: "disp_reachable log (d, st) \<Longrightarrow> i < length st \<Longrightarrow>
    disp_reachable log (d, st[i := Receiver_drop (st ! i)])"
| disp_rx_clone: "disp_reachable log (d, st) \<Longrightarrow> i < length st \<Longrightarrow>
    disp_reachable log (d, st[i := Receiver_clone (st ! i)])"
| disp_next_block: "disp_reachable log (d, st) \<Longrightarrow> MessageDispatcher_clear (d, st) = (n, st') \<Longrightarrow>
    disp_reachable [] (MessageDispatcher_reset_local_index d, st')"

lemma try_next_suffix:
  "Receiver_try_next c = (r, c') \<Longrightarrow>
   (\<exists>xs. ch_deque c = xs @ ch_deque c') \<and> ch_sender_count c' = ch_sender_count c"
  by (cases "ch_deque c") (auto simp: Receiver_try_next_def split: if_splits)

text \<open>The serial number of a pending item is the position at which its message was dispatched.\<close>

definition in_log :: "Message list \<Rightarrow> mq_item Mpsc_Channel \<Rightarrow> bool" where
  "in_log log c \<longleftrightarrow>
     (\<forall>x \<in> set (ch_deque c). unat (fst x) < length log \<and> snd x = log ! unat (fst x))"

definition log_inv :: "Message list \<Rightarrow> MessageDispatcher \<times> chan_store \<Rightarrow> bool" where
  "log_inv log s \<longleftrightarrow> disp_inv s \<and> length log < 2 ^ 64 \<and> md_local_index (fst s) = of_nat (length log) \<and>
     (\<forall>i \<in> set (subscribed (fst s)). in_log log (snd s ! i))"

lemma in_log_append [simp]: "in_log log c \<Longrightarrow> in_log (log @ ms) c"
  by (auto simp: in_log_def nth_append)

lemma in_log_suffix: "in_log log c \<Longrightarrow> ch_deque c = xs @ ch_deque c' \<Longrightarrow> in_log log c'"
  by (auto simp: in_log_def)

lemma log_inv_consume:
  assumes "log_inv log (d, st)" and "i < length st" and "ch_deque (st ! i) = xs @ ch_deque c"
    and "ch_sender_count c = ch_sender_count (st ! i)"
  shows "log_inv log (d, st[i := c])"
  using assms disp_inv_consume [of d st i xs c] in_log_suffix [of log "st ! i" xs c]
  by (auto simp: log_inv_def nth_list_update)

lemma log_inv_dispatch:
  assumes inv: "log_inv log (d, st)" and ov: "Suc (length log) < 2 ^ 64"
    and dp: "MessageDispatcher_dispatch message (d, st) = (cnt, d', st')"
  shows "log_inv (log @ [message]) (d', st')"
proof -
  have di: "disp_inv (d, st)" and li: "md_local_index d = of_nat (length log)"
    using inv by (simp_all add: log_inv_def)
  then have wf: "disp_wf (d, st)" by (simp add: disp_inv_def)
  note sp = dispatch_spec [OF wf dp]
  have u: "unat (of_nat (length log) :: u64) = length log" using ov by (intro unat_of_nat_word) simp
  have "md_local_index d \<noteq> - 1"
  proof
    assume "md_local_index d = - 1"
    then have "unat (of_nat (Suc (length log)) :: u64) = 0" using li by simp
    moreover have "unat (of_nat (Suc (length log)) :: u64) = Suc (length log)"
      using ov by (intro unat_of_nat_word) simp
    ultimately show False by simp
  qed
  from disp_inv_dispatch [OF di this dp] have "disp_inv (d', st')" .
  moreover have "in_log (log @ [message]) (st' ! i)" if "i \<in> set (subscribed d')" for i
  proof -
    have "i \<in> set (subscribed d)"
      using that subscribed_dispatch_subset [OF sp(5)] by (metis mset_subset_eqD set_mset_mset)
    then have "in_log log (st ! i)" "i < length st"
      using inv wf by (auto simp: log_inv_def disp_wf_def)
    then show ?thesis
      using sp(4) [of i] li u by (auto simp: in_log_def Sender_drop_def nth_append)
  qed
  ultimately show ?thesis using ov sp(2) li by (simp add: log_inv_def)
qed

lemma log_inv_subscribe:
  assumes inv: "log_inv log (d, st)" and sb: "MessageDispatcher_subscribe path (d, st) = (rx, d', st')"
  shows "log_inv log (d', st')"
proof -
  have di: "disp_inv (d, st)" using inv by (simp add: log_inv_def)
  then have bw: "bt_wf (md_subscribers d)" by (simp add: disp_inv_def disp_wf_def)
  note sp = subscribe_subscribed [OF bw sb]
  have "set (subscribed d') = insert (length st) (set (subscribed d))"
    using mset_eq_setD [OF sp(1)] by simp
  with inv sp(3,4) disp_inv_subscribe [OF di sb] di show ?thesis
    by (auto simp: log_inv_def disp_inv_def disp_wf_def nth_append in_log_def Channel_new_def)
qed

lemma log_inv_clear_reset:
  assumes inv: "log_inv log (d, st)" and cl: "MessageDispatcher_clear (d, st) = (n, st')"
  shows "log_inv [] (MessageDispatcher_reset_local_index d, st')"
proof -
  have di: "disp_inv (d, st)" using inv by (simp add: log_inv_def)
  then have "\<forall>i \<in> set (subscribed d). i < length st" by (simp add: disp_inv_def disp_wf_def)
  with clear_loop_spec [of "subscribed d" 0 st n st'] cl
  have "\<forall>i \<in> set (subscribed d). ch_deque (st' ! i) = []"
    by (auto simp: MessageDispatcher_clear_def)
  with disp_inv_clear_reset [OF di cl] show ?thesis
    by (simp add: log_inv_def in_log_def MessageDispatcher_reset_local_index_def subscribed_def)
qed

lemma disp_reachable_log_inv: "disp_reachable log s \<Longrightarrow> log_inv log s"
proof (induction rule: disp_reachable.induct)
  case disp_init
  show ?case by (simp add: log_inv_def disp_inv_def disp_wf_def MessageDispatcher_new_def subscribed_def)
next
  case (disp_try_next log d st i r c)
  then show ?case using try_next_suffix [of "st ! i" r c] by (blast intro: log_inv_consume)
next
  case (disp_drain log d st i vs c)
  then have "ch_deque (st ! i) = vs @ ch_deque c" "ch_sender_count c = ch_sender_count (st ! i)"
    by (auto simp: Receiver_drain_def)
  with disp_drain show ?case by (blast intro: log_inv_consume)
next
  case (disp_rx_drop log d st i)
  then show ?case by (intro log_inv_consume [where xs = "[]"]) (auto simp: Receiver_drop_def)
next
  case (disp_rx_clone log d st i)
  then show ?case by (intro log_inv_consume [where xs = "[]"]) (auto simp: Receiver_clone_def)
qed (auto intro: log_inv_subscribe log_inv_dispatch log_inv_clear_reset)

lemma disp_reachable_inv: "disp_reachable log s \<Longrightarrow> disp_inv s"
  using disp_reachable_log_inv by (simp add: log_inv_def)

section \<open>Selecting the oldest message\<close>

lemma select_scan_min:
  assumes "\<forall>p \<in> set ps. \<exists>o'. p = Inr o'" and "select_scan ps (mn, mi) ind = (m, i)"
  shows "case m of
      None \<Rightarrow> mn = None \<and> (\<forall>p \<in> set ps. p = Inr None)
    | Some sn \<Rightarrow> (\<forall>x. Inr (Some x) \<in> set ps \<longrightarrow> sn \<le> x) \<and> (\<forall>x. mn = Some x \<longrightarrow> sn \<le> x) \<and>
        (mn = Some sn \<and> i = mi \<or> (\<exists>j < length ps. ps ! j = Inr (Some sn) \<and> i = ind + j))"
  using assms
proof (induction ps arbitrary: mn mi ind)
  case Nil
  then show ?case by (auto split: option.splits)
next
  case (Cons p ps)
  have lift: "(\<exists>j < length ps. ps ! j = Inr (Some sn) \<and> i = Suc ind + j) \<Longrightarrow>
    (\<exists>j < length (p # ps). (p # ps) ! j = Inr (Some sn) \<and> i = ind + j)" for sn
    by (metis Suc_less_eq add_Suc_shift length_Cons nth_Cons_Suc)
  have here: "p = Inr (Some sn) \<Longrightarrow> i = ind \<Longrightarrow>
    (\<exists>j < length (p # ps). (p # ps) ! j = Inr (Some sn) \<and> i = ind + j)" for sn
    by (rule exI [of _ 0]) simp
  obtain v where p: "p = Inr v" using Cons.prems(1) by auto
  have ps: "\<forall>q \<in> set ps. \<exists>o'. q = Inr o'" using Cons.prems(1) by auto
  show ?case
  proof (cases v)
    case None
    with Cons.prems(2) p have "select_scan ps (mn, mi) (Suc ind) = (m, i)" by simp
    from Cons.IH [OF ps this] None p lift show ?thesis by (cases m) auto
  next
    case (Some sn)
    show ?thesis
    proof (cases "mn = None \<or> (\<exists>old. mn = Some old \<and> sn < old)")
      case True
      then have "select_scan ps (Some sn, ind) (Suc ind) = (m, i)"
        using Cons.prems(2) p Some by (auto split: option.splits)
      from Cons.IH [OF ps this] obtain sn' where m: "m = Some sn'"
        and le: "\<forall>x. Inr (Some x) \<in> set ps \<longrightarrow> sn' \<le> x" "sn' \<le> sn"
        and at: "sn = sn' \<and> i = ind \<or> (\<exists>j < length ps. ps ! j = Inr (Some sn') \<and> i = Suc ind + j)"
        by (cases m) auto
      have "\<forall>x. mn = Some x \<longrightarrow> sn' \<le> x" using True le(2) by auto
      with m le p Some lift [of sn'] here [of sn'] at show ?thesis by auto
    next
      case False
      then have "select_scan ps (mn, mi) (Suc ind) = (m, i)"
        using Cons.prems(2) p Some by (auto split: option.splits)
      with Cons.IH [OF ps this] False obtain sn' where m: "m = Some sn'"
        and le: "\<forall>x. Inr (Some x) \<in> set ps \<longrightarrow> sn' \<le> x" "\<forall>x. mn = Some x \<longrightarrow> sn' \<le> x"
        and at: "mn = Some sn' \<and> i = mi \<or> (\<exists>j < length ps. ps ! j = Inr (Some sn') \<and> i = Suc ind + j)"
        by (cases m) auto
      have "sn' \<le> sn" using False le(2) by (cases mn) (auto simp: not_less intro: order_trans)
      with m le p Some lift [of sn'] at show ?thesis by auto
    qed
  qed
qed

lemma peek_ind_Inr:
  "ch_sender_count c \<noteq> 0 \<Longrightarrow>
   Receiver_peek_ind fst c = Inr (case ch_deque c of [] \<Rightarrow> None | x # _ \<Rightarrow> Some (fst x))"
  by (auto simp: Receiver_peek_ind_def split: list.splits)

text \<open>While every channel has a sender, a selection takes an item with the least serial number.\<close>

lemma select_next_least:
  assumes tx: "\<forall>c \<in> set chs. ch_sender_count c \<noteq> 0" and ne: "\<exists>c \<in> set chs. ch_deque c \<noteq> []"
  obtains i x xs where "select_next chs = (Some (i, Inr x), chs[i := (chs ! i)\<lparr>ch_deque := xs\<rparr>])"
    and "i < length chs" and "ch_deque (chs ! i) = x # xs"
    and "\<And>c y ys. c \<in> set chs \<Longrightarrow> ch_deque c = y # ys \<Longrightarrow> fst x \<le> fst y"
proof -
  let ?ps = "map (Receiver_peek_ind fst) chs"
  have inr: "\<forall>p \<in> set ?ps. \<exists>o'. p = Inr o'" using tx by (auto simp: peek_ind_Inr)
  obtain m i where sc: "select_scan ?ps (None, 0) 0 = (m, i)" by fastforce
  note sm = select_scan_min [OF inr sc]
  have "m \<noteq> None"
  proof
    assume "m = None"
    with sm have all: "\<forall>c \<in> set chs. Receiver_peek_ind fst c = Inr None" by auto
    from ne obtain c where c: "c \<in> set chs" "ch_deque c \<noteq> []" by blast
    with all tx peek_ind_Inr [of c] show False by (auto split: list.splits)
  qed
  then obtain sn where m: "m = Some sn" by blast
  with sm have least: "\<forall>x. Inr (Some x) \<in> set ?ps \<longrightarrow> sn \<le> x"
    and i: "i < length chs" "Receiver_peek_ind fst (chs ! i) = Inr (Some sn)"
    by auto
  have "ch_sender_count (chs ! i) \<noteq> 0" using i(1) tx by auto
  with i(2) obtain x xs where x: "ch_deque (chs ! i) = x # xs" "fst x = sn"
    by (auto simp: peek_ind_Inr split: list.splits)
  have "select_next chs = (Some (i, Inr x), chs[i := (chs ! i)\<lparr>ch_deque := xs\<rparr>])"
    using sc m x by (simp add: select_next_def Receiver_try_next_def)
  moreover have "fst x \<le> fst y" if "c \<in> set chs" "ch_deque c = y # ys" for c y ys
    using least tx that peek_ind_Inr [of c] x(2) by force
  ultimately show ?thesis using that i(1) x(1) by blast
qed

abbreviation pending :: "mq_item Mpsc_Channel list \<Rightarrow> mq_item list" where
  "pending chs \<equiv> concat (map ch_deque chs)"

lemma mset_pending_take:
  assumes "i < length chs" and "ch_deque (chs ! i) = x # xs"
  shows "mset (pending chs) = add_mset x (mset (pending (chs[i := (chs ! i)\<lparr>ch_deque := xs\<rparr>])))"
  using assms
proof (induction chs arbitrary: i)
  case (Cons c chs)
  then show ?case by (cases i) auto
qed simp

text \<open>
  The event loop delivers every pending item, in the order of the serial numbers, and nothing
  remains.
\<close>

lemma select_loop_sorted:
  assumes "\<forall>c \<in> set chs. ch_sender_count c \<noteq> 0 \<and> sorted (map fst (ch_deque c))"
    and "length (pending chs) \<le> n" and "select_loop n chs = (ms, chs')"
  shows "mset ms = mset (pending chs) \<and> sorted (map fst ms) \<and> pending chs' = []"
  using assms
proof (induction n arbitrary: chs ms)
  case 0
  then show ?case by auto
next
  case (Suc n)
  show ?case
  proof (cases "pending chs = []")
    case True
    then have "select_scan (map (Receiver_peek_ind fst) chs) (None, 0) 0 = (None, i) \<Longrightarrow> ?thesis" for i
      using Suc.prems(3) by (auto simp: select_next_def)
    moreover obtain m i where sc: "select_scan (map (Receiver_peek_ind fst) chs) (None, 0) 0 = (m, i)"
      by fastforce
    moreover have "m = None"
      using select_scan_min [OF _ sc] True Suc.prems(1)
      by (auto simp: peek_ind_Inr split: option.splits)
    ultimately show ?thesis by blast
  next
    case False
    then have ne: "\<exists>c \<in> set chs. ch_deque c \<noteq> []" by auto
    obtain i x xs where sel: "select_next chs = (Some (i, Inr x), chs[i := (chs ! i)\<lparr>ch_deque := xs\<rparr>])"
      and i: "i < length chs" "ch_deque (chs ! i) = x # xs"
      and least: "\<And>c y ys. c \<in> set chs \<Longrightarrow> ch_deque c = y # ys \<Longrightarrow> fst x \<le> fst y"
      using select_next_least [OF _ ne] Suc.prems(1) by metis
    let ?chs = "chs[i := (chs ! i)\<lparr>ch_deque := xs\<rparr>]"
    obtain ms' where ms: "select_loop n ?chs = (ms', chs')" "ms = x # ms'"
      using Suc.prems(3) sel by (auto split: prod.splits)
    have mem: "chs ! i \<in> set chs" using i(1) by simp
    have ok: "\<forall>c \<in> set ?chs. ch_sender_count c \<noteq> 0 \<and> sorted (map fst (ch_deque c))"
      using Suc.prems(1) mem i(2) by (auto dest!: set_update_subset_insert [THEN subsetD])
    note take = mset_pending_take [OF i]
    then have "length (pending chs) = Suc (length (pending ?chs))"
      by (metis size_add_mset size_mset)
    with Suc.IH [OF ok _ ms(1)] Suc.prems(2)
    have ih: "mset ms' = mset (pending ?chs)" "sorted (map fst ms')" "pending chs' = []" by auto
    have "fst x \<le> fst y" if y: "y \<in> set (pending chs)" for y
    proof -
      from y obtain c where c: "c \<in> set chs" "y \<in> set (ch_deque c)" by auto
      then obtain z zs where z: "ch_deque c = z # zs" by (cases "ch_deque c") auto
      have "fst z \<le> fst y" using c z Suc.prems(1) by force
      with least [OF c(1) z] show ?thesis by simp
    qed
    moreover have "set ms' \<subseteq> set (pending chs)"
      using ih(1) take by (metis insert_subset set_mset_add_mset_insert set_mset_mset subset_insertI)
    ultimately have "\<forall>y \<in> set ms'. fst x \<le> fst y" by blast
    then have "sorted (map fst ms)" using ms(2) ih(2) by simp
    with ih ms(2) take show ?thesis by simp
  qed
qed

section \<open>Properties\<close>

text \<open>
  C6: Dispatching a message hands it, exactly once and with the current serial number, to every
  subscriber of its topic that still has a receiver, at the end of the subscriber's queue, and no
  other queue changes; it returns the number of those subscribers; they are the ones that stay
  subscribed to the topic, in their order, and the subscribers of no other topic change.
\<close>

theorem dispatch_exactly_once:
  assumes "disp_reachable log (d, st)"
    and "MessageDispatcher_dispatch message (d, st) = (cnt, d', st')"
    and "path = Topic_path (msg_destination message)" and "rs = topic_subscribers d path"
  shows "cnt = length (filter (rx_live st) rs) \<and>
    (\<forall>j < length st. ch_deque (st' ! j) =
       (if j \<in> set rs \<and> rx_live st j then ch_deque (st ! j) @ [(md_local_index d, message)]
        else ch_deque (st ! j))) \<and>
    (\<forall>p. topic_subscribers d' p =
       (if p = path then filter (rx_live st) rs else topic_subscribers d p))"
proof -
  have "disp_wf (d, st)" using disp_reachable_inv [OF assms(1)] by (simp add: disp_inv_def)
  note sp = dispatch_spec [OF this assms(2)]
  have cnt: "cnt = length (filter (rx_live st) rs)" using sp(1) assms(3,4) by simp
  have "ch_deque (st' ! j) =
       (if j \<in> set rs \<and> rx_live st j then ch_deque (st ! j) @ [(md_local_index d, message)]
        else ch_deque (st ! j))" if "j < length st" for j
    using sp(4) [OF that] assms(3,4) by (simp add: Sender_drop_def)
  with cnt sp(7) assms(3,4) show ?thesis by simp
qed

text \<open>
  C7: Whatever a process did with its dispatcher before, running \<open>select!\<close> over the receivers of
  all subscriptions until nothing is pending handles exactly the pending messages and leaves every
  queue empty; and it handles them in dispatch order across topics: the handled messages are those
  at increasing positions of the log of dispatched messages, each tagged with its position.
\<close>

theorem select_replays_dispatch_order:
  assumes "disp_reachable log (d, st)" and "chs = map ((!) st) (subscribed d)"
    and "length (pending chs) \<le> n" and "select_loop n chs = (ms, chs')"
  shows "mset ms = mset (pending chs) \<and> pending chs' = [] \<and>
    (\<exists>ns. sorted ns \<and> (\<forall>i \<in> set ns. i < length log) \<and> ms = map (\<lambda>i. (of_nat i, log ! i)) ns)"
proof -
  from disp_reachable_log_inv [OF assms(1)] have inv: "log_inv log (d, st)" .
  have "\<forall>c \<in> set chs. ch_sender_count c \<noteq> 0 \<and> sorted (map fst (ch_deque c))"
    using inv by (auto simp: assms(2) log_inv_def disp_inv_def items_below_def strict_sorted_imp_sorted)
  note sl = select_loop_sorted [OF this assms(3,4)]
  have "\<forall>x \<in> set (pending chs). unat (fst x) < length log \<and> snd x = log ! unat (fst x)"
    using inv by (auto simp: assms(2) log_inv_def in_log_def)
  then have lg: "\<forall>x \<in> set ms. unat (fst x) < length log \<and> snd x = log ! unat (fst x)"
    using sl by (metis set_mset_mset)
  have "ms = map (\<lambda>i. (of_nat i, log ! i)) (map (\<lambda>x. unat (fst x)) ms)"
    using lg by (auto intro!: nth_equalityI prod_eqI)
  moreover have "sorted (map (\<lambda>x. unat (fst x)) ms)"
    using sl by (auto simp: sorted_iff_nth_mono word_le_nat_alt)
  ultimately show ?thesis using sl lg
    by (intro conjI exI [of _ "map (\<lambda>x. unat (fst x)) ms"]) auto
qed

text \<open>A dispatcher with subscribers on two topics, and a message on the second one.\<close>

definition ex_message :: "bytes \<Rightarrow> Message" where
  "ex_message t = Message_new Gatekeeper t [1]"

definition ex_disp :: "MessageDispatcher \<times> chan_store" where
  "ex_disp = (\<lparr>md_subscribers = [([97], [0]), ([98], [1])], md_local_index = 1\<rparr>,
     [Channel_new, push_item (0, ex_message [98]) Channel_new])"

lemma ex_disp_reachable: "disp_reachable [ex_message [98]] ex_disp"
proof -
  have "disp_reachable [] (\<lparr>md_subscribers = [([97], [0])], md_local_index = 0\<rparr>, [Channel_new])"
    by (rule disp_subscribe [OF disp_init, of "[97]"])
      (simp add: MessageDispatcher_subscribe_def MessageDispatcher_new_def)
  then have "disp_reachable []
    (\<lparr>md_subscribers = [([97], [0]), ([98], [1])], md_local_index = 0\<rparr>, [Channel_new, Channel_new])"
    by (rule disp_subscribe [where path = "[98]"])
      (simp add: MessageDispatcher_subscribe_def)
  then show ?thesis
    unfolding ex_disp_def
    by (rule disp_dispatch [where message = "ex_message [98]" and log = "[]", simplified])
      (simp_all add: MessageDispatcher_dispatch_def ex_message_def Message_new_def Sender_send_def
        Channel_new_def Let_def)
qed

theorem dispatch_exactly_once_witness:
  "\<exists>d' st'. MessageDispatcher_dispatch (ex_message [97]) ex_disp = (1, d', st') \<and>
     ch_deque (st' ! 0) = [(1, ex_message [97])] \<and> ch_deque (st' ! 1) = [(0, ex_message [98])]"
proof -
  obtain d st where s: "ex_disp = (d, st)" by fastforce
  obtain cnt d' st' where e: "MessageDispatcher_dispatch (ex_message [97]) (d, st) = (cnt, d', st')"
    by (metis prod_cases3)
  from dispatch_exactly_once [OF ex_disp_reachable [unfolded s] e refl refl]
  have "cnt = 1 \<and> ch_deque (st' ! 0) = [(1, ex_message [97])] \<and> ch_deque (st' ! 1) = [(0, ex_message [98])]"
    using s by (auto simp: ex_disp_def topic_subscribers_def ex_message_def Message_new_def Channel_new_def)
  with e s show ?thesis by auto
qed

theorem select_replays_dispatch_order_witness:
  "\<exists>chs'. select_loop 1 (snd ex_disp) = ([(0, ex_message [98])], chs') \<and> pending chs' = []"
proof -
  obtain d st where s: "ex_disp = (d, st)" by fastforce
  then have st: "map ((!) st) (subscribed d) = st" "pending st = [(0, ex_message [98])]"
    by (auto simp: ex_disp_def subscribed_def Channel_new_def)
  obtain ms chs' where e: "select_loop 1 st = (ms, chs')" by fastforce
  from select_replays_dispatch_order [OF ex_disp_reachable [unfolded s] refl, unfolded st, OF _ e] st
  have "ms = [(0, ex_message [98])]" "pending chs' = []" by simp_all
  with e s show ?thesis by (metis snd_conv)
qed

end
