(* ===== verification/Mq_Send_Queue.thy ===== *)
theory Mq_Send_Queue
  imports Mq_Types
begin

text \<open>
  The egress queue of \<open>crates/phala-mq/src/send_queue.rs\<close>: one channel per sender, holding the
  signed messages that are not yet accepted on chain and the next sequence number. The mutex is
  held for the whole body of each method, so a method is a function on the shared map.
\<close>

section \<open>Data and operations\<close>

record SendQueue_Channel =
  sq_sequence :: u64
  sq_messages :: "SignedMessage list"
  sq_dummy :: bool

type_synonym MessageSendQueue = "(MessageOrigin, SendQueue_Channel) btree_map"

definition SendQueue_Channel_default :: SendQueue_Channel where
  "SendQueue_Channel_default = \<lparr>sq_sequence = 0, sq_messages = [], sq_dummy = False\<rparr>"

definition MessageSendQueue_new :: MessageSendQueue where
  "MessageSendQueue_new = []"

text \<open>\<open>inner.entry(sender).or_default()\<close>.\<close>

definition sq_entry :: "MessageSendQueue \<Rightarrow> MessageOrigin \<Rightarrow> SendQueue_Channel" where
  "sq_entry q sender = unwrap_or (bt_get q sender) SendQueue_Channel_default"

definition MessageSendQueue_enqueue_message ::
  "MessageOrigin \<Rightarrow> (u64 \<Rightarrow> SignedMessage) \<Rightarrow> MessageSendQueue \<Rightarrow> MessageSendQueue" where
  "MessageSendQueue_enqueue_message sender constructor q =
     (let entry = sq_entry q sender;
          entry = (if \<not> sq_dummy entry
                   then entry\<lparr>sq_messages := sq_messages entry @ [constructor (sq_sequence entry)]\<rparr>
                   else entry)
      in bt_insert sender (entry\<lparr>sq_sequence := sq_sequence entry + 1\<rparr>) q)"

definition MessageSendQueue_set_dummy_mode ::
  "MessageOrigin \<Rightarrow> bool \<Rightarrow> MessageSendQueue \<Rightarrow> MessageSendQueue" where
  "MessageSendQueue_set_dummy_mode sender dummy q =
     bt_insert sender ((sq_entry q sender)\<lparr>sq_dummy := dummy\<rparr>) q"

definition MessageSendQueue_all_messages :: "MessageSendQueue \<Rightarrow> SignedMessage list" where
  "MessageSendQueue_all_messages q = concat (map (\<lambda>(_, v). sq_messages v) q)"

definition MessageSendQueue_all_messages_grouped ::
  "MessageSendQueue \<Rightarrow> (MessageOrigin, SignedMessage list) btree_map" where
  "MessageSendQueue_all_messages_grouped q = bt_map_values (\<lambda>_ v. sq_messages v) q"

definition MessageSendQueue_messages :: "MessageOrigin \<Rightarrow> MessageSendQueue \<Rightarrow> SignedMessage list" where
  "MessageSendQueue_messages sender q = unwrap_or (map_option sq_messages (bt_get q sender)) []"

definition MessageSendQueue_count_messages :: "MessageSendQueue \<Rightarrow> nat" where
  "MessageSendQueue_count_messages q = sum_list (map (\<lambda>(_, v). length (sq_messages v)) q)"

definition MessageSendQueue_purge :: "(MessageOrigin \<Rightarrow> u64) \<Rightarrow> MessageSendQueue \<Rightarrow> MessageSendQueue" where
  "MessageSendQueue_purge next_sequence_for q =
     bt_map_values (\<lambda>k v. v\<lparr>sq_messages :=
       filter (\<lambda>m. sm_sequence m \<ge> next_sequence_for k) (sq_messages v)\<rparr>) q"

definition MessageSendQueue_dump_state :: "MessageOrigin \<Rightarrow> MessageSendQueue \<Rightarrow> SendQueue_Channel option" where
  "MessageSendQueue_dump_state sender q = bt_get q sender"

definition MessageSendQueue_load_state ::
  "MessageOrigin \<Rightarrow> SendQueue_Channel \<Rightarrow> MessageSendQueue \<Rightarrow> MessageSendQueue" where
  "MessageSendQueue_load_state sender state q = bt_insert sender state q"

text \<open>
  A \<open>MessageChannel\<close> is a handle on the shared queue with its sender and signer; the queue is
  passed explicitly.
\<close>

record 'signer MessageChannel =
  mc_sender :: MessageOrigin
  mc_signer :: 'signer

definition MessageChannel_prepare_with_data ::
  "'signer MessageChannel \<Rightarrow> bytes \<Rightarrow> bytes \<Rightarrow> 'signer SigningMessage" where
  "MessageChannel_prepare_with_data ch payload to =
     \<lparr>sgm_message = \<lparr>msg_sender = mc_sender ch, msg_destination = Topic to, msg_payload = payload\<rparr>,
      sgm_signer = mc_signer ch\<rparr>"

definition MessageChannel_push_data ::
  "(Message \<times> u64 \<Rightarrow> bytes) \<Rightarrow> ('signer \<Rightarrow> bytes \<Rightarrow> bytes) \<Rightarrow> 'signer MessageChannel \<Rightarrow>
   bytes \<Rightarrow> bytes \<Rightarrow> MessageSendQueue \<Rightarrow> MessageSendQueue" where
  "MessageChannel_push_data enc sig_fn ch payload to q =
     (let signing = MessageChannel_prepare_with_data ch payload to
      in MessageSendQueue_enqueue_message (mc_sender ch)
           (\<lambda>sequence. SigningMessage_sign enc sig_fn signing sequence) q)"

definition MessageChannel_set_dummy ::
  "'signer MessageChannel \<Rightarrow> bool \<Rightarrow> MessageSendQueue \<Rightarrow> MessageSendQueue" where
  "MessageChannel_set_dummy ch dummy q = MessageSendQueue_set_dummy_mode (mc_sender ch) dummy q"

definition MessageChannel_set_signer :: "'signer \<Rightarrow> 'signer MessageChannel \<Rightarrow> 'signer MessageChannel" where
  "MessageChannel_set_signer signer ch = ch\<lparr>mc_signer := signer\<rparr>"

section \<open>Invariant\<close>

text \<open>
  The sequence numbers of the pending messages of a channel are strictly increasing and below
  the next number; every message names the sender whose channel holds it.
\<close>

definition channel_inv :: "MessageOrigin \<Rightarrow> SendQueue_Channel \<Rightarrow> bool" where
  "channel_inv k c \<longleftrightarrow>
     sorted_wrt (<) (map sm_sequence (sq_messages c)) \<and>
     (\<forall>m \<in> set (sq_messages c). sm_sequence m < sq_sequence c \<and> msg_sender (sm_message m) = k)"

definition queue_inv :: "MessageSendQueue \<Rightarrow> bool" where
  "queue_inv q \<longleftrightarrow> bt_wf q \<and> (\<forall>k c. bt_get q k = Some c \<longrightarrow> channel_inv k c)"

named_theorems sq_lemmas \<open>lookups after an operation of the send queue\<close>

lemma channel_inv_default [simp]: "channel_inv k SendQueue_Channel_default"
  by (simp add: channel_inv_def SendQueue_Channel_default_def)

lemma sq_entry_inv: "queue_inv q \<Longrightarrow> channel_inv k (sq_entry q k)"
  by (cases "bt_get q k") (auto simp: sq_entry_def queue_inv_def)

lemma queue_inv_insert: "queue_inv q \<Longrightarrow> channel_inv k c \<Longrightarrow> queue_inv (bt_insert k c q)"
  by (auto simp: queue_inv_def bt.get_ins bt.wf_ins)

lemma channel_inv_filter:
  "channel_inv k c \<Longrightarrow> channel_inv k (c\<lparr>sq_messages := filter P (sq_messages c)\<rparr>)"
  by (auto simp: channel_inv_def sorted_wrt_map sorted_wrt_filter)

lemma channel_inv_push:
  assumes "channel_inv k c" and "sq_sequence c \<noteq> - 1"
    and "sm_sequence m = sq_sequence c" and "msg_sender (sm_message m) = k"
  shows "channel_inv k (c\<lparr>sq_messages := sq_messages c @ [m], sq_sequence := sq_sequence c + 1\<rparr>)"
  using assms word_less_Suc [OF assms(2)]
  by (auto simp: channel_inv_def sorted_wrt_append dest: less_trans)

lemma channel_inv_skip:
  assumes "channel_inv k c" and "sq_sequence c \<noteq> - 1"
  shows "channel_inv k (c\<lparr>sq_sequence := sq_sequence c + 1\<rparr>)"
  using assms word_less_Suc [OF assms(2)] by (auto simp: channel_inv_def dest: less_trans)

lemma queue_inv_push_data:
  assumes "queue_inv q" and "sq_sequence (sq_entry q (mc_sender ch)) \<noteq> - 1"
  shows "queue_inv (MessageChannel_push_data enc sig_fn ch payload to q)"
  unfolding MessageChannel_push_data_def MessageSendQueue_enqueue_message_def Let_def
  by (intro queue_inv_insert [OF assms(1)])
    (use channel_inv_push [OF sq_entry_inv [OF assms(1)] assms(2)]
         channel_inv_skip [OF sq_entry_inv [OF assms(1)] assms(2)]
      in \<open>auto simp: MessageChannel_prepare_with_data_def\<close>)

lemma queue_inv_set_dummy: "queue_inv q \<Longrightarrow> queue_inv (MessageSendQueue_set_dummy_mode k d q)"
  unfolding MessageSendQueue_set_dummy_mode_def
  by (rule queue_inv_insert) (use sq_entry_inv in \<open>fastforce simp: channel_inv_def\<close>)+

lemma queue_inv_purge: "queue_inv q \<Longrightarrow> queue_inv (MessageSendQueue_purge f q)"
  unfolding MessageSendQueue_purge_def queue_inv_def
  by (auto intro: channel_inv_filter)

lemma queue_inv_load_state:
  "queue_inv q \<Longrightarrow> channel_inv k c \<Longrightarrow> queue_inv (MessageSendQueue_load_state k c q)"
  unfolding MessageSendQueue_load_state_def by (rule queue_inv_insert)

section \<open>What each operation does\<close>

lemma messages_bt_insert [sq_lemmas]:
  "MessageSendQueue_messages k (bt_insert s c q) =
     (if k = s then sq_messages c else MessageSendQueue_messages k q)"
  by (simp add: MessageSendQueue_messages_def bt_get_insert_at)

lemma entry_bt_insert [sq_lemmas]: "sq_entry (bt_insert s c q) k = (if k = s then c else sq_entry q k)"
  by (simp add: sq_entry_def bt_get_insert_at)

lemma messages_eq_entry: "MessageSendQueue_messages k q = sq_messages (sq_entry q k)"
  by (cases "bt_get q k") (auto simp: MessageSendQueue_messages_def sq_entry_def SendQueue_Channel_default_def)

lemma entry_push_data [sq_lemmas]:
  "sq_entry (MessageChannel_push_data enc sig_fn ch payload to q) k =
     (let c = sq_entry q (mc_sender ch) in
      if k \<noteq> mc_sender ch then sq_entry q k
      else c\<lparr>sq_sequence := sq_sequence c + 1,
             sq_messages := sq_messages c @
               (if sq_dummy c then [] else
                 [SigningMessage_sign enc sig_fn (MessageChannel_prepare_with_data ch payload to)
                    (sq_sequence c)])\<rparr>)"
  by (simp add: MessageChannel_push_data_def MessageSendQueue_enqueue_message_def entry_bt_insert Let_def)

lemma entry_purge [sq_lemmas]:
  "sq_entry (MessageSendQueue_purge f q) k =
     (sq_entry q k)\<lparr>sq_messages := filter (\<lambda>m. f k \<le> sm_sequence m) (sq_messages (sq_entry q k))\<rparr>"
  by (cases "bt_get q k") (auto simp: sq_entry_def MessageSendQueue_purge_def SendQueue_Channel_default_def)

lemma entry_set_dummy [sq_lemmas]:
  "sq_entry (MessageSendQueue_set_dummy_mode s d q) k =
     (if k = s then (sq_entry q s)\<lparr>sq_dummy := d\<rparr> else sq_entry q k)"
  by (simp add: MessageSendQueue_set_dummy_mode_def entry_bt_insert)

lemma entry_new [sq_lemmas]: "sq_entry MessageSendQueue_new k = SendQueue_Channel_default"
  by (simp add: sq_entry_def MessageSendQueue_new_def)

lemma all_messages_grouped_flatten:
  "concat (map snd (MessageSendQueue_all_messages_grouped q)) = MessageSendQueue_all_messages q"
  by (simp add: MessageSendQueue_all_messages_grouped_def MessageSendQueue_all_messages_def
      bt_map_values_def comp_def case_prod_unfold)

lemma count_all_messages:
  "MessageSendQueue_count_messages q = length (MessageSendQueue_all_messages q)"
  by (simp add: MessageSendQueue_count_messages_def MessageSendQueue_all_messages_def length_concat
      comp_def case_prod_unfold)

section \<open>Reachable queues\<close>

text \<open>
  Every queue a program can build from an empty one: messages pushed through channels (before
  a sequence number reaches the end of 64 bits), dummy mode switched, accepted messages purged,
  and a channel state handed over from another such queue.
\<close>

inductive sq_reachable ::
  "(Message \<times> u64 \<Rightarrow> bytes) \<Rightarrow> ('signer \<Rightarrow> bytes \<Rightarrow> bytes) \<Rightarrow> MessageSendQueue \<Rightarrow> bool"
  for enc sig_fn where
  sq_init: "sq_reachable enc sig_fn MessageSendQueue_new"
| sq_push: "sq_reachable enc sig_fn q \<Longrightarrow> sq_sequence (sq_entry q (mc_sender ch)) \<noteq> - 1 \<Longrightarrow>
    sq_reachable enc sig_fn (MessageChannel_push_data enc sig_fn ch payload to q)"
| sq_set_dummy: "sq_reachable enc sig_fn q \<Longrightarrow>
    sq_reachable enc sig_fn (MessageSendQueue_set_dummy_mode k d q)"
| sq_purge: "sq_reachable enc sig_fn q \<Longrightarrow> sq_reachable enc sig_fn (MessageSendQueue_purge f q)"
| sq_handover: "sq_reachable enc sig_fn q \<Longrightarrow> sq_reachable enc sig_fn q' \<Longrightarrow>
    MessageSendQueue_dump_state k q' = Some c \<Longrightarrow>
    sq_reachable enc sig_fn (MessageSendQueue_load_state k c q)"

lemma sq_reachable_inv: "sq_reachable enc sig_fn q \<Longrightarrow> queue_inv q"
proof (induction rule: sq_reachable.induct)
  case sq_init
  show ?case by (simp add: queue_inv_def MessageSendQueue_new_def)
next
  case (sq_handover q q' k c)
  then have "channel_inv k c" by (simp add: queue_inv_def MessageSendQueue_dump_state_def)
  with sq_handover show ?case by (blast intro: queue_inv_load_state)
qed (auto intro: queue_inv_push_data queue_inv_set_dummy queue_inv_purge)

section \<open>Contiguous sequence numbers\<close>

text \<open>
  A channel that is never in dummy mode holds an unbroken run of numbers ending just below the
  next one: nothing is skipped, so the chain, which accepts numbers one by one, can always
  make progress on it.
\<close>

definition contiguous :: "SendQueue_Channel \<Rightarrow> bool" where
  "contiguous c \<longleftrightarrow> length (sq_messages c) \<le> unat (sq_sequence c) \<and>
     map (\<lambda>m. unat (sm_sequence m)) (sq_messages c) =
       [unat (sq_sequence c) - length (sq_messages c) ..< unat (sq_sequence c)]"

lemma contiguous_push:
  assumes "contiguous c" and "sq_sequence c \<noteq> - 1" and "sm_sequence m = sq_sequence c"
  shows "contiguous (c\<lparr>sq_sequence := sq_sequence c + 1, sq_messages := sq_messages c @ [m]\<rparr>)"
proof -
  note s = unat_Suc_word [OF assms(2)]
  from assms(1) have "length (sq_messages c) \<le> unat (sq_sequence c)" by (simp add: contiguous_def)
  then show ?thesis using assms s by (auto simp: contiguous_def)
qed

lemma filter_ge_upt: "filter (\<lambda>i. s \<le> i) [a ..< b] = [max s a ..< b]"
  by (induction b) (auto simp: max_def)

lemma contiguous_filter:
  assumes "contiguous c"
  shows "contiguous (c\<lparr>sq_messages := filter (\<lambda>m. s \<le> sm_sequence m) (sq_messages c)\<rparr>)"
proof -
  let ?ms = "sq_messages c" and ?n = "unat (sq_sequence c)"
  let ?fs = "filter (\<lambda>m. s \<le> sm_sequence m) ?ms"
  from assms have c: "map (\<lambda>m. unat (sm_sequence m)) ?ms = [?n - length ?ms ..< ?n]"
    by (simp add: contiguous_def)
  have "map (\<lambda>m. unat (sm_sequence m)) ?fs
      = filter (\<lambda>i. unat s \<le> i) (map (\<lambda>m. unat (sm_sequence m)) ?ms)"
    by (simp add: filter_map comp_def word_le_nat_alt)
  also have "\<dots> = [max (unat s) (?n - length ?ms) ..< ?n]" by (simp add: c filter_ge_upt)
  finally have f: "map (\<lambda>m. unat (sm_sequence m)) ?fs = [max (unat s) (?n - length ?ms) ..< ?n]" .
  then have "length ?fs = ?n - max (unat s) (?n - length ?ms)"
    by (metis length_map length_upt)
  then have "[?n - length ?fs ..< ?n] = [max (unat s) (?n - length ?ms) ..< ?n]" "length ?fs \<le> ?n"
    by (cases "max (unat s) (?n - length ?ms) \<le> ?n"; simp)+
  with f show ?thesis by (simp add: contiguous_def)
qed

section \<open>Properties\<close>

text \<open>
  In every queue that pushes, purges, dummy-mode switches and hand-overs can build, the
  pending messages of a sender carry strictly increasing sequence numbers, all below the number
  the next message will get, and all are messages of that sender.
\<close>

theorem send_queue_sequenced:
  assumes "sq_reachable enc sig_fn q" and "c = sq_entry q k"
  shows "sorted_wrt (<) (map sm_sequence (MessageSendQueue_messages k q)) \<and>
    (\<forall>m \<in> set (MessageSendQueue_messages k q).
       sm_sequence m < sq_sequence c \<and> msg_sender (sm_message m) = k)"
  using sq_entry_inv [OF sq_reachable_inv [OF assms(1)], of k]
  by (simp add: assms(2) messages_eq_entry channel_inv_def)

definition ex_channel :: "unit MessageChannel" where
  "ex_channel = \<lparr>mc_sender = Worker 1, mc_signer = ()\<rparr>"

definition ex_sign :: "unit \<Rightarrow> bytes \<Rightarrow> bytes" where
  "ex_sign _ data = replicate 64 (hd data)"

definition ex_queue :: MessageSendQueue where
  "ex_queue = MessageChannel_push_data ex_enc ex_sign ex_channel [7] [98]
     (MessageChannel_push_data ex_enc ex_sign ex_channel [5] [97] MessageSendQueue_new)"

lemmas ex_queue_simps = ex_channel_def sq_lemmas SendQueue_Channel_default_def Let_def

lemma ex_queue_reachable: "sq_reachable ex_enc ex_sign ex_queue"
  unfolding ex_queue_def by (intro sq_push sq_init) (simp_all add: ex_queue_simps)

theorem send_queue_sequenced_witness:
  "map sm_sequence (MessageSendQueue_messages (Worker 1) ex_queue) = [0, 1] \<and>
   sorted_wrt (<) (map sm_sequence (MessageSendQueue_messages (Worker 1) ex_queue))"
proof -
  have "map sm_sequence (MessageSendQueue_messages (Worker 1) ex_queue) = [0, 1]"
    by (simp add: ex_queue_def messages_eq_entry ex_queue_simps)
  with send_queue_sequenced [OF ex_queue_reachable refl, of "Worker 1"] show ?thesis by blast
qed

text \<open>
  Purging with the chain's next expected sequence numbers drops exactly the messages the chain
  has already accepted: what remains is the messages at or above that number, in order, and the
  next sequence number and the dummy flag stay as they were. No pending message is lost.
\<close>

theorem purge_keeps_unaccepted:
  "MessageSendQueue_messages k (MessageSendQueue_purge f q) =
     filter (\<lambda>m. f k \<le> sm_sequence m) (MessageSendQueue_messages k q) \<and>
   sq_sequence (sq_entry (MessageSendQueue_purge f q) k) = sq_sequence (sq_entry q k) \<and>
   sq_dummy (sq_entry (MessageSendQueue_purge f q) k) = sq_dummy (sq_entry q k)"
  by (simp add: messages_eq_entry sq_lemmas)

end
