(* ===== verification/Pallet_Mq.thy ===== *)
theory Pallet_Mq
  imports Mq_Types
begin

text \<open>
  The on-chain message queue: the pallet \<open>pallets/phala/src/mq.rs\<close>, its transaction extension
  \<open>pallets/phala/src/mq/check_seq.rs\<close>, and the signature check of \<open>pallets/phala/src/registry.rs\<close>
  it calls. Storage items are fields of a record; an extrinsic is a function from the storage to
  an error or the new storage (a failed extrinsic leaves the storage as it was). An extrinsic may
  also panic, because a handler it notifies does; then too the storage stays as it was.

  Arguments of the model: \<open>enc\<close>, the SCALE encoder of a message with its sequence;
  \<open>verify\<close>, the host's \<open>sr25519_verify\<close>; \<open>nf\<close>, the handler \<open>on_message_received\<close> of the pallet's
  \<open>QueueNotifyConfig\<close>, which may change any storage, return an error, or panic (\<^term>\<open>None\<close>); \<open>enc_tag\<close>, the encoder of a pool tag.
\<close>

section \<open>Storage, origins, errors\<close>

record 'w chain_state =
  OffchainIngress :: "MessageOrigin \<Rightarrow> u64 option"
  QueuedOutboundMessage :: "Message list option"
  OutboundMessages :: "Message list"
  ClusterKeys :: "h256 \<Rightarrow> h256 option"
  ContractKeys :: "h256 \<Rightarrow> h256 option"
  GatekeeperMasterPubkey :: "h256 option"
  other_storage :: 'w

datatype Mq_Error = BadSender | BadSequence | BadDestination

datatype Registry_check_Error =
    UnknownCluster | UnknownContract | MasterKeyUninitialized | CannotHandleUnknownMessage
  | InvalidSignatureLength | InvalidSignature

datatype Mq_DispatchError =
    System_BadOrigin | Mq_err Mq_Error | Registry_err Registry_check_Error

datatype RawOrigin = Signed h256 | Root | Unsigned

fun ensure_signed :: "RawOrigin \<Rightarrow> Mq_DispatchError + h256" where
  "ensure_signed (Signed who) = Inr who"
| "ensure_signed _ = Inl System_BadOrigin"

fun ensure_root :: "RawOrigin \<Rightarrow> Mq_DispatchError + unit" where
  "ensure_root Root = Inr ()"
| "ensure_root _ = Inl System_BadOrigin"

type_synonym ('w, 'e) notify = "Message \<Rightarrow> 'w chain_state \<Rightarrow> (('e + unit) \<times> 'w chain_state) option"

text \<open>A call that can only return an error, inside an extrinsic that can also panic.\<close>

fun lift_fails :: "'e + 'a \<Rightarrow> 'e exn + 'a" where
  "lift_fails (Inl e) = Inl (Fails e)"
| "lift_fails (Inr x) = Inr x"

lemma lift_fails_eq [simp, res_simps]:
  "lift_fails m = Inr x \<longleftrightarrow> m = Inr x" "lift_fails m = Inl (Fails e) \<longleftrightarrow> m = Inl e"
  "lift_fails m \<noteq> Inl Panics"
  by (cases m; simp)+

section \<open>Checking a signed message\<close>

text \<open>A 64-byte slice always converts to a signature, so \<open>MalformedSignature\<close> cannot occur.\<close>

definition Registry_verify_signature ::
  "(Message \<times> u64 \<Rightarrow> bytes) \<Rightarrow> (bytes \<Rightarrow> bytes \<Rightarrow> h256 \<Rightarrow> bool) \<Rightarrow> h256 \<Rightarrow> SignedMessage \<Rightarrow>
   Mq_DispatchError + unit" where
  "Registry_verify_signature enc verify pubkey message =
     bind_res (ensure (length (sm_signature message) = 64) (Registry_err InvalidSignatureLength)) (\<lambda>_.
     (let data = wrap_content_to_sign (SignedMessage_data_be_signed enc message) MqMessage
      in ensure (verify (sm_signature message) data pubkey) (Registry_err InvalidSignature)))"

definition sender_pubkey :: "'w chain_state \<Rightarrow> MessageOrigin \<Rightarrow> Mq_DispatchError + h256" where
  "sender_pubkey s sender =
     (case sender of
        Worker pubkey \<Rightarrow> Inr pubkey
      | Cluster cid \<Rightarrow> ok_or (ClusterKeys s cid) (Registry_err UnknownCluster)
      | Contract cid \<Rightarrow> ok_or (ContractKeys s cid) (Registry_err UnknownContract)
      | Gatekeeper \<Rightarrow> ok_or (GatekeeperMasterPubkey s) (Registry_err MasterKeyUninitialized)
      | _ \<Rightarrow> Inl (Registry_err CannotHandleUnknownMessage))"

definition Registry_check_message ::
  "(Message \<times> u64 \<Rightarrow> bytes) \<Rightarrow> (bytes \<Rightarrow> bytes \<Rightarrow> h256 \<Rightarrow> bool) \<Rightarrow> 'w chain_state \<Rightarrow> SignedMessage \<Rightarrow>
   Mq_DispatchError + unit" where
  "Registry_check_message enc verify s message =
     bind_res (sender_pubkey s (msg_sender (sm_message message)))
       (\<lambda>pubkey. Registry_verify_signature enc verify pubkey message)"

section \<open>The pallet\<close>

text \<open>The default \<open>should_push_message\<close>, which the runtime's configuration keeps.\<close>

definition should_push_message :: "Message \<Rightarrow> bool" where
  "should_push_message m = Topic_is_offchain (msg_destination m)"

text \<open>
  An error of the handler is ignored and its changes to the storage stay; a panic of the handler
  is one of the caller.
\<close>

definition Mq_dispatch_message ::
  "('w, 'e) notify \<Rightarrow> Message \<Rightarrow> 'w chain_state \<Rightarrow> 'w chain_state option" where
  "Mq_dispatch_message nf message s =
     (case nf message s of
        None \<Rightarrow> None
      | Some (_, s) \<Rightarrow>
          Some (if should_push_message message
                then s\<lparr>OutboundMessages := OutboundMessages s @ [message]\<rparr> else s))"

definition Mq_push_message_to ::
  "('w, 'e) notify \<Rightarrow> bytes \<Rightarrow> MessageOrigin \<Rightarrow> bytes \<Rightarrow> 'w chain_state \<Rightarrow> 'w chain_state option" where
  "Mq_push_message_to nf topic sender encoded s =
     Mq_dispatch_message nf (Message_new sender topic encoded) s"

definition Mq_queue_bound_message ::
  "bytes \<Rightarrow> MessageOrigin \<Rightarrow> bytes \<Rightarrow> 'w chain_state \<Rightarrow> 'w chain_state" where
  "Mq_queue_bound_message topic sender encoded s =
     s\<lparr>QueuedOutboundMessage :=
         Some (unwrap_or (QueuedOutboundMessage s) [] @ [Message_new sender topic encoded])\<rparr>"

definition Mq_offchain_ingress :: "MessageOrigin \<Rightarrow> 'w chain_state \<Rightarrow> u64 option" where
  "Mq_offchain_ingress sender s = OffchainIngress s sender"

definition expected_seq :: "'w chain_state \<Rightarrow> MessageOrigin \<Rightarrow> u64" where
  "expected_seq s sender = unwrap_or (OffchainIngress s sender) 0"

definition Mq_sync_offchain_message ::
  "(Message \<times> u64 \<Rightarrow> bytes) \<Rightarrow> (bytes \<Rightarrow> bytes \<Rightarrow> h256 \<Rightarrow> bool) \<Rightarrow> ('w, 'e) notify \<Rightarrow>
   RawOrigin \<Rightarrow> SignedMessage \<Rightarrow> 'w chain_state \<Rightarrow> Mq_DispatchError exn + 'w chain_state" where
  "Mq_sync_offchain_message enc verify nf origin signed_message s =
     bind_res (lift_fails (ensure_signed origin)) (\<lambda>_.
     (let sender = msg_sender (sm_message signed_message) in
      bind_res (ensure (MessageOrigin_is_offchain sender) (Fails (Mq_err BadSender))) (\<lambda>_.
      bind_res (ensure (Topic_is_valid (msg_destination (sm_message signed_message)))
                  (Fails (Mq_err BadDestination))) (\<lambda>_.
      (let expected = expected_seq s sender in
       bind_res (ensure (sm_sequence signed_message = expected) (Fails (Mq_err BadSequence))) (\<lambda>_.
       bind_res (lift_fails (Registry_check_message enc verify s signed_message)) (\<lambda>_.
       ok_or (Mq_dispatch_message nf (sm_message signed_message)
                (s\<lparr>OffchainIngress := (OffchainIngress s)(sender \<mapsto> expected + 1)\<rparr>)) Panics)))))))"

definition Mq_push_message ::
  "('w, 'e) notify \<Rightarrow> RawOrigin \<Rightarrow> bytes \<Rightarrow> bytes \<Rightarrow> 'w chain_state \<Rightarrow>
   Mq_DispatchError exn + 'w chain_state" where
  "Mq_push_message nf origin destination payload s =
     bind_res (lift_fails (ensure_signed origin)) (\<lambda>who.
       ok_or (Mq_dispatch_message nf (Message_new (AccountId who) destination payload) s) Panics)"

text \<open>The bytes of \<^verbatim>\<open>ForcePushed\<close>.\<close>

definition ForcePushed :: bytes where
  "ForcePushed = [70, 111, 114, 99, 101, 80, 117, 115, 104, 101, 100]"

definition Mq_force_push_pallet_message ::
  "('w, 'e) notify \<Rightarrow> RawOrigin \<Rightarrow> bytes \<Rightarrow> bytes \<Rightarrow> 'w chain_state \<Rightarrow>
   Mq_DispatchError exn + 'w chain_state" where
  "Mq_force_push_pallet_message nf origin destination payload s =
     bind_res (lift_fails (ensure_root origin)) (\<lambda>_.
       ok_or (Mq_dispatch_message nf (Message_new (Pallet ForcePushed) destination payload) s) Panics)"

text \<open>The loop of \<open>on_initialize\<close>.\<close>

fun Mq_dispatch_all :: "('w, 'e) notify \<Rightarrow> Message list \<Rightarrow> 'w chain_state \<Rightarrow> 'w chain_state option" where
  "Mq_dispatch_all nf [] s = Some s"
| "Mq_dispatch_all nf (m # ms) s =
     (case Mq_dispatch_message nf m s of None \<Rightarrow> None | Some s \<Rightarrow> Mq_dispatch_all nf ms s)"

definition Mq_on_initialize :: "('w, 'e) notify \<Rightarrow> 'w chain_state \<Rightarrow> 'w chain_state option" where
  "Mq_on_initialize nf s =
     (let s = s\<lparr>OutboundMessages := []\<rparr>
      in case QueuedOutboundMessage s of
           None \<Rightarrow> Some s
         | Some msgs \<Rightarrow> Mq_dispatch_all nf msgs (s\<lparr>QueuedOutboundMessage := None\<rparr>))"

text \<open>The trait \<open>MessageOriginInfo\<close>: a pallet sends under its own name.\<close>

definition MessageOriginInfo_push_message_to ::
  "('w, 'e) notify \<Rightarrow> bytes \<Rightarrow> bytes \<Rightarrow> bytes \<Rightarrow> 'w chain_state \<Rightarrow> 'w chain_state option" where
  "MessageOriginInfo_push_message_to nf name topic encoded s =
     Mq_push_message_to nf topic (Pallet name) encoded s"

definition MessageOriginInfo_queue_message ::
  "bytes \<Rightarrow> bytes \<Rightarrow> bytes \<Rightarrow> 'w chain_state \<Rightarrow> 'w chain_state" where
  "MessageOriginInfo_queue_message name topic encoded s = Mq_queue_bound_message topic (Pallet name) encoded s"

datatype Mq_Call =
    sync_offchain_message SignedMessage
  | push_message bytes bytes
  | force_push_pallet_message bytes bytes

fun Mq_dispatch_call ::
  "(Message \<times> u64 \<Rightarrow> bytes) \<Rightarrow> (bytes \<Rightarrow> bytes \<Rightarrow> h256 \<Rightarrow> bool) \<Rightarrow> ('w, 'e) notify \<Rightarrow>
   RawOrigin \<Rightarrow> Mq_Call \<Rightarrow> 'w chain_state \<Rightarrow> Mq_DispatchError exn + 'w chain_state" where
  "Mq_dispatch_call enc verify nf origin (sync_offchain_message m) s =
     Mq_sync_offchain_message enc verify nf origin m s"
| "Mq_dispatch_call enc verify nf origin (push_message d p) s = Mq_push_message nf origin d p s"
| "Mq_dispatch_call enc verify nf origin (force_push_pallet_message d p) s =
     Mq_force_push_pallet_message nf origin d p s"

section \<open>The transaction extension\<close>

datatype InvalidTransaction = Stale | Future

record ValidTransaction =
  vt_requires :: "bytes list"
  vt_provides :: "bytes list"

definition ValidTransaction_default :: ValidTransaction where
  "ValidTransaction_default = \<lparr>vt_requires = [], vt_provides = []\<rparr>"

text \<open>\<open>tag\<close> encodes a constant string, the sender and the sequence.\<close>

definition check_seq_tag :: "(MessageOrigin \<times> u64 \<Rightarrow> bytes) \<Rightarrow> MessageOrigin \<Rightarrow> u64 \<Rightarrow> bytes" where
  "check_seq_tag enc_tag sender seq = enc_tag (sender, seq)"

text \<open>The call is what \<open>CallMatcher::match_call\<close> returns.\<close>

definition CheckMqSequence_pre_dispatch ::
  "'w chain_state \<Rightarrow> Mq_Call option \<Rightarrow> InvalidTransaction + unit" where
  "CheckMqSequence_pre_dispatch s call =
     (case call of
        Some (sync_offchain_message signed_message) \<Rightarrow>
          (let sender = msg_sender (sm_message signed_message);
               sequence = sm_sequence signed_message;
               expected = expected_seq s sender
           in if sequence \<noteq> expected
              then Inl (if sequence < expected then Stale else Future) else Inr ())
      | _ \<Rightarrow> Inr ())"

definition CheckMqSequence_validate ::
  "(MessageOrigin \<times> u64 \<Rightarrow> bytes) \<Rightarrow> 'w chain_state \<Rightarrow> Mq_Call option \<Rightarrow>
   InvalidTransaction + ValidTransaction" where
  "CheckMqSequence_validate enc_tag s call =
     (case call of
        Some (sync_offchain_message signed_message) \<Rightarrow>
          (let sender = msg_sender (sm_message signed_message);
               sequence = sm_sequence signed_message;
               expected = expected_seq s sender
           in if sequence < expected then Inl Stale
              else Inr (ValidTransaction_default
                \<lparr>vt_provides := [check_seq_tag enc_tag sender sequence],
                 vt_requires := (if sequence > expected
                                 then [check_seq_tag enc_tag sender (sequence - 1)] else [])\<rparr>))
      | _ \<Rightarrow> Inr ValidTransaction_default)"

section \<open>What a handler must not touch\<close>

text \<open>
  \<open>OffchainIngress\<close> is private to this pallet: no handler writes it. Under that condition on
  \<open>nf\<close> the pallet's own operations are the only writers of the ingress numbers.
\<close>

definition keeps_ingress :: "('w, 'e) notify \<Rightarrow> bool" where
  "keeps_ingress nf \<longleftrightarrow>
     (\<forall>m s r s'. nf m s = Some (r, s') \<longrightarrow> OffchainIngress s' = OffchainIngress s)"

lemma ingress_dispatch_message:
  "keeps_ingress nf \<Longrightarrow> Mq_dispatch_message nf m s = Some s' \<Longrightarrow> OffchainIngress s' = OffchainIngress s"
  by (auto simp: Mq_dispatch_message_def keeps_ingress_def split: option.splits)

lemma ingress_dispatch_all:
  "keeps_ingress nf \<Longrightarrow> Mq_dispatch_all nf ms s = Some s' \<Longrightarrow> OffchainIngress s' = OffchainIngress s"
proof (induction ms arbitrary: s)
  case (Cons m ms)
  then show ?case by (auto simp: ingress_dispatch_message split: option.splits)
qed simp

lemma ingress_on_initialize:
  "keeps_ingress nf \<Longrightarrow> Mq_on_initialize nf s = Some s' \<Longrightarrow> OffchainIngress s' = OffchainIngress s"
  by (auto simp: Mq_on_initialize_def Let_def dest: ingress_dispatch_all split: option.splits)

text \<open>Exactly when a synchronisation is accepted, and the storage it leaves.\<close>

lemma sync_offchain_message_Inr:
  "Mq_sync_offchain_message enc verify nf origin m s = Inr s' \<longleftrightarrow>
     (\<exists>who. origin = Signed who) \<and>
     MessageOrigin_is_offchain (msg_sender (sm_message m)) \<and>
     Topic_is_valid (msg_destination (sm_message m)) \<and>
     sm_sequence m = expected_seq s (msg_sender (sm_message m)) \<and>
     Registry_check_message enc verify s m = Inr () \<and>
     Mq_dispatch_message nf (sm_message m)
       (s\<lparr>OffchainIngress := (OffchainIngress s)(msg_sender (sm_message m) \<mapsto> sm_sequence m + 1)\<rparr>) =
       Some s'"
  by (cases origin) (auto simp: Mq_sync_offchain_message_def Let_def)

lemma expected_seq_sync:
  assumes "keeps_ingress nf" and "Mq_sync_offchain_message enc verify nf origin m s = Inr s'"
  shows "expected_seq s' k =
    (if k = msg_sender (sm_message m) then sm_sequence m + 1 else expected_seq s k)"
  using assms by (auto simp: sync_offchain_message_Inr expected_seq_def dest!: ingress_dispatch_message)

lemma sync_accept_iff_seq_fields:
  assumes "origin = Signed who" and "MessageOrigin_is_offchain (msg_sender (sm_message m))"
    and "Topic_is_valid (msg_destination (sm_message m))"
    and "sm_sequence m \<noteq> expected_seq s (msg_sender (sm_message m))"
  shows "Mq_sync_offchain_message enc verify nf origin m s = Inl (Fails (Mq_err BadSequence))"
  using assms by (simp add: Mq_sync_offchain_message_def Let_def)

section \<open>Histories of the pallet\<close>

text \<open>
  A history is any sequence of extrinsics of this pallet by any origin, block starts, and changes
  made by the rest of the chain. \<open>mq_run\<close> also returns the signed messages that were accepted.
\<close>

datatype 'w mq_event =
    Ev_call RawOrigin Mq_Call
  | Ev_block
  | Ev_env "'w chain_state \<Rightarrow> 'w chain_state"

fun mq_event_step ::
  "(Message \<times> u64 \<Rightarrow> bytes) \<Rightarrow> (bytes \<Rightarrow> bytes \<Rightarrow> h256 \<Rightarrow> bool) \<Rightarrow> ('w, 'e) notify \<Rightarrow>
   'w mq_event \<Rightarrow> 'w chain_state \<Rightarrow> SignedMessage list \<times> 'w chain_state" where
  "mq_event_step enc verify nf (Ev_call origin call) s =
     (case Mq_dispatch_call enc verify nf origin call s of
        Inl _ \<Rightarrow> ([], s)
      | Inr s' \<Rightarrow> (case call of sync_offchain_message m \<Rightarrow> ([m], s') | _ \<Rightarrow> ([], s')))"
| "mq_event_step enc verify nf Ev_block s =
     (case Mq_on_initialize nf s of None \<Rightarrow> ([], s) | Some s' \<Rightarrow> ([], s'))"
| "mq_event_step enc verify nf (Ev_env f) s = ([], f s)"

fun mq_run ::
  "(Message \<times> u64 \<Rightarrow> bytes) \<Rightarrow> (bytes \<Rightarrow> bytes \<Rightarrow> h256 \<Rightarrow> bool) \<Rightarrow> ('w, 'e) notify \<Rightarrow>
   'w mq_event list \<Rightarrow> 'w chain_state \<Rightarrow> SignedMessage list \<times> 'w chain_state" where
  "mq_run enc verify nf [] s = ([], s)"
| "mq_run enc verify nf (e # es) s =
     (case mq_event_step enc verify nf e s of (a, s') \<Rightarrow>
        case mq_run enc verify nf es s' of (as, s'') \<Rightarrow> (a @ as, s''))"

definition env_keeps_ingress :: "'w mq_event list \<Rightarrow> bool" where
  "env_keeps_ingress es \<longleftrightarrow> (\<forall>f. Ev_env f \<in> set es \<longrightarrow> (\<forall>s. OffchainIngress (f s) = OffchainIngress s))"

definition accepted_of :: "MessageOrigin \<Rightarrow> SignedMessage list \<Rightarrow> SignedMessage list" where
  "accepted_of k ms = filter (\<lambda>m. msg_sender (sm_message m) = k) ms"

lemma mq_event_step_seq:
  assumes "keeps_ingress nf" and "env_keeps_ingress [e]" and "mq_event_step enc verify nf e s = (a, s')"
  shows "a = [] \<and> expected_seq s' k = expected_seq s k \<or>
    (\<exists>m. a = [m] \<and> sm_sequence m = expected_seq s (msg_sender (sm_message m)) \<and>
       expected_seq s' k =
         (if k = msg_sender (sm_message m) then expected_seq s k + 1 else expected_seq s k))"
proof (cases e)
  case (Ev_call origin call)
  show ?thesis
  proof (cases call)
    case (sync_offchain_message m)
    with Ev_call assms show ?thesis
      by (auto split: sum.splits simp: expected_seq_sync dest: expected_seq_sync [OF assms(1)])
        (auto simp: sync_offchain_message_Inr)
  qed (use assms Ev_call in \<open>auto split: sum.splits simp: Mq_push_message_def
        Mq_force_push_pallet_message_def expected_seq_def dest: ingress_dispatch_message\<close>)
next
  case Ev_block
  with assms show ?thesis
    by (auto simp: expected_seq_def dest: ingress_on_initialize split: option.splits)
next
  case (Ev_env f)
  with assms show ?thesis by (auto simp: env_keeps_ingress_def expected_seq_def)
qed

lemma mq_run_seq:
  assumes "keeps_ingress nf" and "env_keeps_ingress es" and "mq_run enc verify nf es s = (as, s')"
  shows "map sm_sequence (accepted_of k as) =
      map (\<lambda>i. expected_seq s k + of_nat i) [0 ..< length (accepted_of k as)] \<and>
    expected_seq s' k = expected_seq s k + of_nat (length (accepted_of k as))"
  using assms(2,3)
proof (induction es arbitrary: s as)
  case Nil
  then show ?case by (simp add: accepted_of_def)
next
  case (Cons e es)
  obtain a s1 as1 where st: "mq_event_step enc verify nf e s = (a, s1)"
    and run: "mq_run enc verify nf es s1 = (as1, s')" and as: "as = a @ as1"
    using Cons.prems(2) by (auto split: prod.splits)
  have env: "env_keeps_ingress [e]" "env_keeps_ingress es"
    using Cons.prems(1) by (auto simp: env_keeps_ingress_def)
  note ih = Cons.IH [OF env(2) run]
  have shift: "map (\<lambda>i. w + 1 + of_nat i) [0 ..< n] = map (\<lambda>i. w + of_nat i) [Suc 0 ..< Suc n]"
    for w :: u64 and n
    by (simp add: map_Suc_upt [symmetric] comp_def add.assoc del: upt_Suc)
  from mq_event_step_seq [OF assms(1) env(1) st, of k] show ?case
  proof (elim disjE exE conjE)
    assume "a = []" and "expected_seq s1 k = expected_seq s k"
    with ih as show ?thesis by (simp add: accepted_of_def)
  next
    fix m assume a: "a = [m]" and m: "sm_sequence m = expected_seq s (msg_sender (sm_message m))"
      and s1: "expected_seq s1 k =
        (if k = msg_sender (sm_message m) then expected_seq s k + 1 else expected_seq s k)"
    show ?thesis
    proof (cases "msg_sender (sm_message m) = k")
      case True
      then have "accepted_of k as = m # accepted_of k as1" by (simp add: accepted_of_def as a)
      moreover have "[0 ..< Suc n] = 0 # [Suc 0 ..< Suc n]" for n by (simp add: upt_conv_Cons)
      ultimately show ?thesis using ih s1 m True shift [of "expected_seq s k"]
        by (simp del: upt_Suc add: algebra_simps)
    next
      case False
      then have "accepted_of k as = accepted_of k as1" by (simp add: accepted_of_def as a)
      with ih s1 False show ?thesis by auto
    qed
  qed
qed

section \<open>Authenticity and the outbound queue\<close>

lemma check_message_Inr:
  "Registry_check_message enc verify s m = Inr () \<longleftrightarrow>
     (\<exists>key. sender_pubkey s (msg_sender (sm_message m)) = Inr key \<and>
        length (sm_signature m) = 64 \<and>
        verify (sm_signature m) (SignedMessage_data_be_signed enc m) key)"
  by (auto simp: Registry_check_message_def Registry_verify_signature_def Let_def)

section \<open>Properties\<close>

text \<open>
  C8: Whatever extrinsics are submitted, by whom and in whatever order, and whatever the rest of
  the chain does, the messages accepted from one sender carry consecutive sequence numbers
  starting at the number the chain expected, and the chain then expects the next one: no message
  is accepted twice, skipped or reordered. Hypotheses: only this pallet writes its private ingress map.
\<close>

theorem mq_accepts_each_once_in_order:
  assumes "keeps_ingress nf" and "env_keeps_ingress es" and "mq_run enc verify nf es s = (as, s')"
  shows "map sm_sequence (accepted_of k as) =
      map (\<lambda>i. expected_seq s k + of_nat i) [0 ..< length (accepted_of k as)] \<and>
    expected_seq s' k = expected_seq s k + of_nat (length (accepted_of k as))"
  using assms by (rule mq_run_seq)

text \<open>
  C9: The transaction extension agrees with the pallet: a message with the wrong sequence that
  passes the static checks is refused by the pallet exactly when the extension refuses it before
  dispatch, and a stale one is refused from the pool already. The pool tags chain the messages
  of a sender: a message above the expected number requires the tag its predecessor provides.
\<close>

theorem check_seq_consistent:
  assumes "MessageOrigin_is_offchain (msg_sender (sm_message m))"
    and "Topic_is_valid (msg_destination (sm_message m))"
    and "sender = msg_sender (sm_message m)"
  shows "(CheckMqSequence_pre_dispatch s (Some (sync_offchain_message m)) = Inr () \<longleftrightarrow>
        Mq_sync_offchain_message enc verify nf (Signed who) m s \<noteq> Inl (Fails (Mq_err BadSequence))) \<and>
    (CheckMqSequence_validate enc_tag s (Some (sync_offchain_message m)) = Inl Stale \<longleftrightarrow>
        CheckMqSequence_pre_dispatch s (Some (sync_offchain_message m)) = Inl Stale) \<and>
    (CheckMqSequence_pre_dispatch s (Some (sync_offchain_message m)) = Inl Future \<longrightarrow>
       CheckMqSequence_validate enc_tag s (Some (sync_offchain_message m)) =
         Inr \<lparr>vt_requires = [check_seq_tag enc_tag sender (sm_sequence m - 1)],
              vt_provides = [check_seq_tag enc_tag sender (sm_sequence m)]\<rparr>) \<and>
    (CheckMqSequence_pre_dispatch s (Some (sync_offchain_message m)) = Inr () \<longrightarrow>
       CheckMqSequence_validate enc_tag s (Some (sync_offchain_message m)) =
         Inr \<lparr>vt_requires = [], vt_provides = [check_seq_tag enc_tag sender (sm_sequence m)]\<rparr>)"
proof -
  have "Registry_check_message enc verify s m \<noteq> Inl (Mq_err BadSequence)"
    by (auto simp: Registry_check_message_def Registry_verify_signature_def sender_pubkey_def Let_def
        res_simps split: MessageOrigin.splits)
  then have "Mq_sync_offchain_message enc verify nf (Signed who) m s \<noteq> Inl (Fails (Mq_err BadSequence)) \<longleftrightarrow>
      sm_sequence m = expected_seq s sender"
    using assms by (auto simp: Mq_sync_offchain_message_def Let_def res_simps)
  then show ?thesis
    using assms(3) by (auto simp: CheckMqSequence_pre_dispatch_def CheckMqSequence_validate_def
        ValidTransaction_default_def Let_def)
qed

section \<open>Witnesses\<close>

definition ex_nf :: "(nat, unit) notify" where
  "ex_nf m s = Some (Inl (), s\<lparr>other_storage := other_storage s + 1\<rparr>)"

definition ex_chain :: "nat chain_state" where
  "ex_chain = \<lparr>OffchainIngress = [Worker 1 \<mapsto> 4], QueuedOutboundMessage = Some [Message_new Gatekeeper [97] [1],
      Message_new Gatekeeper [94, 97] [2]], OutboundMessages = [],
     ClusterKeys = Map.empty, ContractKeys = Map.empty, GatekeeperMasterPubkey = None, other_storage = 0\<rparr>"

definition ex_verify :: "bytes \<Rightarrow> bytes \<Rightarrow> h256 \<Rightarrow> bool" where
  "ex_verify sg data key = (sg = replicate 64 (hd data))"

definition ex_signed :: "u64 \<Rightarrow> SignedMessage" where
  "ex_signed n = \<lparr>sm_message = Message_new (Worker 1) [97] [9], sm_sequence = n,
     sm_signature = replicate 64 2\<rparr>"

lemma ex_nf_keeps: "keeps_ingress ex_nf"
  by (auto simp: keeps_ingress_def ex_nf_def)

lemmas ex_mq_simps =
  ex_chain_def ex_signed_def ex_verify_def ex_enc_def Message_new_def Mq_sync_offchain_message_def
  expected_seq_def Topic_is_valid_def RESERVED_BYTES_def Registry_check_message_def sender_pubkey_def
  Registry_verify_signature_def SignedMessage_data_be_signed_def MessageToBeSigned_raw_data_def
  should_push_message_def Topic_is_offchain_def Mq_dispatch_message_def ex_nf_def Let_def

lemma ex_run:
  "map sm_sequence (fst (mq_run ex_enc ex_verify ex_nf
     [Ev_call (Signed 8) (sync_offchain_message (ex_signed 4)),
      Ev_call (Signed 8) (sync_offchain_message (ex_signed 4)),
      Ev_call (Signed 8) (sync_offchain_message (ex_signed 5))] ex_chain)) = [4, 5]"
  by (simp add: ex_mq_simps)

theorem mq_accepts_each_once_in_order_witness:
  "expected_seq (snd (mq_run ex_enc ex_verify ex_nf
     [Ev_call (Signed 8) (sync_offchain_message (ex_signed 4)),
      Ev_call (Signed 8) (sync_offchain_message (ex_signed 4)),
      Ev_call (Signed 8) (sync_offchain_message (ex_signed 5))] ex_chain)) (Worker 1) = 6"
  (is "expected_seq (snd (mq_run _ _ _ ?es _)) _ = 6")
proof -
  obtain as s' where r: "mq_run ex_enc ex_verify ex_nf ?es ex_chain = (as, s')" by fastforce
  have env: "env_keeps_ingress ?es" by (simp add: env_keeps_ingress_def)
  have "map sm_sequence as = [4, 5]" using ex_run r by simp
  then have "length as = 2" by (metis length_map length_Cons list.size(3) numeral_2_eq_2)
  moreover have "accepted_of (Worker 1) as = as"
    using r by (auto simp: accepted_of_def ex_mq_simps)
  moreover have "expected_seq ex_chain (Worker 1) = 4" by (simp add: expected_seq_def ex_chain_def)
  ultimately show ?thesis
    using mq_accepts_each_once_in_order [OF ex_nf_keeps env r, of "Worker 1"] r by simp
qed

theorem check_seq_consistent_witness:
  "CheckMqSequence_pre_dispatch ex_chain (Some (sync_offchain_message (ex_signed 4))) = Inr () \<and>
   Mq_sync_offchain_message ex_enc ex_verify ex_nf (Signed 8) (ex_signed 4) ex_chain \<noteq> Inl (Fails (Mq_err BadSequence))"
proof -
  have pre: "CheckMqSequence_pre_dispatch ex_chain (Some (sync_offchain_message (ex_signed 4))) = Inr ()"
    by (simp add: CheckMqSequence_pre_dispatch_def ex_signed_def ex_chain_def expected_seq_def Message_new_def)
  have "MessageOrigin_is_offchain (msg_sender (sm_message (ex_signed 4)))"
    and "Topic_is_valid (msg_destination (sm_message (ex_signed 4)))"
    by (simp_all add: ex_signed_def Message_new_def Topic_is_valid_def RESERVED_BYTES_def)
  from check_seq_consistent [OF this refl] pre show ?thesis by blast
qed

end
