(* ===== verification/Mq_Relay.thy ===== *)
theory Mq_Relay
  imports Mq_Send_Queue Pallet_Mq
begin

text \<open>
  The path of a message from a worker to the chain: the send queue of the worker
  (\<open>crates/phala-mq/src/send_queue.rs\<close>), an untrusted relayer, and the ingress of the message
  queue pallet (\<open>pallets/phala/src/mq.rs\<close>). The relayer may submit anything in any order,
  any number of times; the worker purges with the numbers it reads from the chain
  (\<open>purge_mq\<close> of \<open>crates/phactory/src/lib.rs\<close>).
\<close>

section \<open>The relay system\<close>

text \<open>The messages a worker has sent are numbered by their position.\<close>

definition sent_message :: "'signer MessageChannel \<Rightarrow> (bytes \<times> bytes) list \<Rightarrow> nat \<Rightarrow> Message" where
  "sent_message ch sent i =
     sgm_message (MessageChannel_prepare_with_data ch (fst (sent ! i)) (snd (sent ! i)))"

definition sent_signed ::
  "(Message \<times> u64 \<Rightarrow> bytes) \<Rightarrow> ('signer \<Rightarrow> bytes \<Rightarrow> bytes) \<Rightarrow> 'signer MessageChannel \<Rightarrow>
   (bytes \<times> bytes) list \<Rightarrow> nat \<Rightarrow> SignedMessage" where
  "sent_signed enc sig_fn ch sent i =
     SigningMessage_sign enc sig_fn
       (MessageChannel_prepare_with_data ch (fst (sent ! i)) (snd (sent ! i))) (of_nat i)"

text \<open>
  What unforgeability of the signature scheme gives for a submission \<open>m\<close>: if it verifies under the
  key the chain holds for its sender, and that sender is the worker, then the worker has signed
  these bytes.
\<close>

definition unforged ::
  "(Message \<times> u64 \<Rightarrow> bytes) \<Rightarrow> (bytes \<Rightarrow> bytes \<Rightarrow> h256 \<Rightarrow> bool) \<Rightarrow> 'signer MessageChannel \<Rightarrow>
   (bytes \<times> bytes) list \<Rightarrow> 'w chain_state \<Rightarrow> 'w mq_event \<Rightarrow> bool" where
  "unforged enc verify ch sent s e \<longleftrightarrow>
     (\<forall>origin m key. e = Ev_call origin (sync_offchain_message m) \<longrightarrow>
        msg_sender (sm_message m) = mc_sender ch \<longrightarrow>
        sender_pubkey s (mc_sender ch) = Inr key \<longrightarrow>
        verify (sm_signature m) (SignedMessage_data_be_signed enc m) key \<longrightarrow>
        (\<exists>i < length sent. SignedMessage_data_be_signed enc m =
            MessageToBeSigned_raw_data enc (sent_message ch sent i) (of_nat i)))"

inductive relay_reachable ::
  "(Message \<times> u64 \<Rightarrow> bytes) \<Rightarrow> ('signer \<Rightarrow> bytes \<Rightarrow> bytes) \<Rightarrow> (bytes \<Rightarrow> bytes \<Rightarrow> h256 \<Rightarrow> bool) \<Rightarrow>
   ('w, 'e) notify \<Rightarrow> 'signer MessageChannel \<Rightarrow>
   (bytes \<times> bytes) list \<Rightarrow> MessageSendQueue \<Rightarrow> 'w chain_state \<Rightarrow> SignedMessage list \<Rightarrow> bool"
  for enc sig_fn verify nf ch where
  relay_init: "expected_seq s (mc_sender ch) = 0 \<Longrightarrow>
    relay_reachable enc sig_fn verify nf ch [] MessageSendQueue_new s []"
| relay_push: "relay_reachable enc sig_fn verify nf ch sent q s acc \<Longrightarrow>
    sq_sequence (sq_entry q (mc_sender ch)) \<noteq> - 1 \<Longrightarrow>
    relay_reachable enc sig_fn verify nf ch (sent @ [(payload, to)])
      (MessageChannel_push_data enc sig_fn ch payload to q) s acc"
| relay_purge: "relay_reachable enc sig_fn verify nf ch sent q s acc \<Longrightarrow>
    relay_reachable enc sig_fn verify nf ch sent (MessageSendQueue_purge (expected_seq s) q) s acc"
| relay_chain: "relay_reachable enc sig_fn verify nf ch sent q s acc \<Longrightarrow>
    env_keeps_ingress [e] \<Longrightarrow> unforged enc verify ch sent s e \<Longrightarrow>
    mq_event_step enc verify nf e s = (a, s') \<Longrightarrow>
    relay_reachable enc sig_fn verify nf ch sent q s' (acc @ accepted_of (mc_sender ch) a)"

section \<open>Invariant\<close>

definition relay_inv ::
  "(Message \<times> u64 \<Rightarrow> bytes) \<Rightarrow> ('signer \<Rightarrow> bytes \<Rightarrow> bytes) \<Rightarrow> 'signer MessageChannel \<Rightarrow>
   (bytes \<times> bytes) list \<Rightarrow> MessageSendQueue \<Rightarrow> 'w chain_state \<Rightarrow> SignedMessage list \<Rightarrow> bool" where
  "relay_inv enc sig_fn ch sent q s acc \<longleftrightarrow>
     length sent < 2 ^ 64 \<and> length acc \<le> length sent \<and>
     (\<exists>a \<le> length acc. sq_entry q (mc_sender ch) =
        \<lparr>sq_sequence = of_nat (length sent),
         sq_messages = map (sent_signed enc sig_fn ch sent) [a ..< length sent], sq_dummy = False\<rparr>) \<and>
     expected_seq s (mc_sender ch) = of_nat (length acc) \<and>
     map (\<lambda>m. (sm_message m, sm_sequence m)) acc =
       map (\<lambda>i. (sent_message ch sent i, of_nat i)) [0 ..< length acc]"

lemma sent_signed_fields [simp]:
  "sm_message (sent_signed enc sig_fn ch sent i) = sent_message ch sent i"
  "sm_sequence (sent_signed enc sig_fn ch sent i) = of_nat i"
  "msg_sender (sent_message ch sent i) = mc_sender ch"
  by (simp_all add: sent_signed_def sent_message_def MessageChannel_prepare_with_data_def)

lemma sent_append [simp]:
  "i < length sent \<Longrightarrow> sent_signed enc sig_fn ch (sent @ [x]) i = sent_signed enc sig_fn ch sent i"
  "i < length sent \<Longrightarrow> sent_message ch (sent @ [x]) i = sent_message ch sent i"
  by (simp_all add: sent_signed_def sent_message_def nth_append)

lemma of_nat_le_u64: "i < 2 ^ 64 \<Longrightarrow> j < 2 ^ 64 \<Longrightarrow> (of_nat i \<le> (of_nat j :: u64)) = (i \<le> j)"
  by (simp add: word_le_nat_alt unat_of_nat_word)

lemma relay_inv_push:
  assumes "relay_inv enc sig_fn ch sent q s acc" and "sq_sequence (sq_entry q (mc_sender ch)) \<noteq> - 1"
  shows "relay_inv enc sig_fn ch (sent @ [(payload, to)])
    (MessageChannel_push_data enc sig_fn ch payload to q) s acc"
proof -
  let ?n = "length sent"
  from assms(1) obtain a where a: "a \<le> length acc" "?n < 2 ^ 64" "length acc \<le> ?n"
    and q: "sq_entry q (mc_sender ch) = \<lparr>sq_sequence = of_nat ?n,
      sq_messages = map (sent_signed enc sig_fn ch sent) [a ..< ?n], sq_dummy = False\<rparr>"
    by (auto simp: relay_inv_def)
  have "(of_nat ?n :: u64) \<noteq> - 1" using assms(2) q by simp
  with a have "Suc ?n < 2 ^ 64"
    using unat_Suc_word [of "of_nat ?n :: u64"] unat_less_word [of "of_nat ?n + 1 :: u64"]
    by (simp add: unat_of_nat_word)
  moreover have "sent_signed enc sig_fn ch (sent @ [(payload, to)]) ?n =
      SigningMessage_sign enc sig_fn (MessageChannel_prepare_with_data ch payload to) (of_nat ?n)"
    by (simp add: sent_signed_def)
  ultimately have n: "Suc ?n < 2 ^ 64" and e: "sq_entry (MessageChannel_push_data enc sig_fn ch payload to q) (mc_sender ch) =
      \<lparr>sq_sequence = of_nat (length (sent @ [(payload, to)])),
       sq_messages = map (sent_signed enc sig_fn ch (sent @ [(payload, to)]))
         [a ..< length (sent @ [(payload, to)])], sq_dummy = False\<rparr>"
    using a by (simp_all add: entry_push_data q)
  have "map (\<lambda>i. (sent_message ch (sent @ [(payload, to)]) i, of_nat i :: u64)) [0 ..< length acc] =
      map (\<lambda>i. (sent_message ch sent i, of_nat i)) [0 ..< length acc]"
    using a by (intro map_cong) auto
  moreover have "expected_seq s (mc_sender ch) = of_nat (length acc)"
    and "map (\<lambda>m. (sm_message m, sm_sequence m)) acc =
      map (\<lambda>i. (sent_message ch sent i, of_nat i)) [0 ..< length acc]"
    using assms(1) by (simp_all add: relay_inv_def)
  ultimately show ?thesis
    unfolding relay_inv_def e using n a by (intro conjI exI [of _ a]) (simp_all del: upt_Suc)
qed

lemma relay_inv_purge:
  assumes "relay_inv enc sig_fn ch sent q s acc"
  shows "relay_inv enc sig_fn ch sent (MessageSendQueue_purge (expected_seq s) q) s acc"
proof -
  let ?n = "length sent"
  from assms obtain a where a: "a \<le> length acc" "?n < 2 ^ 64" "length acc \<le> ?n"
    and q: "sq_entry q (mc_sender ch) = \<lparr>sq_sequence = of_nat ?n,
      sq_messages = map (sent_signed enc sig_fn ch sent) [a ..< ?n], sq_dummy = False\<rparr>"
    and e: "expected_seq s (mc_sender ch) = of_nat (length acc)"
    by (auto simp: relay_inv_def)
  have "filter (\<lambda>i. (of_nat (length acc) :: u64) \<le> of_nat i) [a ..< ?n] = filter ((\<le>) (length acc)) [a ..< ?n]"
    using a by (intro filter_cong) (auto simp: of_nat_le_u64)
  then have "sq_messages (sq_entry (MessageSendQueue_purge (expected_seq s) q) (mc_sender ch)) =
      map (sent_signed enc sig_fn ch sent) [length acc ..< ?n]"
    using a by (simp add: entry_purge q e filter_map comp_def filter_ge_upt max_def)
  then show ?thesis using assms q by (auto simp: relay_inv_def entry_purge intro!: exI [of _ "length acc"])
qed

lemma relay_accepted_sent:
  assumes inv: "relay_inv enc sig_fn ch sent q s acc" and inj: "inj enc"
    and un: "unforged enc verify ch sent s e" and st: "mq_event_step enc verify nf e s = ([m], s')"
    and snd: "msg_sender (sm_message m) = mc_sender ch"
    and sq: "sm_sequence m = of_nat (length acc)"
  shows "length acc < length sent \<and> sm_message m = sent_message ch sent (length acc)"
proof -
  obtain origin where e: "e = Ev_call origin (sync_offchain_message m)"
    and acc: "Mq_sync_offchain_message enc verify nf origin m s = Inr s'"
    using st by (cases e) (auto split: sum.splits Mq_Call.splits option.splits)
  from acc obtain key where "sender_pubkey s (mc_sender ch) = Inr key"
    and "verify (sm_signature m) (SignedMessage_data_be_signed enc m) key"
    by (auto simp: sync_offchain_message_Inr check_message_Inr snd)
  with un e snd obtain i where i: "i < length sent"
    and "SignedMessage_data_be_signed enc m =
      MessageToBeSigned_raw_data enc (sent_message ch sent i) (of_nat i)"
    unfolding unforged_def by blast
  then have m: "sm_message m = sent_message ch sent i" and "sm_sequence m = of_nat i"
    using inj by (auto simp: SignedMessage_data_be_signed_def MessageToBeSigned_raw_data_def dest: injD)
  then have "(of_nat i :: u64) = of_nat (length acc)" using sq by simp
  moreover have "i < 2 ^ 64" "length acc < 2 ^ 64" using inv i by (auto simp: relay_inv_def)
  ultimately have "i = length acc" using of_nat_le_u64 by (metis order_antisym order_refl)
  with i m show ?thesis by simp
qed

lemma relay_inv_chain:
  assumes inv: "relay_inv enc sig_fn ch sent q s acc" and nf: "keeps_ingress nf" and inj: "inj enc"
    and env: "env_keeps_ingress [e]" and un: "unforged enc verify ch sent s e"
    and st: "mq_event_step enc verify nf e s = (a, s')"
  shows "relay_inv enc sig_fn ch sent q s' (acc @ accepted_of (mc_sender ch) a)"
proof -
  let ?k = "mc_sender ch"
  have ex: "expected_seq s ?k = of_nat (length acc)" using inv by (simp add: relay_inv_def)
  from mq_event_step_seq [OF nf env st, of ?k] show ?thesis
  proof (elim disjE exE conjE)
    assume "a = []" and "expected_seq s' ?k = expected_seq s ?k"
    with inv show ?thesis by (simp add: relay_inv_def accepted_of_def)
  next
    fix m assume a: "a = [m]" and m: "sm_sequence m = expected_seq s (msg_sender (sm_message m))"
      and s': "expected_seq s' ?k =
        (if ?k = msg_sender (sm_message m) then expected_seq s ?k + 1 else expected_seq s ?k)"
    show ?thesis
    proof (cases "msg_sender (sm_message m) = ?k")
      case True
      with m ex have "sm_sequence m = of_nat (length acc)" by simp
      note new = relay_accepted_sent [OF inv inj un st [unfolded a] True this] this
      from inv obtain b where "b \<le> Suc (length acc)" "sq_entry q ?k =
          \<lparr>sq_sequence = of_nat (length sent),
           sq_messages = map (sent_signed enc sig_fn ch sent) [b ..< length sent], sq_dummy = False\<rparr>"
        unfolding relay_inv_def by (meson le_SucI)
      with inv new True s' ex a show ?thesis by (auto simp: relay_inv_def accepted_of_def)
    next
      case False
      with inv s' a show ?thesis by (auto simp: relay_inv_def accepted_of_def)
    qed
  qed
qed

lemma relay_reachable_inv:
  assumes "relay_reachable enc sig_fn verify nf ch sent q s acc" and "keeps_ingress nf" and "inj enc"
  shows "relay_inv enc sig_fn ch sent q s acc"
  using assms(1)
proof (induction rule: relay_reachable.induct)
  case (relay_init s)
  then show ?case by (simp add: relay_inv_def sq_lemmas SendQueue_Channel_default_def)
qed (use assms(2,3) in \<open>auto intro: relay_inv_push relay_inv_purge relay_inv_chain\<close>)

section \<open>Submitting what is pending\<close>

text \<open>The history of a relayer that submits the given messages one after the other.\<close>

definition submit_all :: "h256 \<Rightarrow> SignedMessage list \<Rightarrow> 'w mq_event list" where
  "submit_all who ms = map (\<lambda>m. Ev_call (Signed who) (sync_offchain_message m)) ms"

text \<open>Messages that do not carry the expected number are refused and change nothing.\<close>

lemma submit_all_refused:
  assumes "\<forall>m \<in> set ms. msg_sender (sm_message m) = k \<and> sm_sequence m \<noteq> expected_seq s k"
  shows "mq_run enc verify nf (submit_all who ms) s = ([], s)"
  using assms
proof (induction ms)
  case (Cons m ms)
  then obtain e where "Mq_sync_offchain_message enc verify nf (Signed who) m s = Inl e"
    by (cases "Mq_sync_offchain_message enc verify nf (Signed who) m s") (auto simp: sync_offchain_message_Inr)
  with Cons show ?case by (simp add: submit_all_def)
qed (simp add: submit_all_def)

lemma seqs_tl:
  fixes w :: u64
  assumes "map sm_sequence (m # ms) = map (\<lambda>i. w + of_nat i) [0 ..< length (m # ms)]"
  shows "sm_sequence m = w" "map sm_sequence ms = map (\<lambda>i. w + 1 + of_nat i) [0 ..< length ms]"
  using assms by (simp_all del: upt_Suc add: upt_conv_Cons map_Suc_upt [symmetric] comp_def add.assoc)

text \<open>
  Signed messages of a worker with consecutive numbers are accepted one after the other, up to the
  first that has an invalid topic or whose handler panics; everything after that one is refused.
\<close>

lemma submit_all_prefix:
  assumes nf: "keeps_ingress nf" and "length ms < 2 ^ 64"
    and "\<forall>m \<in> set ms. msg_sender (sm_message m) = Worker key \<and> length (sm_signature m) = 64 \<and>
      verify (sm_signature m) (SignedMessage_data_be_signed enc m) key"
    and "map sm_sequence ms = map (\<lambda>i. expected_seq s (Worker key) + of_nat i) [0 ..< length ms]"
    and "mq_run enc verify nf (submit_all who ms) s = (as, s')"
  shows "\<exists>n \<le> length ms. as = take n ms \<and>
    (n < length ms \<longrightarrow> Mq_sync_offchain_message enc verify nf (Signed who) (ms ! n) s' =
       Inl (if Topic_is_valid (msg_destination (sm_message (ms ! n))) then Panics
            else Fails (Mq_err BadDestination)))"
  using assms(2-)
proof (induction ms arbitrary: s as)
  case Nil
  then show ?case by (simp add: submit_all_def)
next
  case (Cons m ms)
  let ?k = "Worker key"
  note sq = seqs_tl [OF Cons.prems(3)]
  have m: "msg_sender (sm_message m) = ?k" "length (sm_signature m) = 64"
    "verify (sm_signature m) (SignedMessage_data_be_signed enc m) key"
    using Cons.prems(2) by auto
  show ?case
  proof (cases "Mq_sync_offchain_message enc verify nf (Signed who) m s")
    case (Inr s1)
    obtain as1 where run: "mq_run enc verify nf (submit_all who ms) s1 = (as1, s')" and as: "as = m # as1"
      using Cons.prems(4) Inr by (auto simp: submit_all_def split: prod.splits)
    have "expected_seq s1 ?k = expected_seq s ?k + 1"
      using expected_seq_sync [OF nf Inr, of ?k] m(1) sq(1) by simp
    then obtain n where "n \<le> length ms" "as1 = take n ms"
      "n < length ms \<longrightarrow> Mq_sync_offchain_message enc verify nf (Signed who) (ms ! n) s' =
       Inl (if Topic_is_valid (msg_destination (sm_message (ms ! n))) then Panics
            else Fails (Mq_err BadDestination))"
      using Cons.IH [OF _ _ _ run] Cons.prems(1,2) sq(2) by auto
    then show ?thesis using as by (intro exI [of _ "Suc n"]) auto
  next
    case (Inl e)
    have "sm_sequence x \<noteq> expected_seq s ?k" if x: "x \<in> set ms" for x
    proof -
      obtain i where i: "i < length ms" "x = ms ! i" using x by (auto simp: in_set_conv_nth)
      then have "sm_sequence x = expected_seq s ?k + of_nat (Suc i)"
        using arg_cong [OF sq(2), of "\<lambda>l. l ! i"] by (simp add: add.assoc)
      moreover have "(of_nat (Suc i) :: u64) \<noteq> of_nat 0"
        by (subst of_nat_eq_word) (use i Cons.prems(1) in simp_all)
      ultimately show ?thesis by simp
    qed
    then have "mq_run enc verify nf (submit_all who ms) s = ([], s)"
      using Cons.prems(2) by (intro submit_all_refused [where k = ?k]) auto
    then have "as = []" "s' = s" using Cons.prems(4) Inl by (auto simp: submit_all_def)
    moreover have "Registry_check_message enc verify s m = Inr ()"
      using m by (simp add: check_message_Inr sender_pubkey_def)
    then have "e = (if Topic_is_valid (msg_destination (sm_message m)) then Panics
        else Fails (Mq_err BadDestination))"
      using Inl m sq(1) by (auto simp: Mq_sync_offchain_message_def Let_def res_simps split: if_splits)
    ultimately show ?thesis using Inl by (intro exI [of _ 0]) auto
  qed
qed

lemma relay_pending:
  assumes "relay_inv enc sig_fn ch sent q s acc"
  shows "filter (\<lambda>m. expected_seq s (mc_sender ch) \<le> sm_sequence m) (MessageSendQueue_messages (mc_sender ch) q)
    = map (sent_signed enc sig_fn ch sent) [length acc ..< length sent]"
proof -
  have bound: "length sent < 2 ^ 64" "length acc \<le> length sent"
    and e: "expected_seq s (mc_sender ch) = of_nat (length acc)"
    using assms by (auto simp: relay_inv_def)
  obtain b where b: "b \<le> length acc" and q: "sq_messages (sq_entry q (mc_sender ch)) =
      map (sent_signed enc sig_fn ch sent) [b ..< length sent]"
    using assms by (auto simp: relay_inv_def)
  have "filter (\<lambda>i. (of_nat (length acc) :: u64) \<le> of_nat i) [b ..< length sent] =
      filter ((\<le>) (length acc)) [b ..< length sent]"
    using bound by (intro filter_cong) (auto simp: of_nat_le_u64)
  then show ?thesis using b
    by (simp add: messages_eq_entry q e filter_map comp_def filter_ge_upt max_def)
qed

lemma sent_messages_map:
  "map (sent_message ch sent) [0 ..< length sent] =
     map (\<lambda>(payload, to). \<lparr>msg_sender = mc_sender ch, msg_destination = Topic to, msg_payload = payload\<rparr>) sent"
  by (rule nth_equalityI)
    (auto simp: sent_message_def MessageChannel_prepare_with_data_def split: prod.split)

section \<open>Properties\<close>

text \<open>
  C1: Exactly-once in-order delivery end to end. Whatever an untrusted relayer and the rest of the
  chain do, the messages the chain has accepted from a worker, followed by those that still wait
  in the worker's queue at or above the chain's number, are exactly the messages the worker
  pushed, in the order it pushed them: nothing is lost, duplicated, reordered or altered, and
  purging loses nothing. Hypotheses: encoding is injective, only the pallet writes its ingress map,
  and (in the steps of \<open>relay_reachable\<close>) the worker's signature cannot be forged.
\<close>

theorem relay_exactly_once:
  assumes "relay_reachable enc sig_fn verify nf ch sent q s acc"
    and "keeps_ingress nf" and "inj enc"
  shows "map sm_message acc @ map sm_message
      (filter (\<lambda>m. expected_seq s (mc_sender ch) \<le> sm_sequence m) (MessageSendQueue_messages (mc_sender ch) q))
    = map (\<lambda>(payload, to). \<lparr>msg_sender = mc_sender ch, msg_destination = Topic to, msg_payload = payload\<rparr>) sent"
proof -
  note inv = relay_reachable_inv [OF assms]
  then have "map fst (map (\<lambda>m. (sm_message m, sm_sequence m)) acc) =
      map fst (map (\<lambda>i. (sent_message ch sent i, of_nat i :: u64)) [0 ..< length acc])"
    and le: "length acc \<le> length sent"
    by (simp_all add: relay_inv_def)
  then have "map sm_message acc = map (sent_message ch sent) [0 ..< length acc]" by (simp add: comp_def)
  moreover have "[0 ..< length sent] = [0 ..< length acc] @ [length acc ..< length sent]"
    using le by (metis le_add_diff_inverse upt_add_eq_append zero_le)
  ultimately show ?thesis
    by (simp add: relay_pending [OF inv] comp_def sent_messages_map [symmetric])
qed

text \<open>
  C3: Progress of the relay. In every reachable state a relayer that submits, in queue order, the
  waiting messages of a worker that the chain has not accepted yet gets them accepted up to the
  first one that has an invalid topic or whose handler panics on the chain; the chain's number has
  advanced by exactly the accepted ones, and that message, resubmitted, is refused by
  \<open>BadDestination\<close> or panics again. If there is no such message, all are accepted, the chain's
  number equals the worker's next number, and purging empties the queue. Hypotheses: encoding is
  injective, no handler writes the ingress map, and the signatures the worker makes are 64 bytes
  long and verify under the public key that is its identity.
\<close>

theorem relay_progress:
  assumes "relay_reachable enc sig_fn verify nf ch sent q s acc"
    and "keeps_ingress nf" and "inj enc" and "mc_sender ch = Worker key"
    and sigs: "\<forall>data. length (sig_fn (mc_signer ch) data) = 64 \<and> verify (sig_fn (mc_signer ch) data) data key"
    and pend: "pend = filter (\<lambda>m. expected_seq s (Worker key) \<le> sm_sequence m)
      (MessageSendQueue_messages (Worker key) q)"
    and run: "mq_run enc verify nf (submit_all who pend) s = (as, s')"
  shows "\<exists>n \<le> length pend. as = take n pend \<and>
    expected_seq s' (Worker key) = expected_seq s (Worker key) + of_nat n \<and>
    (n < length pend \<longrightarrow> Mq_sync_offchain_message enc verify nf (Signed who) (pend ! n) s' =
       Inl (if Topic_is_valid (msg_destination (sm_message (pend ! n))) then Panics
            else Fails (Mq_err BadDestination))) \<and>
    (n = length pend \<longrightarrow> expected_seq s' (Worker key) = sq_sequence (sq_entry q (Worker key)) \<and>
       MessageSendQueue_messages (Worker key) (MessageSendQueue_purge (expected_seq s') q) = [])"
proof -
  let ?k = "Worker key"
  note inv = relay_reachable_inv [OF assms(1-3)]
  then have e: "expected_seq s ?k = of_nat (length acc)" and le: "length acc \<le> length sent"
    and sq: "sq_sequence (sq_entry q ?k) = of_nat (length sent)" and lt: "length sent < 2 ^ 64"
    by (auto simp: relay_inv_def assms(4))
  have p: "pend = map (sent_signed enc sig_fn ch sent) [length acc ..< length sent]"
    using relay_pending [OF inv] pend by (simp add: assms(4))
  have ok: "\<forall>m \<in> set pend. msg_sender (sm_message m) = ?k \<and>
      length (sm_signature m) = 64 \<and> verify (sm_signature m) (SignedMessage_data_be_signed enc m) key"
    using sigs by (auto simp: p sent_signed_def sent_message_def sign_data_be_signed
        MessageChannel_prepare_with_data_def assms(4))
  have seqs: "map sm_sequence pend = map (\<lambda>i. expected_seq s ?k + of_nat i) [0 ..< length pend]"
    by (rule nth_equalityI) (simp_all add: p e)
  have "length pend < 2 ^ 64" using lt by (simp add: p)
  from submit_all_prefix [OF assms(2) this ok seqs run] obtain n where n: "n \<le> length pend"
    and as: "as = take n pend"
    and stop: "n < length pend \<longrightarrow> Mq_sync_offchain_message enc verify nf (Signed who) (pend ! n) s' =
       Inl (if Topic_is_valid (msg_destination (sm_message (pend ! n))) then Panics
            else Fails (Mq_err BadDestination))" by blast
  have "env_keeps_ingress (submit_all who pend :: 'b mq_event list)"
    by (auto simp: env_keeps_ingress_def submit_all_def)
  moreover have "accepted_of ?k as = as"
    using ok by (auto simp: accepted_of_def as intro!: filter_True dest: in_set_takeD)
  ultimately have s': "expected_seq s' ?k = expected_seq s ?k + of_nat n"
    using mq_run_seq [OF assms(2) _ run, of ?k] n by (simp add: as)
  moreover have "expected_seq s' ?k = of_nat (length sent)" if "n = length pend"
    using that le s' by (simp add: p e flip: of_nat_add)
  moreover obtain b where "sq_messages (sq_entry q ?k) = map (sent_signed enc sig_fn ch sent) [b ..< length sent]"
    using inv by (auto simp: relay_inv_def assms(4))
  then have "MessageSendQueue_messages ?k (MessageSendQueue_purge (expected_seq s') q) = []"
    if "expected_seq s' ?k = of_nat (length sent)"
    using lt that by (auto simp: messages_eq_entry entry_purge filter_empty_conv of_nat_le_u64 simp flip: not_le)
  ultimately show ?thesis using n as stop sq by (intro exI [of _ n]) auto
qed

section \<open>Witnesses\<close>

text \<open>
  A concrete injective encoder: numbers in unary with an end mark, byte strings with their length.
\<close>

definition nat_code :: "nat \<Rightarrow> bytes" where
  "nat_code n = replicate n 1 @ [0]"

definition bytes_code :: "bytes \<Rightarrow> bytes" where
  "bytes_code bs = nat_code (length bs) @ bs"

definition ex_inj_enc :: "Message \<times> u64 \<Rightarrow> bytes" where
  "ex_inj_enc = (\<lambda>(m, sq). case origin_key (msg_sender m) of (i, bs, h) \<Rightarrow>
     nat_code i @ bytes_code bs @ nat_code (unat h) @ bytes_code (Topic_path (msg_destination m)) @
     bytes_code (msg_payload m) @ nat_code (unat sq))"

lemma nat_code_append: "nat_code n @ xs = nat_code m @ ys \<longleftrightarrow> n = m \<and> xs = ys"
proof (induction n arbitrary: m)
  case 0
  show ?case by (cases m) (auto simp: nat_code_def)
next
  case (Suc n)
  then show ?case by (cases m) (auto simp: nat_code_def)
qed

lemma bytes_code_append: "bytes_code bs @ xs = bytes_code cs @ ys \<longleftrightarrow> bs = cs \<and> xs = ys"
  by (auto simp: bytes_code_def nat_code_append)

lemma ex_inj_enc_inj: "inj ex_inj_enc"
proof (rule injI)
  fix x y assume eq: "ex_inj_enc x = ex_inj_enc y"
  obtain m a n b where xy: "x = (m, a)" "y = (n, b)" by fastforce
  have last: "nat_code (unat a) = nat_code (unat b) \<longleftrightarrow> a = b"
    using nat_code_append [of "unat a" "[]" "unat b" "[]"] by (simp add: word_unat_eq_iff)
  have u: "unat h = unat h' \<longleftrightarrow> h = h'" for h h' :: h256 by (simp add: word_unat_eq_iff)
  have "origin_key (msg_sender m) = origin_key (msg_sender n)" and "Topic_path (msg_destination m) = Topic_path (msg_destination n)"
    and "msg_payload m = msg_payload n" and "a = b"
    using eq unfolding ex_inj_enc_def xy
    by (auto simp: nat_code_append bytes_code_append last u simp del: origin_key_inject split: prod.splits)
  then show "x = y" using xy by (auto simp: Topic.expand intro: Message.equality)
qed

definition ex_chain0 :: "nat chain_state" where
  "ex_chain0 = ex_chain\<lparr>OffchainIngress := Map.empty\<rparr>"

definition ex_sent :: "(bytes \<times> bytes) list" where
  "ex_sent = [([5], [97]), ([7], [98])]"

definition ex_relay_queue :: MessageSendQueue where
  "ex_relay_queue = MessageChannel_push_data ex_inj_enc ex_sign ex_channel [7] [98]
     (MessageChannel_push_data ex_inj_enc ex_sign ex_channel [5] [97] MessageSendQueue_new)"

lemma ex_relay_reachable:
  "relay_reachable ex_inj_enc ex_sign ex_verify ex_nf ex_channel ex_sent ex_relay_queue ex_chain0 []"
proof -
  have "relay_reachable ex_inj_enc ex_sign ex_verify ex_nf ex_channel (([] @ [([5], [97])]) @ [([7], [98])])
      ex_relay_queue ex_chain0 []"
    unfolding ex_relay_queue_def
    by (intro relay_push relay_init) (simp_all add: ex_queue_simps ex_chain0_def expected_seq_def)
  then show ?thesis by (simp add: ex_sent_def)
qed

text \<open>
  A handler that panics on a payload 7: of the two waiting messages the first is accepted.
\<close>

definition ex_panicking_nf :: "(nat, unit) notify" where
  "ex_panicking_nf m s = (if msg_payload m = [7] then None else ex_nf m s)"

lemma ex_panicking_nf_keeps: "keeps_ingress ex_panicking_nf"
  using ex_nf_keeps by (auto simp: keeps_ingress_def ex_panicking_nf_def)

lemma ex_panicking_reachable:
  "relay_reachable ex_inj_enc ex_sign ex_verify ex_panicking_nf ex_channel ex_sent ex_relay_queue ex_chain0 []"
proof -
  have "relay_reachable ex_inj_enc ex_sign ex_verify ex_panicking_nf ex_channel
      (([] @ [([5], [97])]) @ [([7], [98])]) ex_relay_queue ex_chain0 []"
    unfolding ex_relay_queue_def
    by (intro relay_push relay_init) (simp_all add: ex_queue_simps ex_chain0_def expected_seq_def)
  then show ?thesis by (simp add: ex_sent_def)
qed

theorem relay_progress_witness:
  "\<exists>pend as s' n. length pend = 2 \<and>
     mq_run ex_inj_enc ex_verify ex_panicking_nf (submit_all 8 pend) ex_chain0 = (as, s') \<and>
     as = take n pend \<and> n \<le> 2 \<and> expected_seq s' (Worker 1) = of_nat n"
proof -
  define pend where "pend = filter (\<lambda>m. expected_seq ex_chain0 (Worker 1) \<le> sm_sequence m)
      (MessageSendQueue_messages (Worker 1) ex_relay_queue)"
  obtain as s' where run: "mq_run ex_inj_enc ex_verify ex_panicking_nf (submit_all 8 pend) ex_chain0 = (as, s')"
    by fastforce
  have "mc_sender ex_channel = Worker 1" by (simp add: ex_channel_def)
  moreover have "\<forall>data. length (ex_sign (mc_signer ex_channel) data) = 64 \<and>
      ex_verify (ex_sign (mc_signer ex_channel) data) data 1"
    by (simp add: ex_channel_def ex_sign_def ex_verify_def)
  ultimately obtain n where "n \<le> length pend" "as = take n pend"
      "expected_seq s' (Worker 1) = expected_seq ex_chain0 (Worker 1) + of_nat n"
    using relay_progress [OF ex_panicking_reachable ex_panicking_nf_keeps ex_inj_enc_inj _ _ pend_def run]
    by blast
  moreover have "length pend = 2"
    by (simp add: pend_def ex_relay_queue_def messages_eq_entry ex_queue_simps ex_chain0_def expected_seq_def
        ex_channel_def)
  moreover have "expected_seq ex_chain0 (Worker 1) = 0" by (simp add: ex_chain0_def expected_seq_def)
  ultimately show ?thesis using run by auto
qed

theorem relay_exactly_once_witness:
  "\<exists>s' acc. relay_reachable ex_inj_enc ex_sign ex_verify ex_nf ex_channel ex_sent ex_relay_queue s' acc \<and>
     length acc = 1 \<and> map sm_message acc @ map sm_message
       (filter (\<lambda>m. expected_seq s' (Worker 1) \<le> sm_sequence m) (MessageSendQueue_messages (Worker 1) ex_relay_queue))
     = [Message_new (Worker 1) [97] [5], Message_new (Worker 1) [98] [7]]"
proof -
  define m where "m = sent_signed ex_inj_enc ex_sign ex_channel ex_sent 0"
  let ?e = "Ev_call (Signed 8) (sync_offchain_message m) :: nat mq_event"
  have m: "sm_sequence m = 0" "sm_message m = Message_new (Worker 1) [97] [5]"
    and sg: "sm_signature m = ex_sign () (SignedMessage_data_be_signed ex_inj_enc m)"
    by (simp_all add: m_def sent_signed_def sent_message_def sign_data_be_signed ex_channel_def ex_sent_def
        Message_new_def MessageChannel_prepare_with_data_def)
  obtain s' where "Mq_sync_offchain_message ex_inj_enc ex_verify ex_nf (Signed 8) m ex_chain0 = Inr s'"
    using m sg by (auto simp: sync_offchain_message_Inr check_message_Inr ex_chain0_def expected_seq_def
        Message_new_def Topic_is_valid_def RESERVED_BYTES_def sender_pubkey_def ex_sign_def ex_verify_def Mq_dispatch_message_def ex_nf_def)
  then have st: "mq_event_step ex_inj_enc ex_verify ex_nf ?e ex_chain0 = ([m], s')" by simp
  have env: "env_keeps_ingress [?e]" by (simp add: env_keeps_ingress_def)
  have "unforged ex_inj_enc ex_verify ex_channel ex_sent ex_chain0 ?e"
    by (auto simp: unforged_def SignedMessage_data_be_signed_def m_def ex_sent_def intro!: exI [of _ 0])
  from relay_chain [OF ex_relay_reachable env this st]
  have r: "relay_reachable ex_inj_enc ex_sign ex_verify ex_nf ex_channel ex_sent ex_relay_queue s' [m]"
    by (simp add: accepted_of_def m Message_new_def ex_channel_def)
  from relay_exactly_once [OF r ex_nf_keeps ex_inj_enc_inj] r show ?thesis
    by (auto simp: ex_channel_def ex_sent_def Message_new_def intro!: exI [of _ s'] exI [of _ "[m]"])
qed

end
