(* ===== verification/Kv_Session.thy ===== *)
theory Kv_Session
  imports BTree
begin

text \<open>
  The transactional key-value session of \<open>crates/pink-libs/kv-session\<close>: snapshots
  (\<open>traits.rs\<close>), access trackers (\<open>trackers.rs\<close>), sessions with their queue
  (\<open>session.rs\<close>) and the roll-up of a session into version conditions and updates
  (\<open>rollup.rs\<close>). Traits become records of their methods, passed explicitly.
\<close>

section \<open>Traits\<close>

datatype Kv_Error = FailedToGetStorage | FailedToDecode

text \<open>The methods of a \<open>KvSnapshot\<close> that also implements \<open>BumpVersion\<close>.\<close>

record KvSnapshot =
  snapshot_id :: "Kv_Error + bytes"
  snapshot_get :: "bytes \<Rightarrow> Kv_Error + bytes option"
  bump_version :: "bytes option \<Rightarrow> Kv_Error + bytes"

record QueueIndexCodec =
  qi_encode :: "u32 \<Rightarrow> bytes"
  qi_decode :: "bytes \<Rightarrow> Kv_Error + u32"

record 't AccessTracking =
  trk_read :: "bytes \<Rightarrow> 't \<Rightarrow> 't"
  trk_write :: "bytes \<Rightarrow> 't \<Rightarrow> 't"
  trk_collect_into :: "'t \<Rightarrow> bytes list \<times> bytes list"

record KvTransaction =
  accessed_keys :: "bytes list"
  version_updates :: "bytes list"
  value_updates :: "(bytes \<times> bytes option) list"
  tx_queue_head :: "u32 option"
  tx_queue_lock :: "bytes option"

definition KvSnapshot_batch_get ::
  "KvSnapshot \<Rightarrow> bytes list \<Rightarrow> Kv_Error + (bytes \<times> bytes option) list" where
  "KvSnapshot_batch_get db keys =
     mapM_res (\<lambda>key. bind_res (snapshot_get db key) (\<lambda>v. Inr (key, v))) keys"

section \<open>Trackers\<close>

record OneLock =
  lock_key :: bytes
  write_lock :: bool

definition OneLock_new :: "bytes \<Rightarrow> bool \<Rightarrow> OneLock" where
  "OneLock_new key wl = \<lparr>lock_key = key, write_lock = wl\<rparr>"

definition OneLock_tracking :: "OneLock AccessTracking" where
  "OneLock_tracking =
     \<lparr>trk_read = (\<lambda>_ t. t), trk_write = (\<lambda>_ t. t),
      trk_collect_into = (\<lambda>t. ([lock_key t], if write_lock t then [lock_key t] else []))\<rparr>"

record AccessTracker =
  at_track :: "bytes list"
  at_writes :: "bytes list"

definition AccessTracker_new :: AccessTracker where
  "AccessTracker_new = \<lparr>at_track = [], at_writes = []\<rparr>"

text \<open>The constant parameter \<open>TRACK_WRITE\<close> is an argument.\<close>

definition AccessTracker_tracking :: "bool \<Rightarrow> AccessTracker AccessTracking" where
  "AccessTracker_tracking TRACK_WRITE =
     \<lparr>trk_read = (\<lambda>key t. t\<lparr>at_track := bs_insert key (at_track t)\<rparr>),
      trk_write = (\<lambda>key t.
        let t = t\<lparr>at_writes := bs_insert key (at_writes t)\<rparr>
        in if TRACK_WRITE then t\<lparr>at_track := bs_insert key (at_track t)\<rparr> else t),
      trk_collect_into = (\<lambda>t. (at_track t, at_writes t))\<rparr>"

abbreviation ReadTracker :: "AccessTracker AccessTracking" where
  "ReadTracker \<equiv> AccessTracker_tracking False"

abbreviation RwTracker :: "AccessTracker AccessTracking" where
  "RwTracker \<equiv> AccessTracker_tracking True"

section \<open>The queue of a session\<close>

text \<open>The byte strings \<open>_head\<close> and \<open>_tail\<close>.\<close>

definition head_suffix :: bytes where
  "head_suffix = [95, 104, 101, 97, 100]"

definition tail_suffix :: bytes where
  "tail_suffix = [95, 116, 97, 105, 108]"

record QueueInfo =
  qi_prefix :: bytes
  qi_head :: u32
  qi_tail :: u32
  qi_popped :: bool

definition get_number :: "QueueIndexCodec \<Rightarrow> KvSnapshot \<Rightarrow> bytes \<Rightarrow> Kv_Error + u32 option" where
  "get_number codec db fullkey =
     bind_res (snapshot_get db fullkey) (\<lambda>v. case v of
         None \<Rightarrow> Inr None
       | Some raw \<Rightarrow> bind_res (qi_decode codec raw) (\<lambda>n. Inr (Some n)))"

definition QueueInfo_new :: "QueueIndexCodec \<Rightarrow> bytes \<Rightarrow> KvSnapshot \<Rightarrow> Kv_Error + QueueInfo" where
  "QueueInfo_new codec pfx db =
     bind_res (get_number codec db (pfx @ head_suffix)) (\<lambda>h.
     bind_res (get_number codec db (pfx @ tail_suffix)) (\<lambda>t.
       let head = unwrap_or h 0; tail = unwrap_or t 0
       in if tail < head then Inl FailedToDecode
          else Inr \<lparr>qi_prefix = pfx, qi_head = head, qi_tail = tail, qi_popped = False\<rparr>))"

definition QueueInfo_pop ::
  "QueueIndexCodec \<Rightarrow> KvSnapshot \<Rightarrow> QueueInfo \<Rightarrow> Kv_Error + bytes option \<times> QueueInfo" where
  "QueueInfo_pop codec db q =
     (if qi_head q = qi_tail q then Inr (None, q)
      else bind_res (snapshot_get db (qi_prefix q @ qi_encode codec (qi_head q))) (\<lambda>data.
        Inr (data, q\<lparr>qi_popped := True, qi_head := qi_head q + 1\<rparr>)))"

section \<open>Sessions\<close>

record 't Session =
  ss_kvdb :: KvSnapshot
  ss_tracker :: 't
  ss_updates :: "(bytes, bytes option) btree_map"
  ss_queue :: QueueInfo

definition Session_new ::
  "QueueIndexCodec \<Rightarrow> KvSnapshot \<Rightarrow> 't \<Rightarrow> bytes \<Rightarrow> Kv_Error + 't Session" where
  "Session_new codec db tracker queue_prefix =
     bind_res (QueueInfo_new codec queue_prefix db) (\<lambda>queue.
       Inr \<lparr>ss_kvdb = db, ss_tracker = tracker, ss_updates = [], ss_queue = queue\<rparr>)"

definition Session_commit :: "'t AccessTracking \<Rightarrow> 't Session \<Rightarrow> KvTransaction \<times> KvSnapshot" where
  "Session_commit trk s =
     (let (acc, ver) = trk_collect_into trk (ss_tracker s); q = ss_queue s
      in (\<lparr>accessed_keys = acc, version_updates = ver, value_updates = ss_updates s,
           tx_queue_head = (if qi_popped q then Some (qi_head q) else None),
           tx_queue_lock = (if qi_popped q then Some (qi_prefix q @ head_suffix) else None)\<rparr>,
          ss_kvdb s))"

definition Session_get ::
  "'t AccessTracking \<Rightarrow> bytes \<Rightarrow> 't Session \<Rightarrow> (Kv_Error + bytes option) \<times> 't Session" where
  "Session_get trk key s =
     (case bt_get (ss_updates s) key of
        Some val \<Rightarrow> (Inr val, s)
      | None \<Rightarrow> (snapshot_get (ss_kvdb s) key, s\<lparr>ss_tracker := trk_read trk key (ss_tracker s)\<rparr>))"

definition Session_put :: "'t AccessTracking \<Rightarrow> bytes \<Rightarrow> bytes \<Rightarrow> 't Session \<Rightarrow> 't Session" where
  "Session_put trk key val s =
     s\<lparr>ss_tracker := trk_write trk key (ss_tracker s),
       ss_updates := bt_insert key (Some val) (ss_updates s)\<rparr>"

definition Session_delete :: "'t AccessTracking \<Rightarrow> bytes \<Rightarrow> 't Session \<Rightarrow> 't Session" where
  "Session_delete trk key s =
     s\<lparr>ss_tracker := trk_write trk key (ss_tracker s),
       ss_updates := bt_insert key None (ss_updates s)\<rparr>"

text \<open>When the snapshot fails, the queue is unchanged.\<close>

definition Session_pop ::
  "QueueIndexCodec \<Rightarrow> 't Session \<Rightarrow> (Kv_Error + bytes option) \<times> 't Session" where
  "Session_pop codec s =
     (case QueueInfo_pop codec (ss_kvdb s) (ss_queue s) of
        Inl e \<Rightarrow> (Inl e, s)
      | Inr (data, q) \<Rightarrow> (Inr data, s\<lparr>ss_queue := q\<rparr>))"

section \<open>Roll-up\<close>

text \<open>The only version layout is \<open>Standalone\<close>, with its key postfix.\<close>

datatype VersionLayout = Standalone (key_postfix: bytes)

record RollUpTransaction =
  rtx_snapshot_id :: bytes
  rtx_conditions :: "(bytes \<times> bytes option) list"
  rtx_updates :: "(bytes \<times> bytes option) list"
  rtx_queue_head :: "u32 option"

definition RollUpTransaction_has_updates :: "RollUpTransaction \<Rightarrow> bool" where
  "RollUpTransaction_has_updates tx \<longleftrightarrow> rtx_queue_head tx \<noteq> None \<or> rtx_updates tx \<noteq> []"

definition rollup :: "KvSnapshot \<Rightarrow> KvTransaction \<Rightarrow> VersionLayout \<Rightarrow> Kv_Error + RollUpTransaction" where
  "rollup db tx layout =
     (let postfix = key_postfix layout;
          lookup_keys = bs_collect (accessed_keys tx @ version_updates tx);
          version_keys = map (\<lambda>k. k @ postfix) lookup_keys
      in bind_res (KvSnapshot_batch_get db version_keys) (\<lambda>vs.
        let versions = fold (\<lambda>(k, v). bt_insert k v) vs [];
            conditions = map (\<lambda>k. (k @ postfix, Option.bind (bt_get versions (k @ postfix)) (\<lambda>v. v)))
                           (accessed_keys tx)
        in bind_res (case tx_queue_lock tx of
              None \<Rightarrow> Inr conditions
            | Some lk \<Rightarrow> bind_res (snapshot_get db lk) (\<lambda>v. Inr (conditions @ [(lk, v)]))) (\<lambda>conditions.
           bind_res (mapM_res (\<lambda>k.
               let key = k @ postfix; ver = Option.bind (bt_get versions key) (\<lambda>v. v)
               in bind_res (bump_version db ver) (\<lambda>ver. Inr (key, Some ver))) (version_updates tx)) (\<lambda>vus.
           bind_res (snapshot_id db) (\<lambda>sid.
             Inr \<lparr>rtx_snapshot_id = sid, rtx_conditions = conditions,
                  rtx_updates = value_updates tx @ vus, rtx_queue_head = tx_queue_head tx\<rparr>)))))"

lemma Session_commit_fields [simp]:
  "accessed_keys (fst (Session_commit trk s)) = fst (trk_collect_into trk (ss_tracker s))"
  "version_updates (fst (Session_commit trk s)) = snd (trk_collect_into trk (ss_tracker s))"
  "value_updates (fst (Session_commit trk s)) = ss_updates s"
  "tx_queue_head (fst (Session_commit trk s)) =
     (if qi_popped (ss_queue s) then Some (qi_head (ss_queue s)) else None)"
  "tx_queue_lock (fst (Session_commit trk s)) =
     (if qi_popped (ss_queue s) then Some (qi_prefix (ss_queue s) @ head_suffix) else None)"
  "snd (Session_commit trk s) = ss_kvdb s"
  by (simp_all add: Session_commit_def Let_def split: prod.split)

section \<open>What a roll-up contains\<close>

text \<open>A snapshot of a store that never fails.\<close>

definition snapshot_of :: "KvSnapshot \<Rightarrow> (bytes \<Rightarrow> bytes option) \<Rightarrow> bool" where
  "snapshot_of db m \<longleftrightarrow> snapshot_get db = (\<lambda>k. Inr (m k))"

lemma batch_get_snapshot:
  "snapshot_of db m \<Longrightarrow> KvSnapshot_batch_get db keys = Inr (map (\<lambda>k. (k, m k)) keys)"
  by (simp add: KvSnapshot_batch_get_def snapshot_of_def)

lemma get_fold_versions:
  "bt_get (fold (\<lambda>(k, v). bt_insert k v) (map (\<lambda>k. (k, m k)) keys) acc) x =
     (if x \<in> set keys then Some (m x) else bt_get acc x)"
  by (induction keys arbitrary: acc) (auto simp: bt_get_insert_at)

lemma rollup_snapshot:
  assumes "snapshot_of db m" and "rollup db tx (Standalone p) = Inr r"
  shows "rtx_conditions r = map (\<lambda>k. (k @ p, m (k @ p))) (accessed_keys tx) @
      (case tx_queue_lock tx of None \<Rightarrow> [] | Some lk \<Rightarrow> [(lk, m lk)])"
    and "\<exists>vers. rtx_updates r = value_updates tx @ map (\<lambda>(k, w). (k @ p, Some w)) (zip (version_updates tx) vers) \<and>
      list_all2 (\<lambda>k w. bump_version db (m (k @ p)) = Inr w) (version_updates tx) vers"
    and "rtx_queue_head r = tx_queue_head tx"
proof -
  let ?vk = "map (\<lambda>k. k @ p) (bs_collect (accessed_keys tx @ version_updates tx))"
  let ?vs = "fold (\<lambda>(k, v). bt_insert k v) (map (\<lambda>k. (k, m k)) ?vk) []"
  have look: "k \<in> set (accessed_keys tx) \<union> set (version_updates tx) \<Longrightarrow>
      bt_get ?vs (k @ p) = Some (m (k @ p))" for k
    unfolding get_fold_versions by auto
  have conds: "map (\<lambda>k. (k @ p, Option.bind (bt_get ?vs (k @ p)) (\<lambda>v. v))) (accessed_keys tx) =
      map (\<lambda>k. (k @ p, m (k @ p))) (accessed_keys tx)"
    by (rule map_cong) (use look in auto)
  obtain cs vus sid where cs: "(case tx_queue_lock tx of None \<Rightarrow> Inr (map (\<lambda>k. (k @ p, m (k @ p))) (accessed_keys tx))
        | Some lk \<Rightarrow> bind_res (snapshot_get db lk) (\<lambda>v. Inr (map (\<lambda>k. (k @ p, m (k @ p))) (accessed_keys tx) @ [(lk, v)]))) = Inr cs"
    and vus: "mapM_res (\<lambda>k. bind_res (bump_version db (Option.bind (bt_get ?vs (k @ p)) (\<lambda>v. v)))
        (\<lambda>ver. Inr (k @ p, Some ver))) (version_updates tx) = Inr vus"
    and r: "r = \<lparr>rtx_snapshot_id = sid, rtx_conditions = cs, rtx_updates = value_updates tx @ vus,
        rtx_queue_head = tx_queue_head tx\<rparr>"
    using assms(2)
    by (cases "tx_queue_lock tx")
      (auto simp: rollup_def Let_def batch_get_snapshot [OF assms(1)] conds simp del: map_map)
  from cs assms(1) r show "rtx_conditions r = map (\<lambda>k. (k @ p, m (k @ p))) (accessed_keys tx) @
      (case tx_queue_lock tx of None \<Rightarrow> [] | Some lk \<Rightarrow> [(lk, m lk)])"
    by (auto simp: snapshot_of_def split: option.splits)
  from r show "rtx_queue_head r = tx_queue_head tx" by simp
  from vus have l2: "list_all2 (\<lambda>k kv. bind_res (bump_version db (m (k @ p))) (\<lambda>ver. Inr (k @ p, Some ver)) = Inr kv)
      (version_updates tx) vus"
    unfolding mapM_res_Inr_iff by (rule list.rel_mono_strong) (use look in auto)
  define vers where "vers = map (\<lambda>(_, v). the v) vus"
  have "vus = map (\<lambda>(k, w). (k @ p, Some w)) (zip (version_updates tx) vers)"
    using l2 unfolding vers_def by (induction rule: list_all2_induct) auto
  moreover have "list_all2 (\<lambda>k w. bump_version db (m (k @ p)) = Inr w) (version_updates tx) vers"
    using l2 unfolding vers_def by (induction rule: list_all2_induct) auto
  ultimately show "\<exists>vers. rtx_updates r = value_updates tx @ map (\<lambda>(k, w). (k @ p, Some w)) (zip (version_updates tx) vers) \<and>
      list_all2 (\<lambda>k w. bump_version db (m (k @ p)) = Inr w) (version_updates tx) vers"
    using r by auto
qed

end
