(* ===== verification/Kv_Program.thy ===== *)
theory Kv_Program
  imports Kv_Session
begin

text \<open>
  Client code over a session of \<open>crates/pink-libs/kv-session\<close>: a program is a tree of session
  calls whose continuation depends on the value returned. The reference semantics runs the same
  program directly on a mutable store and a queue. Access trackers are described by a contract
  (which lock stands for a key) that the exact trackers of \<open>trackers.rs\<close> satisfy.
\<close>

section \<open>Programs\<close>

datatype kv_prog =
    Done
  | Do_get bytes "bytes option \<Rightarrow> kv_prog"
  | Do_put bytes bytes kv_prog
  | Do_delete bytes kv_prog
  | Do_pop "bytes option \<Rightarrow> kv_prog"

text \<open>What a program observes; a pop of the empty queue is told apart from a missing item.\<close>

datatype kv_obs = Obs_get "bytes option" | Obs_pop "bytes option" | Obs_empty

fun pops :: "kv_obs list \<Rightarrow> bytes option list" where
  "pops [] = []"
| "pops (Obs_pop v # os) = v # pops os"
| "pops (_ # os) = pops os"

primrec session_run ::
  "'t AccessTracking \<Rightarrow> QueueIndexCodec \<Rightarrow> kv_prog \<Rightarrow> 't Session \<Rightarrow> Kv_Error + kv_obs list \<times> 't Session"
where
  "session_run trk codec Done = (\<lambda>s. Inr ([], s))"
| "session_run trk codec (Do_get k c) = (\<lambda>s.
     case Session_get trk k s of
       (Inl e, _) \<Rightarrow> Inl e
     | (Inr v, s') \<Rightarrow> bind_res (session_run trk codec (c v) s') (\<lambda>(os, s''). Inr (Obs_get v # os, s'')))"
| "session_run trk codec (Do_put k v p) = (\<lambda>s. session_run trk codec p (Session_put trk k v s))"
| "session_run trk codec (Do_delete k p) = (\<lambda>s. session_run trk codec p (Session_delete trk k s))"
| "session_run trk codec (Do_pop c) = (\<lambda>s.
     case Session_pop codec s of
       (Inl e, _) \<Rightarrow> Inl e
     | (Inr v, s') \<Rightarrow> bind_res (session_run trk codec (c v) s') (\<lambda>(os, s'').
         Inr ((if qi_head (ss_queue s) = qi_tail (ss_queue s) then Obs_empty else Obs_pop v) # os, s'')))"

primrec direct_run ::
  "kv_prog \<Rightarrow> (bytes \<Rightarrow> bytes option) \<Rightarrow> bytes option list \<Rightarrow>
   kv_obs list \<times> (bytes \<Rightarrow> bytes option) \<times> bytes option list" where
  "direct_run Done = (\<lambda>m q. ([], m, q))"
| "direct_run (Do_get k c) = (\<lambda>m q. case direct_run (c (m k)) m q of (os, r) \<Rightarrow> (Obs_get (m k) # os, r))"
| "direct_run (Do_put k v p) = (\<lambda>m q. direct_run p (m(k := Some v)) q)"
| "direct_run (Do_delete k p) = (\<lambda>m q. direct_run p (m(k := None)) q)"
| "direct_run (Do_pop c) = (\<lambda>m q. case q of
     [] \<Rightarrow> (case direct_run (c None) m [] of (os, r) \<Rightarrow> (Obs_empty # os, r))
   | x # q' \<Rightarrow> (case direct_run (c x) m q' of (os, r) \<Rightarrow> (Obs_pop x # os, r)))"

text \<open>The keys a program names, and every program of keys of \<open>U\<close>.\<close>

primrec prog_keys_in :: "bytes set \<Rightarrow> kv_prog \<Rightarrow> bool" where
  "prog_keys_in U Done = True"
| "prog_keys_in U (Do_get k c) = (k \<in> U \<and> (\<forall>v. prog_keys_in U (c v)))"
| "prog_keys_in U (Do_put k v p) = (k \<in> U \<and> prog_keys_in U p)"
| "prog_keys_in U (Do_delete k p) = (k \<in> U \<and> prog_keys_in U p)"
| "prog_keys_in U (Do_pop c) = (\<forall>v. prog_keys_in U (c v))"

section \<open>A session behaves like direct execution\<close>

definition overlay ::
  "(bytes \<Rightarrow> bytes option) \<Rightarrow> (bytes, bytes option) btree_map \<Rightarrow> bytes \<Rightarrow> bytes option" where
  "overlay m u k = (case bt_get u k of Some v \<Rightarrow> v | None \<Rightarrow> m k)"

definition queue_rest ::
  "QueueIndexCodec \<Rightarrow> (bytes \<Rightarrow> bytes option) \<Rightarrow> QueueInfo \<Rightarrow> bytes option list" where
  "queue_rest codec m q =
     map (\<lambda>i. m (qi_prefix q @ qi_encode codec (of_nat i))) [unat (qi_head q) ..< unat (qi_tail q)]"

lemma overlay_insert: "overlay m (bt_insert k v u) = (overlay m u)(k := v)"
  by (auto simp: overlay_def bt_get_insert_at)

lemma overlay_empty [simp]: "overlay m [] = m"
  by (auto simp: overlay_def)

lemma queue_rest_Cons:
  assumes "qi_head q < qi_tail q"
  shows "queue_rest codec m q = m (qi_prefix q @ qi_encode codec (qi_head q)) #
    queue_rest codec m (q\<lparr>qi_popped := True, qi_head := qi_head q + 1\<rparr>)"
proof -
  have ne: "qi_head q \<noteq> - 1" using assms by auto
  have "unat (qi_head q) < unat (qi_tail q)" using assms by (simp add: word_less_nat_alt)
  then show ?thesis by (simp add: queue_rest_def upt_conv_Cons unat_Suc_word [OF ne])
qed

lemma queue_rest_empty: "qi_head q = qi_tail q \<Longrightarrow> queue_rest codec m q = []"
  by (simp add: queue_rest_def)

lemma session_run_refines:
  assumes "snapshot_of (ss_kvdb s) m" and "qi_head (ss_queue s) \<le> qi_tail (ss_queue s)"
  shows "\<exists>os s'. session_run trk codec p s = Inr (os, s') \<and> ss_kvdb s' = ss_kvdb s \<and>
    qi_prefix (ss_queue s') = qi_prefix (ss_queue s) \<and>
    direct_run p (overlay m (ss_updates s)) (queue_rest codec m (ss_queue s)) =
      (os, overlay m (ss_updates s'), queue_rest codec m (ss_queue s'))"
  using assms
proof (induction p arbitrary: s)
  case Done
  then show ?case by simp
next
  case (Do_get k c)
  define v where "v = overlay m (ss_updates s) k"
  obtain s1 where g: "Session_get trk k s = (Inr v, s1)" and "ss_kvdb s1 = ss_kvdb s"
    and "ss_updates s1 = ss_updates s" and "ss_queue s1 = ss_queue s"
    using Do_get.prems by (cases "bt_get (ss_updates s) k") (auto simp: Session_get_def v_def overlay_def snapshot_of_def)
  with Do_get.IH [of "c v" s1] Do_get.prems g show ?case by (auto simp: v_def split: prod.splits)
next
  case (Do_put k v p)
  then show ?case using Do_put.IH [of "Session_put trk k v s"] by (simp add: Session_put_def overlay_insert fun_upd_def)
next
  case (Do_delete k p)
  then show ?case using Do_delete.IH [of "Session_delete trk k s"] by (simp add: Session_delete_def overlay_insert fun_upd_def)
next
  case (Do_pop c)
  let ?q = "ss_queue s"
  show ?case
  proof (cases "qi_head ?q = qi_tail ?q")
    case True
    then have pop: "Session_pop codec s = (Inr None, s\<lparr>ss_queue := ?q\<rparr>)"
      by (simp add: Session_pop_def QueueInfo_pop_def)
    with Do_pop.IH [of "c None" s] Do_pop.prems True show ?thesis
      by (auto simp: queue_rest_empty split: prod.splits)
  next
    case False
    then have lt: "qi_head ?q < qi_tail ?q" using Do_pop.prems(2) by simp
    let ?v = "m (qi_prefix ?q @ qi_encode codec (qi_head ?q))"
    let ?s = "s\<lparr>ss_queue := ?q\<lparr>qi_popped := True, qi_head := qi_head ?q + 1\<rparr>\<rparr>"
    have pop: "Session_pop codec s = (Inr ?v, ?s)"
      using False Do_pop.prems(1) by (simp add: Session_pop_def QueueInfo_pop_def snapshot_of_def)
    have "qi_head ?q + 1 \<le> qi_tail ?q" using lt by (simp add: inc_le)
    with Do_pop.IH [of "c ?v" ?s] Do_pop.prems pop False show ?thesis
      by (auto simp: queue_rest_Cons [OF lt] split: prod.splits)
  qed
qed

lemma session_run_queue:
  assumes "session_run trk codec p s = Inr (os, s')" and "snapshot_of (ss_kvdb s) m"
    and "qi_head (ss_queue s) \<le> qi_tail (ss_queue s)"
  shows "ss_kvdb s' = ss_kvdb s \<and> qi_prefix (ss_queue s') = qi_prefix (ss_queue s) \<and>
    qi_tail (ss_queue s') = qi_tail (ss_queue s) \<and>
    qi_head (ss_queue s) \<le> qi_head (ss_queue s') \<and> qi_head (ss_queue s') \<le> qi_tail (ss_queue s') \<and>
    (qi_popped (ss_queue s') \<longleftrightarrow> qi_popped (ss_queue s) \<or> qi_head (ss_queue s) \<noteq> qi_head (ss_queue s')) \<and>
    pops os = map (\<lambda>i. m (qi_prefix (ss_queue s) @ qi_encode codec (of_nat i)))
      [unat (qi_head (ss_queue s)) ..< unat (qi_head (ss_queue s'))]"
  using assms
proof (induction p arbitrary: s os)
  case (Do_get k c)
  then obtain v s1 os1 where "Session_get trk k s = (Inr v, s1)" and run: "session_run trk codec (c v) s1 = Inr (os1, s')"
    and os: "os = Obs_get v # os1"
    by (auto split: prod.splits sum.splits)
  then have "ss_queue s1 = ss_queue s" "ss_kvdb s1 = ss_kvdb s"
    by (auto simp: Session_get_def split: option.splits)
  with Do_get.IH [of "c v", OF _ run] Do_get.prems(2,3) os show ?case by auto
next
  case (Do_pop c)
  let ?q = "ss_queue s"
  show ?case
  proof (cases "qi_head ?q = qi_tail ?q")
    case True
    then have pop: "Session_pop codec s = (Inr None, s)"
      by (simp add: Session_pop_def QueueInfo_pop_def)
    with Do_pop.prems(1) True obtain os1 where run: "session_run trk codec (c None) s = Inr (os1, s')"
      and os: "os = Obs_empty # os1" by (auto split: prod.splits)
    with Do_pop.IH [of "c None", OF _ run] Do_pop.prems(2,3) show ?thesis by auto
  next
    case False
    then have lt: "qi_head ?q < qi_tail ?q" using Do_pop.prems(3) by simp
    then have ne: "qi_head ?q \<noteq> - 1" by auto
    let ?v = "m (qi_prefix ?q @ qi_encode codec (qi_head ?q))"
    let ?s = "s\<lparr>ss_queue := ?q\<lparr>qi_popped := True, qi_head := qi_head ?q + 1\<rparr>\<rparr>"
    have pop: "Session_pop codec s = (Inr ?v, ?s)"
      using False Do_pop.prems(2) by (simp add: Session_pop_def QueueInfo_pop_def snapshot_of_def)
    with Do_pop.prems(1) False obtain os1 where run: "session_run trk codec (c ?v) ?s = Inr (os1, s')"
      and os: "os = Obs_pop ?v # os1" by (auto split: prod.splits)
    have le: "qi_head ?q + 1 \<le> qi_tail ?q" using lt by (simp add: inc_le)
    from Do_pop.IH [of "c ?v", OF _ run] Do_pop.prems(2) le
    have ih: "ss_kvdb s' = ss_kvdb s" "qi_prefix (ss_queue s') = qi_prefix ?q" "qi_tail (ss_queue s') = qi_tail ?q"
      "qi_head ?q + 1 \<le> qi_head (ss_queue s')" "qi_head (ss_queue s') \<le> qi_tail ?q" "qi_popped (ss_queue s')"
      "pops os1 = map (\<lambda>i. m (qi_prefix ?q @ qi_encode codec (of_nat i)))
        [unat (qi_head ?q + 1) ..< unat (qi_head (ss_queue s'))]"
      by auto
    have lt1: "qi_head ?q < qi_head (ss_queue s')" using word_less_Suc [OF ne] ih(4) by (rule less_le_trans)
    then have "unat (qi_head ?q) < unat (qi_head (ss_queue s'))" by (simp add: word_less_nat_alt)
    then have "pops os = map (\<lambda>i. m (qi_prefix ?q @ qi_encode codec (of_nat i)))
        [unat (qi_head ?q) ..< unat (qi_head (ss_queue s'))]"
      using os ih(7) by (simp add: unat_Suc_word [OF ne] upt_conv_Cons)
    with ih lt1 show ?thesis by auto
  qed
next
  case (Do_put k v p)
  from Do_put.IH [of "Session_put trk k v s" os] Do_put.prems show ?case by (auto simp: Session_put_def)
next
  case (Do_delete k p)
  from Do_delete.IH [of "Session_delete trk k s" os] Do_delete.prems show ?case by (auto simp: Session_delete_def)
qed auto

section \<open>The contract of a tracker\<close>

text \<open>
  \<open>ok t R W\<close>: the tracker state \<open>t\<close> has seen the reads \<open>R\<close> and the writes \<open>W\<close>. Every read and
  every written key is protected by its lock, and every lock that is bumped is also checked.
\<close>

locale exact_tracking =
  fixes trk :: "'t AccessTracking"
    and ok :: "'t \<Rightarrow> bytes set \<Rightarrow> bytes set \<Rightarrow> bool"
    and lock_of :: "bytes \<Rightarrow> bytes"
  assumes ok_read: "ok t R W \<Longrightarrow> ok (trk_read trk k t) (insert k R) W"
    and ok_write: "ok t R W \<Longrightarrow> ok (trk_write trk k t) R (insert k W)"
    and read_locked: "ok t R W \<Longrightarrow> k \<in> R \<Longrightarrow> lock_of k \<in> set (fst (trk_collect_into trk t))"
    and write_locked: "ok t R W \<Longrightarrow> k \<in> W \<Longrightarrow> lock_of k \<in> set (snd (trk_collect_into trk t))"
    and bumped_checked: "ok t R W \<Longrightarrow>
      set (snd (trk_collect_into trk t)) \<subseteq> set (fst (trk_collect_into trk t))"
    and only_locks: "ok t R W \<Longrightarrow> l \<in> set (snd (trk_collect_into trk t)) \<Longrightarrow>
      l \<in> lock_of ` W \<or> (\<forall>k. lock_of k = l)"
begin

definition session_ok :: "'t Session \<Rightarrow> bytes set \<Rightarrow> bool" where
  "session_ok s R \<longleftrightarrow> ok (ss_tracker s) R {k. bt_get (ss_updates s) k \<noteq> None}"

lemma session_ok_put: "session_ok s R \<Longrightarrow> session_ok (Session_put trk k v s) R"
  using ok_write [of "ss_tracker s" R _ k]
  by (simp add: session_ok_def Session_put_def bt_get_insert_at if_distrib insert_Collect cong: if_cong)
     (metis (mono_tags, lifting) Collect_cong insert_Collect)

lemma session_ok_delete: "session_ok s R \<Longrightarrow> session_ok (Session_delete trk k s) R"
  using ok_write [of "ss_tracker s" R _ k]
  by (simp add: session_ok_def Session_delete_def bt_get_insert_at if_distrib insert_Collect cong: if_cong)
     (metis (mono_tags, lifting) Collect_cong insert_Collect)

text \<open>
  A run on a snapshot of \<open>m0\<close> reads a set of keys that the tracker protects; run directly on any
  store that agrees with \<open>m0\<close> on those keys, with the popped items at the front of the queue, the
  program makes the same observations and the same updates. If it found the queue empty, nothing may
  follow the popped items.
\<close>

lemma session_replay:
  assumes "session_run trk codec p s = Inr (os, s')" and "session_ok s R"
    and "snapshot_of (ss_kvdb s) m0" and "prog_keys_in U p" and "R \<subseteq> U"
    and "\<forall>k. bt_get (ss_updates s) k \<noteq> None \<longrightarrow> k \<in> U"
    and "qi_head (ss_queue s) \<le> qi_tail (ss_queue s)"
  shows "\<exists>R'. R \<subseteq> R' \<and> R' \<subseteq> U \<and> session_ok s' R' \<and> (\<forall>k. bt_get (ss_updates s') k \<noteq> None \<longrightarrow> k \<in> U) \<and>
    (\<forall>m rest. (\<forall>k\<in>R'. m k = m0 k) \<longrightarrow> (Obs_empty \<in> set os \<longrightarrow> rest = []) \<longrightarrow>
      direct_run p (overlay m (ss_updates s)) (pops os @ rest) = (os, overlay m (ss_updates s'), rest))"
  using assms
proof (induction p arbitrary: s os R)
  case Done
  then show ?case by (intro exI [of _ R]) auto
next
  case (Do_get k c)
  have sg: "snapshot_get (ss_kvdb s) = (\<lambda>k. Inr (m0 k))" using Do_get.prems(3) by (simp add: snapshot_of_def)
  show ?case
  proof (cases "bt_get (ss_updates s) k")
    case (Some v)
    with Do_get.prems(1) obtain os1 where run: "session_run trk codec (c v) s = Inr (os1, s')"
      and os: "os = Obs_get v # os1"
      by (auto simp: Session_get_def split: prod.splits)
    from Do_get.IH [of "c v", OF _ run Do_get.prems(2)] Do_get.prems obtain R' where
      R': "R \<subseteq> R'" "R' \<subseteq> U" "session_ok s' R'" "\<forall>k. bt_get (ss_updates s') k \<noteq> None \<longrightarrow> k \<in> U"
      and rep: "\<And>m rest. (\<forall>k\<in>R'. m k = m0 k) \<Longrightarrow> (Obs_empty \<in> set os1 \<Longrightarrow> rest = []) \<Longrightarrow>
        direct_run (c v) (overlay m (ss_updates s)) (pops os1 @ rest) = (os1, overlay m (ss_updates s'), rest)"
      by auto
    have "overlay m (ss_updates s) k = v" for m using Some by (simp add: overlay_def)
    with R' rep os show ?thesis by (intro exI [of _ R']) auto
  next
    case None
    let ?s = "s\<lparr>ss_tracker := trk_read trk k (ss_tracker s)\<rparr>"
    from None sg Do_get.prems(1) obtain os1 where run: "session_run trk codec (c (m0 k)) ?s = Inr (os1, s')"
      and os: "os = Obs_get (m0 k) # os1"
      by (auto simp: Session_get_def split: prod.splits)
    have "session_ok ?s (insert k R)" using Do_get.prems(2) by (simp add: session_ok_def ok_read)
    from Do_get.IH [of "c (m0 k)", OF _ run this] Do_get.prems obtain R' where
      R': "insert k R \<subseteq> R'" "R' \<subseteq> U" "session_ok s' R'" "\<forall>k. bt_get (ss_updates s') k \<noteq> None \<longrightarrow> k \<in> U"
      and rep: "\<And>m rest. (\<forall>k\<in>R'. m k = m0 k) \<Longrightarrow> (Obs_empty \<in> set os1 \<Longrightarrow> rest = []) \<Longrightarrow>
        direct_run (c (m0 k)) (overlay m (ss_updates s)) (pops os1 @ rest) = (os1, overlay m (ss_updates s'), rest)"
      by auto
    have "overlay m (ss_updates s) k = m k" for m using None by (simp add: overlay_def)
    with R' rep os show ?thesis by (intro exI [of _ R']) auto
  qed
next
  case (Do_put k v p)
  have "\<forall>x. bt_get (ss_updates (Session_put trk k v s)) x \<noteq> None \<longrightarrow> x \<in> U"
    using Do_put.prems by (auto simp: Session_put_def bt_get_insert_at)
  from Do_put.IH [of "Session_put trk k v s" os R] Do_put.prems session_ok_put [OF Do_put.prems(2)] this
  show ?case by (simp add: Session_put_def overlay_insert fun_upd_def)
next
  case (Do_delete k p)
  have "\<forall>x. bt_get (ss_updates (Session_delete trk k s)) x \<noteq> None \<longrightarrow> x \<in> U"
    using Do_delete.prems by (auto simp: Session_delete_def bt_get_insert_at)
  from Do_delete.IH [of "Session_delete trk k s" os R] Do_delete.prems session_ok_delete [OF Do_delete.prems(2)] this
  show ?case by (simp add: Session_delete_def overlay_insert fun_upd_def)
next
  case (Do_pop c)
  let ?q = "ss_queue s"
  from Do_pop.prems(1) obtain v s1 os1 where pop: "Session_pop codec s = (Inr v, s1)"
    and run: "session_run trk codec (c v) s1 = Inr (os1, s')"
    and os: "os = (if qi_head ?q = qi_tail ?q then Obs_empty else Obs_pop v) # os1"
    by (auto split: prod.splits sum.splits)
  have s1: "ss_tracker s1 = ss_tracker s" "ss_updates s1 = ss_updates s" "ss_kvdb s1 = ss_kvdb s"
    using pop by (auto simp: Session_pop_def split: sum.splits)
  have q1: "qi_head (ss_queue s1) \<le> qi_tail (ss_queue s1)"
    using pop Do_pop.prems(3,7) by (auto simp: Session_pop_def QueueInfo_pop_def snapshot_of_def inc_le split: if_splits)
  have emp: "v = None \<and> pops os1 = []" if "qi_head ?q = qi_tail ?q"
  proof -
    have "v = None" "s1 = s" using that pop by (auto simp: Session_pop_def QueueInfo_pop_def)
    with that session_run_queue [OF run _ q1, of m0] Do_pop.prems(3) show ?thesis by auto
  qed
  have "session_ok s1 R" using Do_pop.prems(2) s1 by (simp add: session_ok_def)
  from Do_pop.IH [of "c v", OF _ run this] Do_pop.prems s1 q1 obtain R' where
    R': "R \<subseteq> R'" "R' \<subseteq> U" "session_ok s' R'" "\<forall>k. bt_get (ss_updates s') k \<noteq> None \<longrightarrow> k \<in> U"
    and rep: "\<And>m rest. (\<forall>k\<in>R'. m k = m0 k) \<Longrightarrow> (Obs_empty \<in> set os1 \<Longrightarrow> rest = []) \<Longrightarrow>
      direct_run (c v) (overlay m (ss_updates s)) (pops os1 @ rest) = (os1, overlay m (ss_updates s'), rest)"
    by auto
  have "direct_run (Do_pop c) (overlay m (ss_updates s)) (pops os @ rest) = (os, overlay m (ss_updates s'), rest)"
    if "\<forall>k\<in>R'. m k = m0 k" and "Obs_empty \<in> set os \<longrightarrow> rest = []" for m rest
    using rep [OF that(1), of rest] that(2) os emp by (cases "qi_head ?q = qi_tail ?q") auto
  with R' show ?case by (intro exI [of _ R']) auto
qed

end

text \<open>The exact trackers: reads and writes tracked per key, and one lock that is always bumped.\<close>

definition rw_ok :: "AccessTracker \<Rightarrow> bytes set \<Rightarrow> bytes set \<Rightarrow> bool" where
  "rw_ok t R W \<longleftrightarrow> R \<union> W \<subseteq> set (at_track t) \<and> W = set (at_writes t)"

definition lock_ok :: "bytes \<Rightarrow> OneLock \<Rightarrow> bytes set \<Rightarrow> bytes set \<Rightarrow> bool" where
  "lock_ok lk t R W \<longleftrightarrow> t = OneLock_new lk True"

interpretation rw: exact_tracking RwTracker rw_ok "\<lambda>k. k"
  by unfold_locales (auto simp: rw_ok_def AccessTracker_tracking_def Let_def)

interpretation ol: exact_tracking OneLock_tracking "lock_ok lk" "\<lambda>_. lk"
  by unfold_locales (auto simp: lock_ok_def OneLock_tracking_def OneLock_new_def)

section \<open>Properties\<close>

lemma session_run_wf:
  "session_run trk codec p s = Inr (os, s') \<Longrightarrow> bt_wf (ss_updates s) \<Longrightarrow> bt_wf (ss_updates s')"
proof (induction p arbitrary: s os)
  case (Do_get k c)
  then obtain v s1 os1 where "Session_get trk k s = (Inr v, s1)" and "session_run trk codec (c v) s1 = Inr (os1, s')"
    by (auto split: prod.splits sum.splits)
  moreover from this Do_get.prems(2) have "bt_wf (ss_updates s1)"
    by (auto simp: Session_get_def split: option.splits)
  ultimately show ?case using Do_get.IH by blast
next
  case (Do_pop c)
  then obtain v s1 os1 where "Session_pop codec s = (Inr v, s1)" and "session_run trk codec (c v) s1 = Inr (os1, s')"
    by (auto split: prod.splits sum.splits)
  moreover from this Do_pop.prems(2) have "bt_wf (ss_updates s1)"
    by (auto simp: Session_pop_def split: sum.splits)
  ultimately show ?case using Do_pop.IH by blast
qed (auto simp: Session_put_def Session_delete_def bt.wf_ins)

lemma Session_new_Inr:
  assumes "Session_new codec db t pfx = Inr s"
  shows "ss_kvdb s = db" "ss_tracker s = t" "ss_updates s = []" "qi_prefix (ss_queue s) = pfx"
    "qi_head (ss_queue s) \<le> qi_tail (ss_queue s)" "\<not> qi_popped (ss_queue s)"
  using assms by (auto simp: Session_new_def QueueInfo_new_def Let_def split: if_splits)

text \<open>
  C5: A session over a snapshot is indistinguishable from running the same code directly on a
  mutable store and queue, for every tracker and every client program: the same values are
  returned (writes and deletes are visible to later reads, pops deliver the queue in order), no
  step fails, and the updates committed, one per key, turn the snapshot into the store that direct
  execution leaves.
\<close>

theorem session_refines_direct:
  assumes "snapshot_of db m" and "Session_new codec db t pfx = Inr s"
  shows "\<exists>os s'. session_run trk codec p s = Inr (os, s') \<and>
    direct_run p m (queue_rest codec m (ss_queue s)) =
      (os, overlay m (value_updates (fst (Session_commit trk s'))), queue_rest codec m (ss_queue s')) \<and>
    bt_wf (value_updates (fst (Session_commit trk s')))"
proof -
  note n = Session_new_Inr [OF assms(2)]
  have snap: "snapshot_of (ss_kvdb s) m" using n(1) assms(1) by simp
  from session_run_refines [OF snap n(5)] obtain os s' where
    r: "session_run trk codec p s = Inr (os, s')" and d: "direct_run p (overlay m (ss_updates s))
      (queue_rest codec m (ss_queue s)) = (os, overlay m (ss_updates s'), queue_rest codec m (ss_queue s'))"
    by blast
  moreover have "bt_wf (ss_updates s')" using session_run_wf [OF r] n(3) by simp
  ultimately show ?thesis using n(3) by auto
qed

section \<open>Witness\<close>

text \<open>A store with a queue of one item, and a program that uses every call.\<close>

definition ex_codec :: QueueIndexCodec where
  "ex_codec = \<lparr>qi_encode = (\<lambda>i. replicate (unat i) 1),
     qi_decode = (\<lambda>b. Inr (of_nat (length b)))\<rparr>"

definition ex_store :: "bytes \<Rightarrow> bytes option" where
  "ex_store = [[1] \<mapsto> [10], [9] @ head_suffix \<mapsto> [], [9] @ tail_suffix \<mapsto> [1], [9] \<mapsto> [77]]"

definition ex_snapshot :: KvSnapshot where
  "ex_snapshot = \<lparr>snapshot_id = Inr [], snapshot_get = (\<lambda>k. Inr (ex_store k)),
     bump_version = (\<lambda>v. Inr (case v of None \<Rightarrow> [0] | Some w \<Rightarrow> 0 # w))\<rparr>"

definition ex_prog :: kv_prog where
  "ex_prog = Do_get [1] (\<lambda>v. Do_put [2] (unwrap_or v []) (Do_get [2] (\<lambda>_. Do_delete [1] (Do_get [1] (\<lambda>_.
     Do_pop (\<lambda>_. Done))))))"

definition ex_session :: "AccessTracker Session" where
  "ex_session = \<lparr>ss_kvdb = ex_snapshot, ss_tracker = AccessTracker_new, ss_updates = [],
     ss_queue = \<lparr>qi_prefix = [9], qi_head = 0, qi_tail = 1, qi_popped = False\<rparr>\<rparr>"

lemma ex_session_new: "Session_new ex_codec ex_snapshot AccessTracker_new [9] = Inr ex_session"
  by (simp add: Session_new_def QueueInfo_new_def get_number_def ex_snapshot_def ex_store_def ex_codec_def
      head_suffix_def tail_suffix_def ex_session_def Let_def)

lemma ex_snapshot_of: "snapshot_of ex_snapshot ex_store"
  by (simp add: snapshot_of_def ex_snapshot_def)

theorem session_refines_direct_witness:
  "\<exists>s'. session_run RwTracker ex_codec ex_prog ex_session =
      Inr ([Obs_get (Some [10]), Obs_get (Some [10]), Obs_get None, Obs_pop (Some [77])], s') \<and>
    overlay ex_store (value_updates (fst (Session_commit RwTracker s'))) = ex_store([2] \<mapsto> [10], [1] := None)"
proof -
  have "direct_run ex_prog ex_store (queue_rest ex_codec ex_store (ss_queue ex_session)) =
      ([Obs_get (Some [10]), Obs_get (Some [10]), Obs_get None, Obs_pop (Some [77])],
       ex_store([2] \<mapsto> [10], [1] := None), [])"
    by (simp add: ex_prog_def queue_rest_def ex_session_def ex_store_def ex_codec_def head_suffix_def
        tail_suffix_def)
  with session_refines_direct [OF ex_snapshot_of ex_session_new, of RwTracker ex_prog] show ?thesis
    by auto
qed

end
