(* ===== verification/Rollup_Anchor.thy ===== *)
theory Rollup_Anchor
  imports Prelude
begin

text \<open>
  The anchor pallet of \<open>pallets/offchain-rollup/src/anchor.rs\<close> and its types: names claimed by
  submitters, a key-value store per name, atomic roll-up transactions and the outbound queue kept
  in the same store. A failing extrinsic leaves the storage unchanged (\<open>transactional\<close>), so a
  result is an exception or the new storage. Keys and values are byte lists: that the keys and
  values of an extrinsic have at most 128 and 2048 bytes (\<open>KeyBytes\<close>, \<open>ValueBytes\<close>) is enforced when
  it is decoded; the bounds the pallet itself checks are in \<open>queue_key\<close> and \<open>queue_set_u32\<close>. SCALE coding and the response handler
  (\<open>Config::OnResponse\<close>) are parameters in the configuration record.
\<close>

section \<open>Types and storage\<close>

datatype Cond = Cond_Eq bytes "bytes option"

datatype Action = Reply bytes | SetQueueHead u32

record RollupTx =
  rt_conds :: "Cond list"
  rt_actions :: "bytes list"
  rt_updates :: "(bytes \<times> bytes option) list"

datatype Anchor_Error =
    NameAlreadyClaimed | NameNotExist | NotOwner | CondNotMet | FailedToDecodeAction
  | QueueIsFull | InvalidQueueHead

datatype 'e anchor_exn = Anchor_err Anchor_Error | Handler_err 'e | Bad_origin | Panicked

datatype Anchor_Event = NameClaimed h256 h256 | RollupExecuted h256 h256 u128

record 'w anchor_state =
  SubmitterByNames :: "h256 \<Rightarrow> h256 option"
  States :: "h256 \<Rightarrow> bytes \<Rightarrow> bytes option"
  anchor_events :: "Anchor_Event list"
  anchor_rest :: 'w

record ('w, 'e) anchor_config =
  QueuePrefix :: bytes
  QueueCapacity :: u32
  enc_u32 :: "u32 \<Rightarrow> bytes"
  dec_u32 :: "bytes \<Rightarrow> u32 option"
  enc_arr5 :: "bytes \<Rightarrow> bytes"
  dec_action :: "bytes \<Rightarrow> Action option"
  on_response :: "h256 \<Rightarrow> h256 \<Rightarrow> bytes \<Rightarrow> 'w anchor_state \<Rightarrow> 'e + 'w anchor_state"

text \<open>The byte arrays \<open>_head\<close> and \<open>_tail\<close>.\<close>

definition head_name :: bytes where
  "head_name = [95, 104, 101, 97, 100]"

definition tail_name :: bytes where
  "tail_name = [95, 116, 97, 105, 108]"

section \<open>Queue helpers\<close>

definition states_insert :: "h256 \<Rightarrow> bytes \<Rightarrow> bytes \<Rightarrow> 'w anchor_state \<Rightarrow> 'w anchor_state" where
  "states_insert name key v s = s\<lparr>States := (States s)(name := (States s name)(key \<mapsto> v))\<rparr>"

definition states_remove :: "h256 \<Rightarrow> bytes \<Rightarrow> 'w anchor_state \<Rightarrow> 'w anchor_state" where
  "states_remove name key s = s\<lparr>States := (States s)(name := (States s name)(key := None))\<rparr>"

text \<open>The argument is the encoded index; a key longer than 128 bytes panics.\<close>

definition queue_key :: "('w, 'e) anchor_config \<Rightarrow> bytes \<Rightarrow> 'e anchor_exn + bytes" where
  "queue_key cfg index =
     (let key = QueuePrefix cfg @ index in if length key \<le> 128 then Inr key else Inl Panicked)"

definition queue_set ::
  "('w, 'e) anchor_config \<Rightarrow> h256 \<Rightarrow> bytes \<Rightarrow> bytes \<Rightarrow> 'w anchor_state \<Rightarrow> 'e anchor_exn + 'w anchor_state" where
  "queue_set cfg name index data s =
     bind_res (queue_key cfg index) (\<lambda>key. Inr (states_insert name key data s))"

definition queue_get ::
  "('w, 'e) anchor_config \<Rightarrow> h256 \<Rightarrow> bytes \<Rightarrow> 'w anchor_state \<Rightarrow> 'e anchor_exn + bytes option" where
  "queue_get cfg name index s = bind_res (queue_key cfg index) (\<lambda>key. Inr (States s name key))"

definition queue_remove ::
  "('w, 'e) anchor_config \<Rightarrow> h256 \<Rightarrow> bytes \<Rightarrow> 'w anchor_state \<Rightarrow> 'e anchor_exn + 'w anchor_state" where
  "queue_remove cfg name index s =
     bind_res (queue_key cfg index) (\<lambda>key. Inr (states_remove name key s))"

text \<open>\<open>None\<close> is a decoding error.\<close>

definition queue_get_u32 ::
  "('w, 'e) anchor_config \<Rightarrow> h256 \<Rightarrow> bytes \<Rightarrow> 'w anchor_state \<Rightarrow> 'e anchor_exn + u32 option" where
  "queue_get_u32 cfg name index s =
     bind_res (queue_get cfg name (enc_arr5 cfg index) s) (\<lambda>v. case v of
         None \<Rightarrow> Inr (Some 0)
       | Some b \<Rightarrow> Inr (dec_u32 cfg b))"

definition queue_set_u32 ::
  "('w, 'e) anchor_config \<Rightarrow> h256 \<Rightarrow> bytes \<Rightarrow> u32 \<Rightarrow> 'w anchor_state \<Rightarrow> 'e anchor_exn + 'w anchor_state" where
  "queue_set_u32 cfg name index v s =
     (if length (enc_u32 cfg v) \<le> 2048 then queue_set cfg name (enc_arr5 cfg index) (enc_u32 cfg v) s
      else Inl Panicked)"

definition Anchor_queue_head :: "('w, 'e) anchor_config \<Rightarrow> h256 \<Rightarrow> 'w anchor_state \<Rightarrow> 'e anchor_exn + u32" where
  "Anchor_queue_head cfg name s =
     bind_res (queue_get_u32 cfg name head_name s) (\<lambda>v. ok_or v Panicked)"

definition Anchor_queue_tail :: "('w, 'e) anchor_config \<Rightarrow> h256 \<Rightarrow> 'w anchor_state \<Rightarrow> 'e anchor_exn + u32" where
  "Anchor_queue_tail cfg name s =
     bind_res (queue_get_u32 cfg name tail_name s) (\<lambda>v. ok_or v Panicked)"

definition Anchor_queue_len :: "('w, 'e) anchor_config \<Rightarrow> h256 \<Rightarrow> 'w anchor_state \<Rightarrow> 'e anchor_exn + u32" where
  "Anchor_queue_len cfg name s =
     bind_res (Anchor_queue_tail cfg name s) (\<lambda>t.
     bind_res (Anchor_queue_head cfg name s) (\<lambda>h. Inr (saturating_sub t h)))"

definition queue_head_set ::
  "('w, 'e) anchor_config \<Rightarrow> h256 \<Rightarrow> u32 \<Rightarrow> 'w anchor_state \<Rightarrow> 'e anchor_exn + 'w anchor_state" where
  "queue_head_set cfg name index s =
     bind_res (Anchor_queue_head cfg name s) (\<lambda>head.
     bind_res (Anchor_queue_tail cfg name s) (\<lambda>tail.
     bind_res (ensure (head \<le> index \<and> index \<le> tail) (Anchor_err InvalidQueueHead)) (\<lambda>_.
     bind_res (foldM_res (\<lambda>s i. queue_remove cfg name (enc_u32 cfg (of_nat i)) s) s
         [unat head ..< unat index]) (\<lambda>s.
     queue_set_u32 cfg name head_name index s))))"

definition queue_tail_set ::
  "('w, 'e) anchor_config \<Rightarrow> h256 \<Rightarrow> u32 \<Rightarrow> 'w anchor_state \<Rightarrow> 'e anchor_exn + 'w anchor_state" where
  "queue_tail_set cfg name index s = queue_set_u32 cfg name tail_name index s"

definition Anchor_push_message ::
  "('w, 'e) anchor_config \<Rightarrow> h256 \<Rightarrow> bytes \<Rightarrow> 'w anchor_state \<Rightarrow> 'e anchor_exn + u32 \<times> 'w anchor_state" where
  "Anchor_push_message cfg name data s =
     bind_res (ensure (SubmitterByNames s name \<noteq> None) (Anchor_err NameNotExist)) (\<lambda>_.
     bind_res (Anchor_queue_len cfg name s) (\<lambda>len.
     bind_res (ensure (len < QueueCapacity cfg) (Anchor_err QueueIsFull)) (\<lambda>_.
     bind_res (Anchor_queue_tail cfg name s) (\<lambda>end_pos.
     bind_res (queue_set cfg name (enc_u32 cfg end_pos) data s) (\<lambda>s.
     bind_res (queue_tail_set cfg name (end_pos + 1) s) (\<lambda>s.
     Inr (end_pos, s)))))))"

section \<open>Extrinsics\<close>

text \<open>\<open>Some who\<close> is a signed origin.\<close>

type_synonym anchor_origin = "h256 option"

definition deposit_event :: "Anchor_Event \<Rightarrow> 'w anchor_state \<Rightarrow> 'w anchor_state" where
  "deposit_event e s = s\<lparr>anchor_events := anchor_events s @ [e]\<rparr>"

definition Anchor_claim_name ::
  "anchor_origin \<Rightarrow> h256 \<Rightarrow> 'w anchor_state \<Rightarrow> 'e anchor_exn + 'w anchor_state" where
  "Anchor_claim_name origin name s =
     bind_res (ok_or origin Bad_origin) (\<lambda>who.
     bind_res (ensure (SubmitterByNames s name = None) (Anchor_err NameAlreadyClaimed)) (\<lambda>_.
     Inr (deposit_event (NameClaimed who name)
            (s\<lparr>SubmitterByNames := (SubmitterByNames s)(name \<mapsto> who)\<rparr>))))"

definition ensure_name_owner :: "h256 \<Rightarrow> h256 \<Rightarrow> 'w anchor_state \<Rightarrow> 'e anchor_exn + unit" where
  "ensure_name_owner name caller s =
     bind_res (ok_or (SubmitterByNames s name) (Anchor_err NameNotExist)) (\<lambda>owner.
     ensure (owner = caller) (Anchor_err NotOwner))"

fun check_cond :: "h256 \<Rightarrow> 'w anchor_state \<Rightarrow> unit \<Rightarrow> Cond \<Rightarrow> 'e anchor_exn + unit" where
  "check_cond name s _ (Cond_Eq key opt_value) = ensure (States s name key = opt_value) (Anchor_err CondNotMet)"

fun apply_update :: "h256 \<Rightarrow> bytes \<times> bytes option \<Rightarrow> 'w anchor_state \<Rightarrow> 'w anchor_state" where
  "apply_update name (key, Some v) s = states_insert name key v s"
| "apply_update name (key, None) s = states_remove name key s"

definition exec_action ::
  "('w, 'e) anchor_config \<Rightarrow> h256 \<Rightarrow> h256 \<Rightarrow> 'w anchor_state \<Rightarrow> bytes \<Rightarrow> 'e anchor_exn + 'w anchor_state" where
  "exec_action cfg name who s raw_act =
     bind_res (ok_or (dec_action cfg raw_act) (Anchor_err FailedToDecodeAction)) (\<lambda>act.
       case act of
         Reply data \<Rightarrow> map_sum Handler_err (\<lambda>s. s) (on_response cfg name who data s)
       | SetQueueHead head \<Rightarrow> queue_head_set cfg name head s)"

definition Anchor_rollup ::
  "('w, 'e) anchor_config \<Rightarrow> anchor_origin \<Rightarrow> h256 \<Rightarrow> RollupTx \<Rightarrow> u128 \<Rightarrow> 'w anchor_state \<Rightarrow>
   'e anchor_exn + 'w anchor_state" where
  "Anchor_rollup cfg origin name tx nonce s =
     bind_res (ok_or origin Bad_origin) (\<lambda>who.
     bind_res (ensure_name_owner name who s) (\<lambda>_.
     bind_res (foldM_res (check_cond name s) () (rt_conds tx)) (\<lambda>_.
     bind_res (foldM_res (exec_action cfg name who) (fold (apply_update name) (rt_updates tx) s)
         (rt_actions tx)) (\<lambda>s.
     Inr (deposit_event (RollupExecuted who name nonce) s)))))"

section \<open>Evaluation of the queue\<close>

text \<open>
  What the queue relies on of the SCALE codec: a \<open>u32\<close> takes four bytes and decodes to itself, a
  byte array encodes as its bytes. The configured prefix leaves room for the longest index.
\<close>

definition scale_ok :: "('w, 'e) anchor_config \<Rightarrow> bool" where
  "scale_ok cfg \<longleftrightarrow>
     (\<forall>x. dec_u32 cfg (enc_u32 cfg x) = Some x \<and> length (enc_u32 cfg x) = 4) \<and>
     (\<forall>a. length a = 5 \<longrightarrow> enc_arr5 cfg a = a) \<and> length (QueuePrefix cfg) + 5 \<le> 128"

definition item_key :: "('w, 'e) anchor_config \<Rightarrow> u32 \<Rightarrow> bytes" where
  "item_key cfg i = QueuePrefix cfg @ enc_u32 cfg i"

definition head_key :: "('w, 'e) anchor_config \<Rightarrow> bytes" where
  "head_key cfg = QueuePrefix cfg @ head_name"

definition tail_key :: "('w, 'e) anchor_config \<Rightarrow> bytes" where
  "tail_key cfg = QueuePrefix cfg @ tail_name"

definition store_u32 :: "('w, 'e) anchor_config \<Rightarrow> (bytes \<Rightarrow> bytes option) \<Rightarrow> bytes \<Rightarrow> u32 option" where
  "store_u32 cfg m key = (case m key of None \<Rightarrow> Some 0 | Some b \<Rightarrow> dec_u32 cfg b)"

definition queue_at :: "('w, 'e) anchor_config \<Rightarrow> (bytes \<Rightarrow> bytes option) \<Rightarrow> u32 \<Rightarrow> u32 \<Rightarrow> bool" where
  "queue_at cfg m h t \<longleftrightarrow>
     store_u32 cfg m (head_key cfg) = Some h \<and> store_u32 cfg m (tail_key cfg) = Some t \<and> h \<le> t"

definition queue_contents ::
  "('w, 'e) anchor_config \<Rightarrow> (bytes \<Rightarrow> bytes option) \<Rightarrow> u32 \<Rightarrow> u32 \<Rightarrow> bytes option list" where
  "queue_contents cfg m h t = map (\<lambda>i. m (item_key cfg (of_nat i))) [unat h ..< unat t]"

definition drop_items ::
  "('w, 'e) anchor_config \<Rightarrow> nat list \<Rightarrow> (bytes \<Rightarrow> bytes option) \<Rightarrow> bytes \<Rightarrow> bytes option" where
  "drop_items cfg is m = fold (\<lambda>i m. m(item_key cfg (of_nat i) := None)) is m"

definition with_store :: "h256 \<Rightarrow> (bytes \<Rightarrow> bytes option) \<Rightarrow> 'w anchor_state \<Rightarrow> 'w anchor_state" where
  "with_store name m s = s\<lparr>States := (States s)(name := m)\<rparr>"

lemma with_store_simps [simp]:
  "States (with_store name m s) = (States s)(name := m)"
  "SubmitterByNames (with_store name m s) = SubmitterByNames s"
  "anchor_events (with_store name m s) = anchor_events s"
  "anchor_rest (with_store name m s) = anchor_rest s"
  "with_store name m (with_store name m' s) = with_store name m s"
  "with_store name (States s name) s = s"
  by (simp_all add: with_store_def)

lemma states_insert_store: "states_insert name k v s = with_store name ((States s name)(k \<mapsto> v)) s"
  by (simp add: states_insert_def with_store_def)

lemma states_remove_store: "states_remove name k s = with_store name ((States s name)(k := None)) s"
  by (simp add: states_remove_def with_store_def)

lemma name_lengths [simp]: "length head_name = 5" "length tail_name = 5" "head_name \<noteq> tail_name" "tail_name \<noteq> head_name"
  by (simp_all add: head_name_def tail_name_def)

lemma item_key_inject [simp]: "scale_ok cfg \<Longrightarrow> item_key cfg i = item_key cfg j \<longleftrightarrow> i = j"
  unfolding item_key_def scale_ok_def by (metis option.inject same_append_eq)

lemma item_key_distinct [simp]:
  assumes "scale_ok cfg"
  shows "item_key cfg i \<noteq> head_key cfg" "item_key cfg i \<noteq> tail_key cfg"
    "head_key cfg \<noteq> item_key cfg i" "tail_key cfg \<noteq> item_key cfg i"
    "head_key cfg \<noteq> tail_key cfg" "tail_key cfg \<noteq> head_key cfg"
proof -
  have "length (enc_u32 cfg i) \<noteq> length head_name" "length (enc_u32 cfg i) \<noteq> length tail_name"
    using assms by (simp_all add: scale_ok_def)
  then show "item_key cfg i \<noteq> head_key cfg" "item_key cfg i \<noteq> tail_key cfg"
    "head_key cfg \<noteq> item_key cfg i" "tail_key cfg \<noteq> item_key cfg i"
    "head_key cfg \<noteq> tail_key cfg" "tail_key cfg \<noteq> head_key cfg"
    by (auto simp: item_key_def head_key_def tail_key_def)
qed

lemma queue_key_eval [simp]:
  "scale_ok cfg \<Longrightarrow> queue_key cfg (enc_u32 cfg i) = Inr (item_key cfg i)"
  "scale_ok cfg \<Longrightarrow> queue_key cfg (enc_arr5 cfg head_name) = Inr (head_key cfg)"
  "scale_ok cfg \<Longrightarrow> queue_key cfg (enc_arr5 cfg tail_name) = Inr (tail_key cfg)"
  by (simp_all add: queue_key_def scale_ok_def item_key_def head_key_def tail_key_def Let_def)

lemma queue_head_eval:
  "scale_ok cfg \<Longrightarrow> Anchor_queue_head cfg name s = ok_or (store_u32 cfg (States s name) (head_key cfg)) Panicked"
  by (simp add: Anchor_queue_head_def queue_get_u32_def queue_get_def store_u32_def split: option.split)

lemma queue_tail_eval:
  "scale_ok cfg \<Longrightarrow> Anchor_queue_tail cfg name s = ok_or (store_u32 cfg (States s name) (tail_key cfg)) Panicked"
  by (simp add: Anchor_queue_tail_def queue_get_u32_def queue_get_def store_u32_def split: option.split)

lemma queue_set_u32_eval:
  assumes "scale_ok cfg"
  shows "queue_set_u32 cfg name head_name v s = Inr (with_store name ((States s name)(head_key cfg \<mapsto> enc_u32 cfg v)) s)"
    and "queue_set_u32 cfg name tail_name v s = Inr (with_store name ((States s name)(tail_key cfg \<mapsto> enc_u32 cfg v)) s)"
proof -
  have "length (enc_u32 cfg v) \<le> 2048" using assms by (simp add: scale_ok_def)
  then show "queue_set_u32 cfg name head_name v s = Inr (with_store name ((States s name)(head_key cfg \<mapsto> enc_u32 cfg v)) s)"
    and "queue_set_u32 cfg name tail_name v s = Inr (with_store name ((States s name)(tail_key cfg \<mapsto> enc_u32 cfg v)) s)"
    using assms by (simp_all add: queue_set_u32_def queue_set_def states_insert_store)
qed

lemma push_message_eval:
  assumes "scale_ok cfg" and "queue_at cfg (States s name) h t"
  shows "Anchor_push_message cfg name data s =
    (if SubmitterByNames s name = None then Inl (Anchor_err NameNotExist)
     else if \<not> t - h < QueueCapacity cfg then Inl (Anchor_err QueueIsFull)
     else Inr (t, with_store name ((States s name)(item_key cfg t \<mapsto> data, tail_key cfg \<mapsto> enc_u32 cfg (t + 1))) s))"
  using assms
  by (auto simp: Anchor_push_message_def Anchor_queue_len_def queue_head_eval queue_tail_eval queue_at_def
      queue_set_def queue_tail_set_def queue_set_u32_eval states_insert_store saturating_sub_def ensure_eq_Inl
      res_simps split: if_splits)

lemma remove_items_eval:
  assumes "scale_ok cfg"
  shows "foldM_res (\<lambda>s i. queue_remove cfg name (enc_u32 cfg (of_nat i)) s) s is =
    Inr (with_store name (drop_items cfg is (States s name)) s)"
proof (induction "is" arbitrary: s)
  case Nil
  show ?case by (simp add: drop_items_def)
next
  case (Cons i "is")
  then show ?case by (simp add: assms queue_remove_def states_remove_store drop_items_def)
qed

lemma queue_head_set_eval:
  assumes "scale_ok cfg" and "queue_at cfg (States s name) h t"
  shows "queue_head_set cfg name idx s =
    (if h \<le> idx \<and> idx \<le> t
     then Inr (with_store name ((drop_items cfg [unat h ..< unat idx] (States s name))(head_key cfg \<mapsto> enc_u32 cfg idx)) s)
     else Inl (Anchor_err InvalidQueueHead))"
  using assms
  by (simp add: queue_head_set_def queue_head_eval queue_tail_eval queue_at_def remove_items_eval
      queue_set_u32_eval ensure_eq_Inl res_simps)

lemma drop_items_at:
  "drop_items cfg is m k = (if \<exists>i \<in> set is. k = item_key cfg (of_nat i) then None else m k)"
  unfolding drop_items_def by (induction "is" arbitrary: m) auto

lemma queue_at_push:
  assumes "scale_ok cfg" and "queue_at cfg m h t" and "t \<noteq> - 1"
  shows "queue_at cfg (m(item_key cfg t \<mapsto> data, tail_key cfg \<mapsto> enc_u32 cfg (t + 1))) h (t + 1)"
  using assms word_less_Suc [OF assms(3)]
  by (auto simp: queue_at_def store_u32_def scale_ok_def)

lemma contents_push:
  assumes "scale_ok cfg" and "queue_at cfg m h t" and "t \<noteq> - 1"
  shows "queue_contents cfg (m(item_key cfg t \<mapsto> data, tail_key cfg \<mapsto> enc_u32 cfg (t + 1))) h (t + 1) =
    queue_contents cfg m h t @ [Some data]"
proof -
  have "unat h \<le> unat t" using assms(2) by (simp add: queue_at_def word_le_nat_alt)
  then show ?thesis
    using assms(1) of_nat_neq_above [of _ t] unfolding queue_contents_def unat_Suc_word [OF assms(3)] by (auto simp: scale_ok_def)
qed

lemma queue_at_head_set:
  assumes "scale_ok cfg" and "queue_at cfg m h t" and "h \<le> idx" and "idx \<le> t"
  shows "queue_at cfg ((drop_items cfg [unat h ..< unat idx] m)(head_key cfg \<mapsto> enc_u32 cfg idx)) idx t"
  using assms item_key_distinct [OF assms(1)]
  by (auto simp: queue_at_def store_u32_def drop_items_at scale_ok_def)

lemma contents_head_set:
  assumes "scale_ok cfg" and "queue_at cfg m h t" and "h \<le> idx" and "idx \<le> t"
  shows "queue_contents cfg ((drop_items cfg [unat h ..< unat idx] m)(head_key cfg \<mapsto> enc_u32 cfg idx)) idx t =
    drop (unat idx - unat h) (queue_contents cfg m h t)"
proof -
  have le: "unat h \<le> unat idx" "unat idx \<le> unat t" using assms(3,4) by (simp_all add: word_le_nat_alt)
  have "(of_nat i :: u32) \<noteq> of_nat j" if "j < unat idx" and "unat idx \<le> i" and "i < unat t" for i j
    using that of_nat_eq_word [of i j, where 'a = 32] unat_less_word [of t] by simp
  then show ?thesis using assms(1) le
    by (auto simp: queue_contents_def drop_map drop_upt drop_items_at)
qed

section \<open>What a roll-up does\<close>

lemma check_conds_Inr:
  "foldM_res (check_cond name s) () cs = (Inr () :: 'e anchor_exn + unit) \<longleftrightarrow>
     (\<forall>k v. Cond_Eq k v \<in> set cs \<longrightarrow> States s name k = v)"
proof (induction cs)
  case (Cons c cs)
  then show ?case by (cases c) auto
qed auto

lemma Anchor_rollup_Inr:
  "Anchor_rollup cfg origin name tx nonce s = Inr s' \<longleftrightarrow>
     (\<exists>who s1. origin = Some who \<and> SubmitterByNames s name = Some who \<and>
        (\<forall>k v. Cond_Eq k v \<in> set (rt_conds tx) \<longrightarrow> States s name k = v) \<and>
        foldM_res (exec_action cfg name who) (fold (apply_update name) (rt_updates tx) s) (rt_actions tx) = Inr s1 \<and>
        s' = deposit_event (RollupExecuted who name nonce) s1)"
  by (auto simp: Anchor_rollup_def ensure_name_owner_def check_conds_Inr)

lemma deposit_event_simps [simp]:
  "States (deposit_event e s) = States s" "SubmitterByNames (deposit_event e s) = SubmitterByNames s"
  "anchor_rest (deposit_event e s) = anchor_rest s" "anchor_events (deposit_event e s) = anchor_events s @ [e]"
  by (simp_all add: deposit_event_def)

definition apply_to_store :: "(bytes \<times> bytes option) list \<Rightarrow> (bytes \<Rightarrow> bytes option) \<Rightarrow> bytes \<Rightarrow> bytes option" where
  "apply_to_store us m = fold (\<lambda>(k, v) m. m(k := v)) us m"

lemma apply_updates_store:
  "fold (apply_update name) us s = with_store name (apply_to_store us (States s name)) s"
proof (induction us arbitrary: s)
  case Nil
  show ?case by (simp add: apply_to_store_def)
next
  case (Cons u us)
  obtain k v where "u = (k, v)" by fastforce
  with Cons show ?case
    by (cases v) (simp_all add: apply_to_store_def states_insert_store states_remove_store)
qed

text \<open>A handler that leaves the anchor's own storage alone.\<close>

definition handler_keeps_anchor :: "('w, 'e) anchor_config \<Rightarrow> bool" where
  "handler_keeps_anchor cfg \<longleftrightarrow> (\<forall>name who data s s'. on_response cfg name who data s = Inr s' \<longrightarrow>
     States s' = States s \<and> SubmitterByNames s' = SubmitterByNames s)"

lemma remove_fold_keeps:
  assumes "foldM_res (\<lambda>s i. queue_remove cfg name (f i) s) s is = Inr s'"
  shows "SubmitterByNames s' = SubmitterByNames s \<and> (\<forall>n. n \<noteq> name \<longrightarrow> States s' n = States s n)"
  using assms
proof (induction "is" arbitrary: s)
  case (Cons i "is")
  then obtain k where "foldM_res (\<lambda>s i. queue_remove cfg name (f i) s) (states_remove name k s) is = Inr s'"
    by (auto simp: queue_remove_def)
  from Cons.IH [OF this] show ?case by (simp add: states_remove_store)
qed simp

lemma queue_head_set_keeps:
  assumes "queue_head_set cfg name idx s = Inr s'"
  shows "SubmitterByNames s' = SubmitterByNames s \<and> (\<forall>n. n \<noteq> name \<longrightarrow> States s' n = States s n)"
proof -
  obtain head :: u32 and s1 where "foldM_res (\<lambda>s i. queue_remove cfg name (enc_u32 cfg (of_nat i)) s) s
      [unat head ..< unat idx] = Inr s1" and "queue_set_u32 cfg name head_name idx s1 = Inr s'"
    using assms by (auto simp: queue_head_set_def)
  then show ?thesis
    using remove_fold_keeps [of cfg name "\<lambda>i. enc_u32 cfg (of_nat i)"]
    by (auto simp: queue_set_u32_def queue_set_def states_insert_store split: if_splits)
qed

lemma exec_action_keeps:
  assumes "handler_keeps_anchor cfg" and "exec_action cfg name who s a = Inr s'"
  shows "SubmitterByNames s' = SubmitterByNames s \<and> (\<forall>n. n \<noteq> name \<longrightarrow> States s' n = States s n)"
proof -
  obtain act where "dec_action cfg a = Some act" and act: "(case act of
         Reply data \<Rightarrow> map_sum Handler_err (\<lambda>s. s) (on_response cfg name who data s)
       | SetQueueHead head \<Rightarrow> queue_head_set cfg name head s) = Inr s'"
    using assms(2) by (auto simp: exec_action_def)
  show ?thesis
  proof (cases act)
    case (Reply data)
    with act have "on_response cfg name who data s = Inr s'"
      by (cases "on_response cfg name who data s") auto
    then show ?thesis using assms(1) by (auto simp: handler_keeps_anchor_def)
  next
    case (SetQueueHead head)
    with act show ?thesis using queue_head_set_keeps [of cfg name head s s'] by simp
  qed
qed

lemma exec_actions_keep:
  assumes "handler_keeps_anchor cfg" and "foldM_res (exec_action cfg name who) s as = Inr s'"
  shows "SubmitterByNames s' = SubmitterByNames s \<and> (\<forall>n. n \<noteq> name \<longrightarrow> States s' n = States s n)"
  using assms(2)
proof (induction as arbitrary: s)
  case (Cons a as)
  then obtain s1 where "exec_action cfg name who s a = Inr s1"
    and "foldM_res (exec_action cfg name who) s1 as = Inr s'" by auto
  with Cons.IH exec_action_keeps [OF assms(1)] show ?case by metis
qed simp

lemma rollup_keeps:
  assumes "handler_keeps_anchor cfg" and "Anchor_rollup cfg origin name tx nonce s = Inr s'"
  shows "SubmitterByNames s' = SubmitterByNames s \<and> (\<forall>n. n \<noteq> name \<longrightarrow> States s' n = States s n)"
proof -
  from assms(2) obtain who s1 where
    "foldM_res (exec_action cfg name who) (fold (apply_update name) (rt_updates tx) s) (rt_actions tx) = Inr s1"
    and "s' = deposit_event (RollupExecuted who name nonce) s1" by (auto simp: Anchor_rollup_Inr)
  with exec_actions_keep [OF assms(1), of name who _ "rt_actions tx" s1] show ?thesis
    by (auto simp: apply_updates_store)
qed

text \<open>Histories of the pallet: its two extrinsics and pushes by other pallets; failures change nothing.\<close>

datatype anchor_op =
    Op_claim anchor_origin h256
  | Op_rollup anchor_origin h256 RollupTx u128
  | Op_push h256 bytes

fun anchor_step :: "('w, 'e) anchor_config \<Rightarrow> anchor_op \<Rightarrow> 'w anchor_state \<Rightarrow> 'w anchor_state" where
  "anchor_step cfg (Op_claim origin name) s =
     (case Anchor_claim_name origin name s of Inl (_ :: 'e anchor_exn) \<Rightarrow> s | Inr s' \<Rightarrow> s')"
| "anchor_step cfg (Op_rollup origin name tx nonce) s =
     (case Anchor_rollup cfg origin name tx nonce s of Inl _ \<Rightarrow> s | Inr s' \<Rightarrow> s')"
| "anchor_step cfg (Op_push name data) s =
     (case Anchor_push_message cfg name data s of Inl _ \<Rightarrow> s | Inr (_, s') \<Rightarrow> s')"

lemma push_keeps:
  assumes "Anchor_push_message cfg name data s = Inr (i, s')"
  shows "SubmitterByNames s' = SubmitterByNames s \<and> (\<forall>n. n \<noteq> name \<longrightarrow> States s' n = States s n) \<and>
    SubmitterByNames s name \<noteq> None"
  using assms by (auto simp: Anchor_push_message_def queue_set_def queue_tail_set_def queue_set_u32_def
      states_insert_store split: if_splits)

lemma anchor_step_owner:
  assumes "handler_keeps_anchor cfg" and "SubmitterByNames s name = Some who"
  shows "SubmitterByNames (anchor_step cfg op s) name = Some who"
proof (cases op)
  case (Op_claim origin n)
  then show ?thesis using assms(2) by (auto simp: Anchor_claim_name_def split: sum.split)
next
  case (Op_rollup origin n tx nonce)
  show ?thesis
  proof (cases "Anchor_rollup cfg origin n tx nonce s")
    case (Inr s')
    with rollup_keeps [OF assms(1) Inr] Op_rollup assms(2) show ?thesis by simp
  qed (use Op_rollup assms(2) in simp)
next
  case (Op_push n data)
  show ?thesis
  proof (cases "Anchor_push_message cfg n data s")
    case (Inr r)
    obtain i s' where "r = (i, s')" by fastforce
    with push_keeps [of cfg n data s i s'] Inr Op_push assms(2) show ?thesis by simp
  qed (use Op_push assms(2) in simp)
qed

text \<open>Who may change a store in a step.\<close>

fun op_authorized :: "h256 \<Rightarrow> h256 \<Rightarrow> anchor_op \<Rightarrow> bool" where
  "op_authorized name who (Op_rollup origin n _ _) \<longleftrightarrow> origin = Some who \<and> n = name"
| "op_authorized name who (Op_push n _) \<longleftrightarrow> n = name"
| "op_authorized name who (Op_claim _ _) \<longleftrightarrow> False"

lemma anchor_step_store:
  assumes "handler_keeps_anchor cfg" and "States (anchor_step cfg op s) name \<noteq> States s name"
  shows "\<exists>who. SubmitterByNames s name = Some who \<and> op_authorized name who op"
proof (cases op)
  case (Op_claim origin n)
  with assms(2) show ?thesis by (auto simp: Anchor_claim_name_def split: sum.splits)
next
  case (Op_rollup origin n tx nonce)
  with assms obtain s' where "Anchor_rollup cfg origin n tx nonce s = Inr s'" and "States s' name \<noteq> States s name"
    by (auto split: sum.splits)
  with rollup_keeps [OF assms(1), of origin n tx nonce s s'] have "n = name" by auto
  with \<open>Anchor_rollup cfg origin n tx nonce s = Inr s'\<close> Op_rollup show ?thesis
    by (auto simp: Anchor_rollup_Inr)
next
  case (Op_push n data)
  with assms obtain i s' where "Anchor_push_message cfg n data s = Inr (i, s')" and "States s' name \<noteq> States s name"
    by (auto split: sum.splits)
  with push_keeps [of cfg n data s i s'] have "n = name" "SubmitterByNames s name \<noteq> None" by auto
  with Op_push show ?thesis by auto
qed

section \<open>Properties\<close>

text \<open>
  C18: Ownership and access control over every history. Once a name is claimed its owner never
  changes, and whenever a later step changes the store of that name, the step was a roll-up for
  that name signed by that owner, or a push of a message to its queue. Hypothesis: the response
  handler leaves the anchor's storage alone.
\<close>

theorem anchor_owner_permanent:
  assumes "handler_keeps_anchor cfg" and "SubmitterByNames s name = Some who"
  shows "SubmitterByNames (fold (anchor_step cfg) ops s) name = Some who \<and>
    (States (anchor_step cfg op (fold (anchor_step cfg) ops s)) name \<noteq> States (fold (anchor_step cfg) ops s) name \<longrightarrow>
      op_authorized name who op)"
proof -
  have "SubmitterByNames (fold (anchor_step cfg) ops s) name = Some who"
    by (rule fold_invariant_mem [of "\<lambda>s. SubmitterByNames s name = Some who"])
      (use assms anchor_step_owner [OF assms(1)] in auto)
  with anchor_step_store [OF assms(1), of op "fold (anchor_step cfg) ops s" name] show ?thesis by auto
qed

text \<open>
  C19: The queue kept in the store is a first-in first-out queue with stable positions. A push to a
  claimed name with room appends the message and returns its position, a full queue or an unknown
  name is refused; moving the head within the queue drops exactly the messages before it, any
  other head is refused.
\<close>

theorem anchor_queue_fifo:
  assumes "scale_ok cfg" and "queue_at cfg (States s name) h t" and "t \<noteq> - 1"
  shows "(case Anchor_push_message cfg name data s of
      Inr (i, s') \<Rightarrow> SubmitterByNames s name \<noteq> None \<and> t - h < QueueCapacity cfg \<and> i = t \<and>
        queue_at cfg (States s' name) h (t + 1) \<and>
        queue_contents cfg (States s' name) h (t + 1) = queue_contents cfg (States s name) h t @ [Some data]
    | Inl e \<Rightarrow> (e = Anchor_err NameNotExist \<and> SubmitterByNames s name = None) \<or>
        (e = Anchor_err QueueIsFull \<and> QueueCapacity cfg \<le> t - h)) \<and>
    (case queue_head_set cfg name idx s of
      Inr s' \<Rightarrow> h \<le> idx \<and> idx \<le> t \<and> queue_at cfg (States s' name) idx t \<and>
        queue_contents cfg (States s' name) idx t = drop (unat idx - unat h) (queue_contents cfg (States s name) h t)
    | Inl e \<Rightarrow> e = Anchor_err InvalidQueueHead \<and> \<not> (h \<le> idx \<and> idx \<le> t))"
proof -
  have push: "case Anchor_push_message cfg name data s of
      Inr (i, s') \<Rightarrow> SubmitterByNames s name \<noteq> None \<and> t - h < QueueCapacity cfg \<and> i = t \<and>
        queue_at cfg (States s' name) h (t + 1) \<and>
        queue_contents cfg (States s' name) h (t + 1) = queue_contents cfg (States s name) h t @ [Some data]
    | Inl e \<Rightarrow> (e = Anchor_err NameNotExist \<and> SubmitterByNames s name = None) \<or>
        (e = Anchor_err QueueIsFull \<and> QueueCapacity cfg \<le> t - h)"
    using queue_at_push [OF assms] contents_push [OF assms]
    by (auto simp: push_message_eval [OF assms(1,2)] not_less)
  have "case queue_head_set cfg name idx s of
      Inr s' \<Rightarrow> h \<le> idx \<and> idx \<le> t \<and> queue_at cfg (States s' name) idx t \<and>
        queue_contents cfg (States s' name) idx t = drop (unat idx - unat h) (queue_contents cfg (States s name) h t)
    | Inl e \<Rightarrow> e = Anchor_err InvalidQueueHead \<and> \<not> (h \<le> idx \<and> idx \<le> t)"
    using queue_at_head_set [OF assms(1,2), of idx] contents_head_set [OF assms(1,2), of idx]
    by (simp add: queue_head_set_eval [OF assms(1,2)])
  with push show ?thesis by (rule conjI)
qed

text \<open>
  C34: An accepted roll-up can make the queue unusable. Nothing keeps the updates of a roll-up off the
  keys of the queue, so the owner of a name can store undecodable bytes as the tail: there is one
  roll-up after which a push of whatever message to that name panics instead of returning an error.
  Hypotheses: the laws of the number codec, and that decoding a number from no bytes fails.
\<close>

theorem rollup_can_break_queue:
  assumes "scale_ok cfg" and "dec_u32 cfg [] = None" and "SubmitterByNames s name = Some who"
  shows "\<exists>tx s'. Anchor_rollup cfg (Some who) name tx nonce s = Inr s' \<and>
    (\<forall>data. Anchor_push_message cfg name data s' = Inl Panicked)"
proof -
  define tx where "tx = \<lparr>rt_conds = [], rt_actions = [], rt_updates = [(tail_key cfg, Some [])]\<rparr>"
  define s' where "s' = deposit_event (RollupExecuted who name nonce)
      (with_store name ((States s name)(tail_key cfg \<mapsto> [])) s)"
  have "Anchor_rollup cfg (Some who) name tx nonce s = Inr s'"
    using assms(3) by (simp add: Anchor_rollup_Inr tx_def s'_def states_insert_store)
  moreover have "SubmitterByNames s' name \<noteq> None" and "store_u32 cfg (States s' name) (tail_key cfg) = None"
    using assms by (simp_all add: s'_def store_u32_def)
  then have "Anchor_push_message cfg name data s' = Inl Panicked" for data
    by (simp add: Anchor_push_message_def Anchor_queue_len_def queue_tail_eval [OF assms(1)] res_simps)
  ultimately show ?thesis by blast
qed

section \<open>Witnesses\<close>

definition ex_anchor_cfg :: "(unit, unit) anchor_config" where
  "ex_anchor_cfg = \<lparr>QueuePrefix = [113, 47], QueueCapacity = 8, enc_u32 = le_u32, dec_u32 = un_le_u32,
     enc_arr5 = (\<lambda>a. a), dec_action = (\<lambda>b. map_option SetQueueHead (un_le_u32 b)),
     on_response = (\<lambda>_ _ _ s. Inr s)\<rparr>"

definition ex_anchor :: "unit anchor_state" where
  "ex_anchor = \<lparr>SubmitterByNames = [5 \<mapsto> 7], States = (\<lambda>_ _. None), anchor_events = [], anchor_rest = ()\<rparr>"

lemma ex_anchor_ok: "scale_ok ex_anchor_cfg" "handler_keeps_anchor ex_anchor_cfg"
  "queue_at ex_anchor_cfg (States ex_anchor 5) 0 0"
  by (simp_all add: scale_ok_def ex_anchor_cfg_def le_u32_roundtrip handler_keeps_anchor_def
      queue_at_def store_u32_def ex_anchor_def)

theorem anchor_owner_permanent_witness:
  "SubmitterByNames (fold (anchor_step ex_anchor_cfg) [Op_claim (Some 8) 5, Op_push 5 [1]] ex_anchor) 5 = Some 7"
  using anchor_owner_permanent [OF ex_anchor_ok(2), of ex_anchor 5 7 "[Op_claim (Some 8) 5, Op_push 5 [1]]"]
  by (simp add: ex_anchor_def)

theorem anchor_queue_fifo_witness:
  "\<exists>s'. Anchor_push_message ex_anchor_cfg 5 [1] ex_anchor = Inr (0, s') \<and>
     queue_contents ex_anchor_cfg (States s' 5) 0 1 = [Some [1]]"
proof -
  have "SubmitterByNames ex_anchor 5 \<noteq> None" by (simp add: ex_anchor_def)
  moreover have "QueueCapacity ex_anchor_cfg = 8" by (simp add: ex_anchor_cfg_def)
  ultimately obtain s' where p: "Anchor_push_message ex_anchor_cfg 5 [1] ex_anchor = Inr (0, s')"
    by (auto simp: push_message_eval [OF ex_anchor_ok(1,3)])
  from anchor_queue_fifo [OF ex_anchor_ok(1,3), where data = "[1]" and idx = 0] p show ?thesis
    by (auto simp: queue_contents_def)
qed

theorem rollup_can_break_queue_witness:
  "\<exists>tx s'. Anchor_rollup ex_anchor_cfg (Some 7) 5 tx 0 ex_anchor = Inr s' \<and>
     (\<forall>data. Anchor_push_message ex_anchor_cfg 5 data s' = Inl Panicked)"
  by (rule rollup_can_break_queue [OF ex_anchor_ok(1)])
    (simp_all add: ex_anchor_cfg_def un_le_u32_def ex_anchor_def)

end
