(* ===== verification/Rollup_System.thy ===== *)
theory Rollup_System
  imports Kv_Program Rollup_Anchor
begin

text \<open>
  The roll-up system end to end: clients run programs in key-value sessions
  (\<open>crates/pink-libs/kv-session\<close>) on snapshots of a name's store, roll them up into version
  conditions and updates, and submit them to the anchor pallet
  (\<open>pallets/offchain-rollup/src/anchor.rs\<close>), which other pallets push messages to.
\<close>

section \<open>Clients\<close>

definition anchor_codec :: "('w, 'e) anchor_config \<Rightarrow> QueueIndexCodec" where
  "anchor_codec cfg = \<lparr>qi_encode = enc_u32 cfg,
     qi_decode = (\<lambda>b. case dec_u32 cfg b of Some v \<Rightarrow> Inr v | None \<Rightarrow> Inl FailedToDecode)\<rparr>"

fun set_heads :: "Action option list \<Rightarrow> u32 list" where
  "set_heads [] = []"
| "set_heads (Some (SetQueueHead h) # as) = h # set_heads as"
| "set_heads (_ # as) = set_heads as"

text \<open>
  The transaction a client submits after running a program on a snapshot of the store \<open>m0\<close>: the
  conditions and updates of the roll-up as they are, and among its actions one that moves the
  queue head when the roll-up says so.
\<close>

definition client_tx ::
  "('w, 'e) anchor_config \<Rightarrow> 't AccessTracking \<Rightarrow> 't \<Rightarrow> bytes \<Rightarrow> (bytes option \<Rightarrow> Kv_Error + bytes) \<Rightarrow>
   kv_prog \<Rightarrow> (bytes \<Rightarrow> bytes option) \<Rightarrow> kv_obs list \<Rightarrow> RollupTx \<Rightarrow> bool" where
  "client_tx cfg trk t0 p bump prog m0 os tx \<longleftrightarrow>
     (\<exists>db s0 s1 r. snapshot_of db m0 \<and> bump_version db = bump \<and>
        Session_new (anchor_codec cfg) db t0 (QueuePrefix cfg) = Inr s0 \<and>
        session_run trk (anchor_codec cfg) prog s0 = Inr (os, s1) \<and>
        rollup db (fst (Session_commit trk s1)) (Standalone p) = Inr r \<and>
        rt_conds tx = map (\<lambda>(k, v). Cond_Eq k v) (rtx_conditions r) \<and>
        rt_updates tx = rtx_updates r \<and>
        set_heads (map (dec_action cfg) (rt_actions tx)) = (case rtx_queue_head r of None \<Rightarrow> [] | Some h \<Rightarrow> [h]))"

text \<open>
  The discipline of a deployment whose clients use the keys \<open>U\<close> and the locks \<open>L\<close>: those keys, the
  version keys of those locks and the queue keys are kept apart, the response handler leaves the
  anchor alone, and bumping a version never yields an old one.
\<close>

definition rollup_discipline ::
  "('w, 'e) anchor_config \<Rightarrow> bytes \<Rightarrow> bytes set \<Rightarrow> bytes set \<Rightarrow> (bytes option \<Rightarrow> Kv_Error + bytes) \<Rightarrow>
   (bytes option \<Rightarrow> nat) \<Rightarrow> bool" where
  "rollup_discipline cfg p L U bump ver_num \<longleftrightarrow>
     scale_ok cfg \<and> handler_keeps_anchor cfg \<and>
     (\<forall>k \<in> U. (\<forall>l \<in> L. k \<noteq> l @ p) \<and> k \<noteq> head_key cfg \<and> k \<noteq> tail_key cfg \<and> (\<forall>i. k \<noteq> item_key cfg i)) \<and>
     (\<forall>l \<in> L. l @ p \<noteq> head_key cfg \<and> l @ p \<noteq> tail_key cfg \<and> (\<forall>i. l @ p \<noteq> item_key cfg i)) \<and>
     (\<forall>v w. bump v = Inr w \<longrightarrow> ver_num v < ver_num (Some w))"

text \<open>How a store may differ from an earlier one.\<close>

definition store_later ::
  "(bytes \<Rightarrow> bytes) \<Rightarrow> ('w, 'e) anchor_config \<Rightarrow> bytes \<Rightarrow> bytes set \<Rightarrow> bytes set \<Rightarrow> (bytes option \<Rightarrow> nat) \<Rightarrow>
   (bytes \<Rightarrow> bytes option) \<Rightarrow> (bytes \<Rightarrow> bytes option) \<Rightarrow> bool" where
  "store_later lock_of cfg p L U ver_num m0 m \<longleftrightarrow>
     (\<forall>l \<in> L. ver_num (m0 (l @ p)) \<le> ver_num (m (l @ p))) \<and>
     (\<forall>k \<in> U. m k \<noteq> m0 k \<longrightarrow> ver_num (m0 (lock_of k @ p)) < ver_num (m (lock_of k @ p))) \<and>
     (\<forall>h0 t0. queue_at cfg m0 h0 t0 \<longrightarrow> (\<exists>h t. queue_at cfg m h t \<and> h0 \<le> h \<and> t0 \<le> t \<and>
        (\<forall>i. h \<le> i \<longrightarrow> i < t0 \<longrightarrow> m (item_key cfg i) = m0 (item_key cfg i))))"

lemma queue_at_unique: "queue_at cfg m h t \<Longrightarrow> queue_at cfg m h' t' \<Longrightarrow> h = h' \<and> t = t'"
  by (auto simp: queue_at_def)

lemma store_later_refl [simp]: "store_later lock_of cfg p L U ver_num m m"
  by (auto simp: store_later_def)

lemma store_later_queue:
  assumes "store_later lock_of cfg p L U ver_num m0 m" and "queue_at cfg m0 h0 t0"
  shows "\<exists>h t. queue_at cfg m h t \<and> h0 \<le> h \<and> t0 \<le> t \<and>
    (\<forall>i. h \<le> i \<longrightarrow> i < t0 \<longrightarrow> m (item_key cfg i) = m0 (item_key cfg i))"
  using assms by (simp add: store_later_def)

lemma store_later_trans:
  assumes lk: "lock_of ` U \<subseteq> L"
    and a: "store_later lock_of cfg p L U ver_num m0 m1" and b: "store_later lock_of cfg p L U ver_num m1 m2"
  shows "store_later lock_of cfg p L U ver_num m0 m2"
  unfolding store_later_def
proof (intro conjI ballI allI impI)
  fix l assume "l \<in> L"
  then show "ver_num (m0 (l @ p)) \<le> ver_num (m2 (l @ p))"
    using a b unfolding store_later_def by (meson order_trans)
next
  fix k assume k: "k \<in> U" "m2 k \<noteq> m0 k"
  have le: "ver_num (m0 (lock_of k @ p)) \<le> ver_num (m1 (lock_of k @ p))"
    "ver_num (m1 (lock_of k @ p)) \<le> ver_num (m2 (lock_of k @ p))"
    using a b k(1) lk by (auto simp: store_later_def)
  show "ver_num (m0 (lock_of k @ p)) < ver_num (m2 (lock_of k @ p))"
  proof (cases "m1 k = m0 k")
    case True
    with k have "ver_num (m1 (lock_of k @ p)) < ver_num (m2 (lock_of k @ p))"
      using b by (auto simp: store_later_def)
    with le show ?thesis by simp
  next
    case False
    with k have "ver_num (m0 (lock_of k @ p)) < ver_num (m1 (lock_of k @ p))"
      using a by (auto simp: store_later_def)
    with le show ?thesis by simp
  qed
next
  fix h0 t0 assume "queue_at cfg m0 h0 t0"
  then obtain h1 t1 where 1: "queue_at cfg m1 h1 t1" "h0 \<le> h1" "t0 \<le> t1"
    "\<forall>i. h1 \<le> i \<longrightarrow> i < t0 \<longrightarrow> m1 (item_key cfg i) = m0 (item_key cfg i)"
    using a unfolding store_later_def by blast
  then obtain h2 t2 where 2: "queue_at cfg m2 h2 t2" "h1 \<le> h2" "t1 \<le> t2"
    "\<forall>i. h2 \<le> i \<longrightarrow> i < t1 \<longrightarrow> m2 (item_key cfg i) = m1 (item_key cfg i)"
    using b unfolding store_later_def by blast
  show "\<exists>h t. queue_at cfg m2 h t \<and> h0 \<le> h \<and> t0 \<le> t \<and>
      (\<forall>i. h \<le> i \<longrightarrow> i < t0 \<longrightarrow> m2 (item_key cfg i) = m0 (item_key cfg i))"
    using 1 2 by (intro exI [of _ h2] exI [of _ t2]) auto
qed

lemma store_later_push:
  assumes "rollup_discipline cfg p L U bump ver_num" and "queue_at cfg m h t" and "t \<noteq> - 1"
  shows "store_later lock_of cfg p L U ver_num m
    (m(item_key cfg t \<mapsto> data, tail_key cfg \<mapsto> enc_u32 cfg (t + 1)))"
proof -
  let ?m = "m(item_key cfg t \<mapsto> data, tail_key cfg \<mapsto> enc_u32 cfg (t + 1))"
  have ok: "scale_ok cfg" using assms(1) by (simp add: rollup_discipline_def)
  have v: "?m (l @ p) = m (l @ p)" if "l \<in> L" for l using assms(1) that by (auto simp: rollup_discipline_def)
  have u: "?m k = m k" if "k \<in> U" for k using assms(1) that by (auto simp: rollup_discipline_def)
  have q: "queue_at cfg ?m h (t + 1)" by (rule queue_at_push [OF ok assms(2,3)])
  have "t \<le> t + 1" using word_less_Suc [OF assms(3)] by simp
  moreover have "?m (item_key cfg i) = m (item_key cfg i)" if "i < t" for i
    using that item_key_distinct [OF ok] item_key_inject [OF ok] by auto
  ultimately show ?thesis
    unfolding store_later_def using v u q queue_at_unique [OF assms(2)]
    by (metis order_refl)
qed

section \<open>The effect of an accepted roll-up\<close>

lemma apply_overlay: "bt_wf u \<Longrightarrow> apply_to_store u m = overlay m u"
proof (induction u arbitrary: m)
  case Nil
  show ?case by (simp add: apply_to_store_def)
next
  case (Cons a u)
  obtain k v where a: "a = (k, v)" by fastforce
  have "bt_wf u" and "bt_get u k = None"
    using Cons.prems a by (auto simp: bt_wf_def bt_get_eq_None)
  then have "apply_to_store u (m(k := v)) = overlay (m(k := v)) u" by (intro Cons.IH)
  moreover have "apply_to_store (a # u) m = apply_to_store u (m(k := v))" by (simp add: apply_to_store_def a)
  moreover have "overlay (m(k := v)) u = overlay m (a # u)"
    using \<open>bt_get u k = None\<close> by (intro ext) (auto simp: overlay_def a split: option.split)
  ultimately show ?case by simp
qed

lemma apply_append: "apply_to_store (us @ vs) m = apply_to_store vs (apply_to_store us m)"
  by (simp add: apply_to_store_def)

lemma apply_versions:
  assumes "list_all2 (\<lambda>l w. f (l @ p) = Inr w) ls ws"
  shows "apply_to_store (map (\<lambda>(l, w). (l @ p, Some w)) (zip ls ws)) m k =
      (if \<exists>l \<in> set ls. k = l @ p then Some (THE w. f k = Inr w) else m k)"
  using assms
proof (induction arbitrary: m rule: list_all2_induct)
  case (Cons l ls w ws)
  then show ?case by (auto simp: apply_to_store_def)
qed (simp add: apply_to_store_def)

lemma exec_actions_store:
  assumes hk: "handler_keeps_anchor cfg" and ok: "scale_ok cfg"
    and run: "foldM_res (exec_action cfg name who) s acts = Inr s'"
    and q: "queue_at cfg (States s name) h t"
  shows "set_heads (map (dec_action cfg) acts) = [] \<Longrightarrow> States s' name = States s name"
    and "set_heads (map (dec_action cfg) acts) = [idx] \<Longrightarrow> h \<le> idx \<and> idx \<le> t \<and>
      States s' name = (drop_items cfg [unat h ..< unat idx] (States s name))(head_key cfg \<mapsto> enc_u32 cfg idx)"
proof -
  have nil: "set_heads (map (dec_action cfg) acts) = [] \<Longrightarrow> States s' name = States s name"
    if "foldM_res (exec_action cfg name who) s acts = Inr s'" for s acts
    using that
  proof (induction acts arbitrary: s)
    case (Cons a acts)
    then obtain s1 where a: "exec_action cfg name who s a = Inr s1"
      and r: "foldM_res (exec_action cfg name who) s1 acts = Inr s'" by auto
    from a Cons.prems(1) obtain data where "dec_action cfg a = Some (Reply data)"
      by (cases "dec_action cfg a"; cases "the (dec_action cfg a)") (auto simp: exec_action_def)
    moreover from this a have "on_response cfg name who data s = Inr s1"
      by (cases "on_response cfg name who data s") (auto simp: exec_action_def)
    ultimately show ?case using Cons.IH [OF _ r] Cons.prems(1) hk by (auto simp: handler_keeps_anchor_def)
  qed auto
  show "set_heads (map (dec_action cfg) acts) = [] \<Longrightarrow> States s' name = States s name" by (rule nil [OF run])
  show "set_heads (map (dec_action cfg) acts) = [idx] \<Longrightarrow> h \<le> idx \<and> idx \<le> t \<and>
      States s' name = (drop_items cfg [unat h ..< unat idx] (States s name))(head_key cfg \<mapsto> enc_u32 cfg idx)"
    using run q
  proof (induction acts arbitrary: s)
    case (Cons a acts)
    then obtain s1 where a: "exec_action cfg name who s a = Inr s1"
      and r: "foldM_res (exec_action cfg name who) s1 acts = Inr s'" by auto
    show ?case
    proof (cases "dec_action cfg a")
      case None
      with a show ?thesis by (simp add: exec_action_def res_simps)
    next
      case (Some act)
      show ?thesis
      proof (cases act)
        case (Reply data)
        then have "on_response cfg name who data s = Inr s1"
          using a Some by (cases "on_response cfg name who data s") (auto simp: exec_action_def)
        then have "States s1 = States s" using hk by (auto simp: handler_keeps_anchor_def)
        with Cons.IH [OF _ r] Cons.prems Some Reply show ?thesis by auto
      next
        case (SetQueueHead j)
        then have j: "j = idx" and none: "set_heads (map (dec_action cfg) acts) = []"
          using Cons.prems(1) Some by auto
        have "queue_head_set cfg name idx s = Inr s1" using a Some SetQueueHead j by (simp add: exec_action_def)
        with nil [OF r none] show ?thesis
          by (auto simp: queue_head_set_eval [OF ok Cons.prems(3)] split: if_splits)
      qed
    qed
  qed auto
qed

text \<open>The store after the updates of a roll-up, key by key.\<close>

lemma updated_store:
  assumes d: "rollup_discipline cfg p L U bump ver_num" and wf: "bt_wf u"
    and uU: "\<forall>k. bt_get u k \<noteq> None \<longrightarrow> k \<in> U" and lsL: "set ls \<subseteq> L"
    and vs: "list_all2 (\<lambda>l w. bump (m0 (l @ p)) = Inr w) ls ws"
    and m1: "m1 = apply_to_store (u @ map (\<lambda>(l, w). (l @ p, Some w)) (zip ls ws)) m"
  shows "k \<in> U \<Longrightarrow> m1 k = overlay m u k"
    and "l \<in> L \<Longrightarrow> l \<notin> set ls \<Longrightarrow> m1 (l @ p) = m (l @ p)"
    and "l \<in> set ls \<Longrightarrow> ver_num (m0 (l @ p)) < ver_num (m1 (l @ p))"
    and "k = head_key cfg \<or> k = tail_key cfg \<or> k = item_key cfg i \<Longrightarrow> m1 k = m k"
proof -
  have m1': "m1 k = (if \<exists>l \<in> set ls. k = l @ p then Some (THE w. bump (m0 k) = Inr w) else overlay m u k)" for k
    unfolding m1 apply_append apply_overlay [OF wf]
    by (rule apply_versions [where f = "\<lambda>k. bump (m0 k)"]) (rule vs)
  have out: "overlay m u k = m k" if "k \<notin> U" for k
    using uU that by (auto simp: overlay_def split: option.split)
  show "k \<in> U \<Longrightarrow> m1 k = overlay m u k" using d lsL by (auto simp: m1' rollup_discipline_def)
  have pU: "l @ p \<notin> U" if "l \<in> L" for l using d that by (auto simp: rollup_discipline_def)
  show "l \<in> L \<Longrightarrow> l \<notin> set ls \<Longrightarrow> m1 (l @ p) = m (l @ p)" using out [OF pU] by (auto simp: m1')
  show "l \<in> set ls \<Longrightarrow> ver_num (m0 (l @ p)) < ver_num (m1 (l @ p))"
  proof -
    assume l: "l \<in> set ls"
    with vs obtain w where w: "bump (m0 (l @ p)) = Inr w"
      by (metis (mono_tags, lifting) in_set_conv_nth list_all2_conv_all_nth)
    then have "m1 (l @ p) = Some w" using l by (auto simp: m1')
    with w d show ?thesis by (simp add: rollup_discipline_def)
  qed
  have "head_key cfg \<notin> U" "tail_key cfg \<notin> U" "item_key cfg i \<notin> U" for i
    using d by (auto simp: rollup_discipline_def)
  moreover have "\<not> (\<exists>l \<in> set ls. k = l @ p)" if "k = head_key cfg \<or> k = tail_key cfg \<or> k = item_key cfg i"
    using d that lsL by (auto simp: rollup_discipline_def)
  ultimately show "k = head_key cfg \<or> k = tail_key cfg \<or> k = item_key cfg i \<Longrightarrow> m1 k = m k"
    using out by (auto simp: m1')
qed

lemma queue_at_cong:
  assumes "m1 (head_key cfg) = m (head_key cfg)" and "m1 (tail_key cfg) = m (tail_key cfg)"
  shows "queue_at cfg m1 h t = queue_at cfg m h t"
  using assms by (simp add: queue_at_def store_u32_def)

lemma QueueInfo_new_at:
  assumes "snapshot_of db m" and "QueueInfo_new (anchor_codec cfg) (QueuePrefix cfg) db = Inr q"
  shows "queue_at cfg m (qi_head q) (qi_tail q)"
proof -
  have names: "head_suffix = head_name" "tail_suffix = tail_name"
    by (simp_all add: head_suffix_def head_name_def tail_suffix_def tail_name_def)
  have n: "get_number (anchor_codec cfg) db k = Inr v \<Longrightarrow> store_u32 cfg m k = Some (unwrap_or v 0)" for k v
    using assms(1) by (auto simp: get_number_def snapshot_of_def store_u32_def anchor_codec_def
        split: option.splits dest!: sym [of "Some _"])
  from assms(2) show ?thesis
    by (auto simp: QueueInfo_new_def names head_key_def [symmetric] tail_key_def [symmetric] Let_def queue_at_def
        dest!: n split: if_splits)
qed

section \<open>Commits are serializable\<close>

context exact_tracking
begin

text \<open>
  What an accepted client transaction did, in one place: the run it stands for, the agreement of
  the commit-time store \<open>m\<close> with the snapshot \<open>m0\<close> on everything the run depended on, and the
  store it leaves.
\<close>

lemma accepted_commit:
  assumes d: "rollup_discipline cfg p L U bump ver_num" and lk: "lock_of ` U \<subseteq> L"
    and lk1: "\<forall>l. (\<forall>k. lock_of k = l) \<longrightarrow> l \<in> L" and t0: "ok tr {} {}"
    and later: "store_later lock_of cfg p L U ver_num m0 (States s name)"
    and cl: "client_tx cfg trk tr p bump prog m0 os tx" and keys: "prog_keys_in U prog"
    and acc: "Anchor_rollup cfg origin name tx nonce s = Inr s'"
  shows "\<exists>u ls h t h'.
    queue_at cfg (States s name) h t \<and> queue_at cfg (States s' name) h' t \<and> h \<le> h' \<and> h' \<le> t \<and>
    pops os = queue_contents cfg (States s name) h h' \<and>
    (\<forall>rest. (Obs_empty \<in> set os \<longrightarrow> rest = []) \<longrightarrow>
       direct_run prog (States s name) (pops os @ rest) = (os, overlay (States s name) u, rest)) \<and>
    (\<forall>k \<in> U. States s' name k = overlay (States s name) u k) \<and>
    (\<forall>k. bt_get u k \<noteq> None \<longrightarrow> lock_of k \<in> set ls) \<and>
    (\<forall>l \<in> L. l \<notin> set ls \<longrightarrow> States s' name (l @ p) = States s name (l @ p)) \<and>
    (\<forall>l \<in> set ls. ver_num (States s name (l @ p)) < ver_num (States s' name (l @ p))) \<and>
    (\<forall>i. h' \<le> i \<longrightarrow> i < t \<longrightarrow> States s' name (item_key cfg i) = States s name (item_key cfg i))"
proof -
  let ?m = "States s name"
  have ok: "scale_ok cfg" and hk: "handler_keeps_anchor cfg" using d by (simp_all add: rollup_discipline_def)
  from cl obtain db s0 s1 r where snap: "snapshot_of db m0" and bump: "bump_version db = bump"
    and new: "Session_new (anchor_codec cfg) db tr (QueuePrefix cfg) = Inr s0"
    and run: "session_run trk (anchor_codec cfg) prog s0 = Inr (os, s1)"
    and roll: "rollup db (fst (Session_commit trk s1)) (Standalone p) = Inr r"
    and conds: "rt_conds tx = map (\<lambda>(k, v). Cond_Eq k v) (rtx_conditions r)"
    and upds: "rt_updates tx = rtx_updates r"
    and heads: "set_heads (map (dec_action cfg) (rt_actions tx)) = (case rtx_queue_head r of None \<Rightarrow> [] | Some h \<Rightarrow> [h])"
    unfolding client_tx_def by blast
  let ?acc = "fst (trk_collect_into trk (ss_tracker s1))" and ?ls = "snd (trk_collect_into trk (ss_tracker s1))"
  let ?q0 = "ss_queue s0" and ?q1 = "ss_queue s1" and ?u = "ss_updates s1"
  note n = Session_new_Inr [OF new]
  have snap0: "snapshot_of (ss_kvdb s0) m0" using n(1) snap by simp
  note rq = session_run_queue [OF run snap0 n(5)]
  have "session_ok s0 {}" using t0 n(2,3) by (simp add: session_ok_def)
  from session_replay [OF run this snap0 keys] n(3,5) obtain R where R: "R \<subseteq> U" and sok: "session_ok s1 R"
    and uU: "\<forall>k. bt_get ?u k \<noteq> None \<longrightarrow> k \<in> U"
    and replay: "\<And>m rest. (\<forall>k\<in>R. m k = m0 k) \<Longrightarrow> (Obs_empty \<in> set os \<Longrightarrow> rest = []) \<Longrightarrow>
      direct_run prog m (pops os @ rest) = (os, overlay m ?u, rest)"
    by auto
  note rs = rollup_snapshot [OF snap roll, simplified Session_commit_fields]
  from rs(2) obtain ws where upd_eq: "rtx_updates r = ?u @ map (\<lambda>(l, w). (l @ p, Some w)) (zip ?ls ws)"
    and ws: "list_all2 (\<lambda>l w. bump (m0 (l @ p)) = Inr w) ?ls ws"
    using bump by auto
  from acc obtain who sa where cond_ok: "\<forall>k v. Cond_Eq k v \<in> set (rt_conds tx) \<longrightarrow> ?m k = v"
    and exec: "foldM_res (exec_action cfg name who) (with_store name (apply_to_store (rt_updates tx) ?m) s)
      (rt_actions tx) = Inr sa"
    and s': "s' = deposit_event (RollupExecuted who name nonce) sa"
    by (auto simp: Anchor_rollup_Inr apply_updates_store)
  have ver_eq: "?m (l @ p) = m0 (l @ p)" if "l \<in> set ?acc" for l
    using cond_ok that unfolding conds rs(1) by auto
  have lock_eq: "?m (QueuePrefix cfg @ head_suffix) = m0 (QueuePrefix cfg @ head_suffix)" if "qi_popped ?q1"
    using cond_ok that rq n(4) unfolding conds rs(1) by auto
  have reads: "\<forall>k\<in>R. ?m k = m0 k"
  proof
    fix k assume "k \<in> R"
    then have "lock_of k \<in> set ?acc" and "k \<in> U" using sok R read_locked by (auto simp: session_ok_def)
    with ver_eq later show "?m k = m0 k" by (fastforce simp: store_later_def)
  qed
  have lsL: "set ?ls \<subseteq> L"
  proof
    fix l assume "l \<in> set ?ls"
    then have "l \<in> lock_of ` {k. bt_get ?u k \<noteq> None} \<or> (\<forall>k. lock_of k = l)"
      using sok only_locks unfolding session_ok_def by blast
    then show "l \<in> L" using uU lk lk1 by blast
  qed
  have wfu: "bt_wf ?u" using session_run_wf [OF run] n(3) by simp
  define m1 where "m1 = apply_to_store (rt_updates tx) ?m"
  note us = updated_store [OF d wfu uU lsL ws m1_def [unfolded upds upd_eq]]
  have q0: "queue_at cfg m0 (qi_head ?q0) (qi_tail ?q0)"
    using new snap by (auto simp: Session_new_def intro: QueueInfo_new_at)
  with later obtain h t where q: "queue_at cfg ?m h t"
    and items: "\<forall>i. h \<le> i \<longrightarrow> i < qi_tail ?q0 \<longrightarrow> ?m (item_key cfg i) = m0 (item_key cfg i)"
    by (blast dest: store_later_queue)
  have m1q: "m1 (head_key cfg) = ?m (head_key cfg)" "m1 (tail_key cfg) = ?m (tail_key cfg)"
    "m1 (item_key cfg i) = ?m (item_key cfg i)" for i
    using us(4) by blast+
  have q1: "queue_at cfg m1 h t" using q queue_at_cong [where m = ?m, OF m1q(1,2)] by simp
  then have q1s: "queue_at cfg (States (with_store name m1 s) name) h t" by simp
  note ex = exec_actions_store [OF hk ok exec [folded m1_def] q1s]
  have qh: "rtx_queue_head r = (if qi_popped ?q1 then Some (qi_head ?q1) else None)"
    using rs(3) by simp
  have "\<exists>h'. queue_at cfg (States sa name) h' t \<and> h \<le> h' \<and> h' \<le> t \<and> pops os = queue_contents cfg ?m h h' \<and>
    (\<forall>k. k \<noteq> head_key cfg \<longrightarrow> (\<forall>i. k \<noteq> item_key cfg i) \<longrightarrow> States sa name k = m1 k) \<and>
    (\<forall>i. h' \<le> i \<longrightarrow> i < t \<longrightarrow> States sa name (item_key cfg i) = m1 (item_key cfg i))"
  proof (cases "qi_popped ?q1")
    case False
    then have "States sa name = m1" using ex(1) heads qh by simp
    moreover have "pops os = []" using rq False n(6) by simp
    moreover have "h \<le> t" using q by (simp add: queue_at_def)
    ultimately show ?thesis using q1 by (intro exI [of _ h]) (auto simp: queue_contents_def)
  next
    case True
    let ?h' = "qi_head ?q1"
    have e: "h \<le> ?h'" "?h' \<le> t"
      "States sa name = (drop_items cfg [unat h ..< unat ?h'] m1)(head_key cfg \<mapsto> enc_u32 cfg ?h')"
      using ex(2) [of ?h'] heads qh True by simp_all
    have "head_suffix = head_name" by (simp add: head_suffix_def head_name_def)
    with lock_eq [OF True] have "?m (head_key cfg) = m0 (head_key cfg)" by (simp add: head_key_def)
    with q q0 have h0: "qi_head ?q0 = h" by (simp add: queue_at_def store_u32_def)
    have le1: "?h' \<le> qi_tail ?q0" using rq by auto
    have "?m (item_key cfg (of_nat i)) = m0 (item_key cfg (of_nat i))" if "unat h \<le> i" "i < unat ?h'" for i
    proof -
      have "unat (of_nat i :: u32) = i" using that unat_less_word [of ?h'] by (simp add: unat_of_nat_word)
      then show ?thesis using items that le1 by (simp add: word_le_nat_alt word_less_nat_alt)
    qed
    then have pops: "pops os = queue_contents cfg ?m h ?h'"
      using rq h0 n(4) by (auto simp: queue_contents_def item_key_def anchor_codec_def)
    have "item_key cfg i \<noteq> item_key cfg (of_nat j)" if "?h' \<le> i" "j < unat ?h'" for i j
      using that of_nat_neq_above [of j i] by (auto simp: item_key_inject [OF ok] word_le_nat_alt)
    with e pops queue_at_head_set [OF ok q1 e(1,2)] item_key_distinct [OF ok] show ?thesis
      by (intro exI [of _ ?h']) (auto simp: drop_items_at)
  qed
  then obtain h' where h': "queue_at cfg (States sa name) h' t" "h \<le> h'" "h' \<le> t" "pops os = queue_contents cfg ?m h h'"
    and other: "\<forall>k. k \<noteq> head_key cfg \<longrightarrow> (\<forall>i. k \<noteq> item_key cfg i) \<longrightarrow> States sa name k = m1 k"
    and it: "\<forall>i. h' \<le> i \<longrightarrow> i < t \<longrightarrow> States sa name (item_key cfg i) = m1 (item_key cfg i)"
    by blast
  have s'sa: "States s' name = States sa name" by (simp add: s')
  have verkey: "States sa name (l @ p) = m1 (l @ p)" if "l \<in> L" for l
    using other d that by (simp add: rollup_discipline_def)
  have ukey: "States sa name k = overlay ?m ?u k" if "k \<in> U" for k
    using other us(1) [OF that] d that by (auto simp: rollup_discipline_def)
  have "lock_of k \<in> set ?ls" if "bt_get ?u k \<noteq> None" for k
    using that sok write_locked by (auto simp: session_ok_def)
  moreover have "ver_num (?m (l @ p)) < ver_num (States sa name (l @ p))" if "l \<in> set ?ls" for l
  proof -
    have "l \<in> set ?acc" using that sok bumped_checked unfolding session_ok_def by blast
    then show ?thesis using us(3) [OF that] ver_eq [of l] verkey lsL that by auto
  qed
  moreover have "\<forall>i. h' \<le> i \<longrightarrow> i < t \<longrightarrow> States sa name (item_key cfg i) = ?m (item_key cfg i)"
    using it m1q by simp
  ultimately show ?thesis
    using q h' replay [OF reads] ukey verkey us(2) unfolding s'sa
    by (intro exI [of _ ?u] exI [of _ ?ls] exI [of _ h] exI [of _ t] exI [of _ h'] conjI allI ballI impI) auto
qed

lemma store_later_commit:
  assumes "rollup_discipline cfg p L U bump ver_num" and "lock_of ` U \<subseteq> L"
    and "\<forall>l. (\<forall>k. lock_of k = l) \<longrightarrow> l \<in> L" and "ok tr {} {}"
    and "store_later lock_of cfg p L U ver_num m0 (States s name)"
    and "client_tx cfg trk tr p bump prog m0 os tx" and "prog_keys_in U prog"
    and "Anchor_rollup cfg origin name tx nonce s = Inr s'"
  shows "store_later lock_of cfg p L U ver_num (States s name) (States s' name)"
proof -
  let ?m = "States s name" and ?m' = "States s' name"
  from accepted_commit [OF assms] obtain u ls h t h' where q: "queue_at cfg ?m h t" "queue_at cfg ?m' h' t" "h \<le> h'"
    and ukey: "\<forall>k \<in> U. ?m' k = overlay ?m u k" and locks: "\<forall>k. bt_get u k \<noteq> None \<longrightarrow> lock_of k \<in> set ls"
    and same: "\<forall>l \<in> L. l \<notin> set ls \<longrightarrow> ?m' (l @ p) = ?m (l @ p)"
    and up: "\<forall>l \<in> set ls. ver_num (?m (l @ p)) < ver_num (?m' (l @ p))"
    and items: "\<forall>i. h' \<le> i \<longrightarrow> i < t \<longrightarrow> ?m' (item_key cfg i) = ?m (item_key cfg i)"
    by blast
  have "ver_num (?m (l @ p)) \<le> ver_num (?m' (l @ p))" if "l \<in> L" for l
    using same up that by (cases "l \<in> set ls") (auto intro: less_imp_le)
  moreover have "ver_num (?m (lock_of k @ p)) < ver_num (?m' (lock_of k @ p))" if "k \<in> U" "?m' k \<noteq> ?m k" for k
  proof -
    have "bt_get u k \<noteq> None" using ukey that by (auto simp: overlay_def split: option.splits)
    then show ?thesis using locks up by blast
  qed
  moreover have "\<exists>h1 t1. queue_at cfg ?m' h1 t1 \<and> a \<le> h1 \<and> b \<le> t1 \<and>
      (\<forall>i. h1 \<le> i \<longrightarrow> i < b \<longrightarrow> ?m' (item_key cfg i) = ?m (item_key cfg i))" if "queue_at cfg ?m a b" for a b
    using queue_at_unique [OF that q(1)] q items by auto
  ultimately show ?thesis unfolding store_later_def by blast
qed

end

section \<open>Histories\<close>

text \<open>
  The states of the anchor, latest first, as seen by the name: client transactions built on the
  snapshot of any earlier state, pushes by other pallets, and steps that leave its store alone.
\<close>

inductive rollup_hist ::
  "('w, 'e) anchor_config \<Rightarrow> 't AccessTracking \<Rightarrow> 't \<Rightarrow> bytes \<Rightarrow> (bytes option \<Rightarrow> Kv_Error + bytes) \<Rightarrow>
   bytes set \<Rightarrow> h256 \<Rightarrow> 'w anchor_state list \<Rightarrow> bool"
  for cfg trk tr p bump U name where
  rh_init: "queue_at cfg (States s name) h t \<Longrightarrow> rollup_hist cfg trk tr p bump U name [s]"
| rh_commit: "rollup_hist cfg trk tr p bump U name (s # ss) \<Longrightarrow> s0 \<in> set (s # ss) \<Longrightarrow>
    client_tx cfg trk tr p bump prog (States s0 name) os tx \<Longrightarrow> prog_keys_in U prog \<Longrightarrow>
    Anchor_rollup cfg origin name tx nonce s = Inr s' \<Longrightarrow>
    rollup_hist cfg trk tr p bump U name (s' # s # ss)"
| rh_push: "rollup_hist cfg trk tr p bump U name (s # ss) \<Longrightarrow>
    Anchor_push_message cfg name data s = Inr (i, s') \<Longrightarrow> i \<noteq> - 1 \<Longrightarrow>
    rollup_hist cfg trk tr p bump U name (s' # s # ss)"
| rh_other: "rollup_hist cfg trk tr p bump U name (s # ss) \<Longrightarrow> States s' name = States s name \<Longrightarrow>
    rollup_hist cfg trk tr p bump U name (s' # s # ss)"

context exact_tracking
begin

lemma rollup_hist_later:
  assumes "rollup_hist cfg trk tr p bump U name hist" and d: "rollup_discipline cfg p L U bump ver_num"
    and lk: "lock_of ` U \<subseteq> L" and lk1: "\<forall>l. (\<forall>k. lock_of k = l) \<longrightarrow> l \<in> L" and t0: "ok tr {} {}"
  shows "(\<exists>h t. queue_at cfg (States (hd hist) name) h t) \<and>
    (\<forall>s \<in> set hist. store_later lock_of cfg p L U ver_num (States s name) (States (hd hist) name))"
  using assms(1)
proof (induction rule: rollup_hist.induct)
  case (rh_init s h t)
  then show ?case by auto
next
  case (rh_commit s ss s0 prog os tx origin nonce s')
  have later: "store_later lock_of cfg p L U ver_num (States s0 name) (States s name)"
    using rh_commit.IH rh_commit.hyps(2) by auto
  note st = store_later_commit [OF d lk lk1 t0 later rh_commit.hyps(3,4,5)]
  have "\<exists>h t. queue_at cfg (States s' name) h t"
    using accepted_commit [OF d lk lk1 t0 later rh_commit.hyps(3,4,5)] by blast
  moreover have "store_later lock_of cfg p L U ver_num (States x name) (States s' name)" if "x \<in> set (s # ss)" for x
    using rh_commit.IH that st store_later_trans [OF lk] by (metis list.sel(1))
  ultimately show ?case by auto
next
  case (rh_push s ss data i s')
  from rh_push.IH obtain h t where q: "queue_at cfg (States s name) h t" by auto
  have ok: "scale_ok cfg" using d by (simp add: rollup_discipline_def)
  from rh_push.hyps(2) have i: "i = t"
    and s': "States s' name = (States s name)(item_key cfg t \<mapsto> data, tail_key cfg \<mapsto> enc_u32 cfg (t + 1))"
    by (auto simp: push_message_eval [OF ok q] split: if_splits)
  have st: "store_later lock_of cfg p L U ver_num (States s name) (States s' name)"
    unfolding s' using store_later_push [OF d q] i rh_push.hyps(3) by simp
  have "queue_at cfg (States s' name) h (t + 1)"
    unfolding s' using queue_at_push [OF ok q] i rh_push.hyps(3) by simp
  moreover have "store_later lock_of cfg p L U ver_num (States x name) (States s' name)" if "x \<in> set (s # ss)" for x
    using rh_push.IH that st store_later_trans [OF lk] by (metis list.sel(1))
  ultimately show ?case by auto
next
  case (rh_other s ss s')
  then show ?case by auto
qed

text \<open>
  The transaction accepted in a step has the effect of running the client's program directly on
  the store and the queue of that moment.
\<close>

lemma commit_serial:
  assumes "rollup_hist cfg trk tr p bump U name (s # ss)" and d: "rollup_discipline cfg p L U bump ver_num"
    and lk: "lock_of ` U \<subseteq> L" and lk1: "\<forall>l. (\<forall>k. lock_of k = l) \<longrightarrow> l \<in> L"
    and t0: "ok tr {} {}" and "s0 \<in> set (s # ss)"
    and "client_tx cfg trk tr p bump prog (States s0 name) os tx" and "prog_keys_in U prog"
    and "Anchor_rollup cfg origin name tx nonce s = Inr s'"
  shows "\<exists>h t h' m'. queue_at cfg (States s name) h t \<and> queue_at cfg (States s' name) h' t \<and>
    h \<le> h' \<and> queue_contents cfg (States s' name) h' t = queue_contents cfg (States s name) h' t \<and>
    (if Obs_empty \<in> set os
     then direct_run prog (States s name) (queue_contents cfg (States s name) h h') = (os, m', [])
     else direct_run prog (States s name) (queue_contents cfg (States s name) h t) =
       (os, m', queue_contents cfg (States s' name) h' t)) \<and>
    (\<forall>k \<in> U. States s' name k = m' k)"
proof -
  let ?m = "States s name" and ?m' = "States s' name"
  have later: "store_later lock_of cfg p L U ver_num (States s0 name) ?m"
    using rollup_hist_later [OF assms(1) d lk lk1 t0] assms(6) by auto
  from accepted_commit [OF d lk lk1 t0 later assms(7-9)] obtain u h t h' where
    q: "queue_at cfg ?m h t" "queue_at cfg ?m' h' t" and le: "h \<le> h'" "h' \<le> t"
    and pops: "pops os = queue_contents cfg ?m h h'"
    and run: "\<forall>rest. (Obs_empty \<in> set os \<longrightarrow> rest = []) \<longrightarrow>
      direct_run prog ?m (pops os @ rest) = (os, overlay ?m u, rest)"
    and ukey: "\<forall>k \<in> U. ?m' k = overlay ?m u k"
    and items: "\<forall>i. h' \<le> i \<longrightarrow> i < t \<longrightarrow> ?m' (item_key cfg i) = ?m (item_key cfg i)"
    by blast
  have unat: "unat h \<le> unat h'" "unat h' \<le> unat t" using le by (simp_all add: word_le_nat_alt)
  have "[unat h ..< unat t] = [unat h ..< unat h'] @ [unat h' ..< unat t]"
    using unat by (metis le_add_diff_inverse upt_add_eq_append)
  then have split: "queue_contents cfg ?m h t = pops os @ queue_contents cfg ?m h' t"
    by (simp add: pops queue_contents_def)
  have rest: "queue_contents cfg ?m' h' t = queue_contents cfg ?m h' t"
    unfolding queue_contents_def
  proof (rule map_cong)
    fix i assume "i \<in> set [unat h' ..< unat t]"
    then have i: "unat h' \<le> i" "i < unat t" by auto
    then have "unat (of_nat i :: u32) = i" using unat_less_word [of t] by (simp add: unat_of_nat_word)
    then show "?m' (item_key cfg (of_nat i)) = ?m (item_key cfg (of_nat i))"
      using i items by (simp add: word_le_nat_alt word_less_nat_alt)
  qed simp
  show ?thesis
  proof (cases "Obs_empty \<in> set os")
    case True
    with run [rule_format, of "[]"] pops q le(1) ukey rest show ?thesis by auto
  next
    case False
    with run [rule_format, of "queue_contents cfg ?m h' t"] split q le(1) ukey rest show ?thesis
      by (intro exI [of _ h] exI [of _ t] exI [of _ h'] exI [of _ "overlay ?m u"]) simp
  qed
qed

end

section \<open>Properties\<close>

text \<open>
  C4: Roll-up transactions are serializable with the read-write tracker. In every history of a
  name's store, a client transaction built on the snapshot of any earlier state and accepted now
  has exactly the effect of running the client's program directly on the store of this moment: the
  same values are observed, every client key ends with the value direct execution gives, and the
  popped messages, no others, leave the queue. The program runs on the queue of this moment, or, if
  it found the queue empty, on the part of it up to the last message it popped: an empty queue is
  not locked, so messages pushed after the snapshot count as pushed after the transaction.
  Hypotheses: the client keys, their version keys and the queue's keys are kept apart, the response
  handler leaves the anchor alone, and versions grow.
\<close>

theorem rw_tracker_serializable:
  assumes "rollup_hist cfg RwTracker AccessTracker_new p bump U name (s # ss)"
    and "rollup_discipline cfg p U U bump ver_num" and "s0 \<in> set (s # ss)"
    and "client_tx cfg RwTracker AccessTracker_new p bump prog (States s0 name) os tx" and "prog_keys_in U prog"
    and "Anchor_rollup cfg origin name tx nonce s = Inr s'"
  shows "\<exists>h t h' m'. queue_at cfg (States s name) h t \<and> queue_at cfg (States s' name) h' t \<and>
    h \<le> h' \<and> queue_contents cfg (States s' name) h' t = queue_contents cfg (States s name) h' t \<and>
    (if Obs_empty \<in> set os
     then direct_run prog (States s name) (queue_contents cfg (States s name) h h') = (os, m', [])
     else direct_run prog (States s name) (queue_contents cfg (States s name) h t) =
       (os, m', queue_contents cfg (States s' name) h' t)) \<and>
    (\<forall>k \<in> U. States s' name k = m' k)"
proof -
  have "\<forall>l. (\<forall>k. (k :: bytes) = l) \<longrightarrow> l \<in> U" by (metis list.distinct(1))
  moreover have "rw_ok AccessTracker_new {} {}" by (simp add: rw_ok_def AccessTracker_new_def)
  ultimately show ?thesis using assms by (intro rw.commit_serial [where L = U]) auto
qed

text \<open>
  C29: The same with a single lock that every transaction of the name bumps: then only the version
  key of that lock must be kept apart from the client keys and the queue's keys.
\<close>

theorem one_lock_serializable:
  assumes "rollup_hist cfg OneLock_tracking (OneLock_new lk True) p bump U name (s # ss)"
    and "rollup_discipline cfg p {lk} U bump ver_num" and "s0 \<in> set (s # ss)"
    and "client_tx cfg OneLock_tracking (OneLock_new lk True) p bump prog (States s0 name) os tx"
    and "prog_keys_in U prog"
    and "Anchor_rollup cfg origin name tx nonce s = Inr s'"
  shows "\<exists>h t h' m'. queue_at cfg (States s name) h t \<and> queue_at cfg (States s' name) h' t \<and>
    h \<le> h' \<and> queue_contents cfg (States s' name) h' t = queue_contents cfg (States s name) h' t \<and>
    (if Obs_empty \<in> set os
     then direct_run prog (States s name) (queue_contents cfg (States s name) h h') = (os, m', [])
     else direct_run prog (States s name) (queue_contents cfg (States s name) h t) =
       (os, m', queue_contents cfg (States s' name) h' t)) \<and>
    (\<forall>k \<in> U. States s' name k = m' k)"
  using assms by (intro ol.commit_serial [where lk = lk and L = "{lk}"]) (auto simp: lock_ok_def)

section \<open>Example clients\<close>

definition ex_bump :: "bytes option \<Rightarrow> Kv_Error + bytes" where
  "ex_bump v = Inr (case v of None \<Rightarrow> [0] | Some w \<Rightarrow> 0 # w)"

definition ex_ver_num :: "bytes option \<Rightarrow> nat" where
  "ex_ver_num v = (case v of None \<Rightarrow> 0 | Some w \<Rightarrow> Suc (length w))"

text \<open>The bytes of \<^verbatim>\<open>_ver\<close>.\<close>

definition ex_p :: bytes where
  "ex_p = [95, 118, 101, 114]"

definition ex_write :: "bytes \<Rightarrow> kv_prog" where
  "ex_write v = Do_put [1] v Done"

definition ex_copy :: kv_prog where
  "ex_copy = Do_get [1] (\<lambda>v. Do_put [2] (unwrap_or v []) Done)"

text \<open>The transactions of the two programs on a store without queue keys.\<close>

definition ex_write_tx :: "bool \<Rightarrow> bytes \<Rightarrow> (bytes \<Rightarrow> bytes option) \<Rightarrow> RollupTx" where
  "ex_write_tx b v m =
     \<lparr>rt_conds = (if b then [Cond_Eq ([1] @ ex_p) (m ([1] @ ex_p))] else []), rt_actions = [],
      rt_updates = [([1], Some v), (([1] @ ex_p), Some (projr (ex_bump (m ([1] @ ex_p)))))]\<rparr>"

definition ex_copy_tx :: "bool \<Rightarrow> (bytes \<Rightarrow> bytes option) \<Rightarrow> RollupTx" where
  "ex_copy_tx b m =
     \<lparr>rt_conds = Cond_Eq ([1] @ ex_p) (m ([1] @ ex_p)) # (if b then [Cond_Eq ([2] @ ex_p) (m ([2] @ ex_p))] else []),
      rt_actions = [],
      rt_updates = [([2], Some (unwrap_or (m [1]) [])), (([2] @ ex_p), Some (projr (ex_bump (m ([2] @ ex_p)))))]\<rparr>"

definition ex_db :: "(bytes \<Rightarrow> bytes option) \<Rightarrow> KvSnapshot" where
  "ex_db m = \<lparr>snapshot_id = Inr [], snapshot_get = (\<lambda>k. Inr (m k)), bump_version = ex_bump\<rparr>"

lemmas ex_client_simps = ex_db_def snapshot_of_def Session_new_def QueueInfo_new_def get_number_def Let_def
  ex_anchor_cfg_def head_key_def tail_key_def head_suffix_def tail_suffix_def head_name_def tail_name_def
  Session_get_def Session_put_def Session_commit_def AccessTracker_tracking_def AccessTracker_new_def
  OneLock_tracking_def OneLock_new_def
  rollup_def KvSnapshot_batch_get_def bs_collect_def ex_bump_def ex_p_def

lemma ex_client_new:
  assumes "m (head_key ex_anchor_cfg) = None" and "m (tail_key ex_anchor_cfg) = None"
  shows "Session_new (anchor_codec ex_anchor_cfg) (ex_db m) t (QueuePrefix ex_anchor_cfg) =
    Inr \<lparr>ss_kvdb = ex_db m, ss_tracker = t, ss_updates = [],
      ss_queue = \<lparr>qi_prefix = QueuePrefix ex_anchor_cfg, qi_head = 0, qi_tail = 0, qi_popped = False\<rparr>\<rparr>"
  using assms by (simp add: ex_client_simps)

lemma ex_write_client:
  assumes "m (head_key ex_anchor_cfg) = None" and "m (tail_key ex_anchor_cfg) = None"
  shows "client_tx ex_anchor_cfg (AccessTracker_tracking b) AccessTracker_new ex_p ex_bump (ex_write v) m []
    (ex_write_tx b v m)"
  unfolding client_tx_def
  by (intro exI [of _ "ex_db m"] exI conjI, simp add: ex_client_simps, simp add: ex_client_simps,
      rule ex_client_new [OF assms], simp add: ex_write_def, simp add: ex_client_simps)
    (simp_all add: ex_write_tx_def ex_client_simps)

lemma ex_copy_client:
  assumes "m (head_key ex_anchor_cfg) = None" and "m (tail_key ex_anchor_cfg) = None"
  shows "client_tx ex_anchor_cfg (AccessTracker_tracking b) AccessTracker_new ex_p ex_bump ex_copy m
    [Obs_get (m [1])] (ex_copy_tx b m)"
  unfolding client_tx_def
  by (intro exI [of _ "ex_db m"] exI conjI, simp add: ex_client_simps, simp add: ex_client_simps,
      rule ex_client_new [OF assms], simp add: ex_copy_def ex_db_def Session_get_def, simp add: ex_client_simps)
    (simp_all add: ex_copy_tx_def ex_client_simps)

lemma ex_rollup_accepts:
  assumes "SubmitterByNames s 5 = Some 7" and "rt_actions tx = []"
    and "\<forall>k v. Cond_Eq k v \<in> set (rt_conds tx) \<longrightarrow> States s 5 k = v"
  shows "Anchor_rollup ex_anchor_cfg (Some 7) 5 tx 0 s =
    Inr (deposit_event (RollupExecuted 7 5 0) (with_store 5 (apply_to_store (rt_updates tx) (States s 5)) s))"
  using assms by (simp add: Anchor_rollup_Inr apply_updates_store)

lemma ex_keys: "prog_keys_in {[1], [2]} (ex_write v)" "prog_keys_in {[1], [2]} ex_copy"
  by (simp_all add: ex_write_def ex_copy_def)

lemma ex_discipline:
  assumes "L \<subseteq> {[1], [2], [3]}"
  shows "rollup_discipline ex_anchor_cfg ex_p L {[1], [2]} ex_bump ex_ver_num"
proof -
  have hd: "hd (l @ ex_p) \<noteq> 113" if "l \<in> L" for l using assms that by auto
  have q: "hd (head_key ex_anchor_cfg) = 113" "hd (tail_key ex_anchor_cfg) = 113" "hd (item_key ex_anchor_cfg i) = 113" for i
    by (simp_all add: head_key_def tail_key_def item_key_def ex_anchor_cfg_def)
  have "l @ ex_p \<noteq> head_key ex_anchor_cfg" "l @ ex_p \<noteq> tail_key ex_anchor_cfg" "l @ ex_p \<noteq> item_key ex_anchor_cfg i"
    if "l \<in> L" for l i
    using hd [OF that] q by metis+
  moreover have "[1] \<noteq> head_key ex_anchor_cfg" "[2] \<noteq> head_key ex_anchor_cfg"
    "[1] \<noteq> tail_key ex_anchor_cfg" "[2] \<noteq> tail_key ex_anchor_cfg"
    "[1] \<noteq> item_key ex_anchor_cfg i" "[2] \<noteq> item_key ex_anchor_cfg i" for i
    by (simp_all add: head_key_def tail_key_def item_key_def ex_anchor_cfg_def)
  moreover have "[1] \<noteq> l @ ex_p" "[2] \<noteq> l @ ex_p" for l
    by (auto simp: ex_p_def dest: arg_cong [where f = length])
  ultimately show ?thesis
    by (auto simp: rollup_discipline_def ex_anchor_ok ex_bump_def ex_ver_num_def split: option.split)
qed

text \<open>
  C30: The read tracker does not isolate transactions. It checks no version of a key that is only
  written, yet the roll-up sets that version from the snapshot, so a delayed blind write can restore
  a version number while it changes the value. Here two blind writes are committed, a third client
  reads the first value, the second write lands with the same version number, and the third client
  is still accepted although the value it read and copied is gone.
\<close>

theorem read_tracker_not_serializable:
  "\<exists>s s0 s'. rollup_hist ex_anchor_cfg ReadTracker AccessTracker_new ex_p ex_bump {[1], [2]} 5 [s, s0, ex_anchor] \<and>
    client_tx ex_anchor_cfg ReadTracker AccessTracker_new ex_p ex_bump ex_copy (States s0 5)
      [Obs_get (Some [20])] (ex_copy_tx False (States s0 5)) \<and>
    Anchor_rollup ex_anchor_cfg (Some 7) 5 (ex_copy_tx False (States s0 5)) 0 s = Inr s' \<and>
    States s 5 [1] = Some [10] \<and> States s' 5 [2] = Some [20]"
proof -
  let ?dep = "deposit_event (RollupExecuted 7 5 0)" and ?m = "States ex_anchor 5"
  define txb where "txb = ex_write_tx False [20] ?m"
  define txa where "txa = ex_write_tx False [10] ?m"
  define s0 where "s0 = ?dep (with_store 5 (apply_to_store (rt_updates txb) ?m) ex_anchor)"
  define s where "s = ?dep (with_store 5 (apply_to_store (rt_updates txa) (States s0 5)) s0)"
  have key: "ex_p \<noteq> []" by (simp add: ex_p_def)
  have sub: "SubmitterByNames ex_anchor 5 = Some 7" "SubmitterByNames s0 5 = Some 7" "SubmitterByNames s 5 = Some 7"
    by (simp_all add: s_def s0_def ex_anchor_def)
  have st0: "States s0 5 = [[1] \<mapsto> [20], [1] @ ex_p \<mapsto> [0]]" and st: "States s 5 = [[1] \<mapsto> [10], [1] @ ex_p \<mapsto> [0]]"
    using key by (auto simp: s0_def s_def txa_def txb_def ex_write_tx_def apply_to_store_def ex_anchor_def ex_bump_def)
  have v: "States s0 5 [1] = Some [20]" using key by (simp add: st0)
  have nq: "?m (head_key ex_anchor_cfg) = None" "?m (tail_key ex_anchor_cfg) = None"
    by (simp_all add: ex_anchor_def)
  have nq0: "States s0 5 (head_key ex_anchor_cfg) = None" "States s0 5 (tail_key ex_anchor_cfg) = None"
    by (auto simp: st0 ex_p_def head_key_def tail_key_def ex_anchor_cfg_def)
  have b: "Anchor_rollup ex_anchor_cfg (Some 7) 5 txb 0 ex_anchor = Inr s0"
    using ex_rollup_accepts [OF sub(1)] by (simp add: txb_def ex_write_tx_def s0_def)
  have a: "Anchor_rollup ex_anchor_cfg (Some 7) 5 txa 0 s0 = Inr s"
    using ex_rollup_accepts [OF sub(2)] by (simp add: txa_def ex_write_tx_def s_def)
  have "rollup_hist ex_anchor_cfg ReadTracker AccessTracker_new ex_p ex_bump {[1], [2]} 5 [ex_anchor]"
    by (rule rh_init [OF ex_anchor_ok(3)])
  then have "rollup_hist ex_anchor_cfg ReadTracker AccessTracker_new ex_p ex_bump {[1], [2]} 5 [s0, ex_anchor]"
    by (rule rh_commit [OF _ _ ex_write_client [OF nq, of False "[20]", folded txb_def] ex_keys(1) b]) simp
  then have h: "rollup_hist ex_anchor_cfg ReadTracker AccessTracker_new ex_p ex_bump {[1], [2]} 5 [s, s0, ex_anchor]"
    by (rule rh_commit [OF _ _ ex_write_client [OF nq, of False "[10]", folded txa_def] ex_keys(1) a]) simp
  have d: "client_tx ex_anchor_cfg ReadTracker AccessTracker_new ex_p ex_bump ex_copy (States s0 5)
      [Obs_get (Some [20])] (ex_copy_tx False (States s0 5))"
    using ex_copy_client [OF nq0, of False] v by simp
  obtain s' where r: "Anchor_rollup ex_anchor_cfg (Some 7) 5 (ex_copy_tx False (States s0 5)) 0 s = Inr s'"
    and s': "s' = ?dep (with_store 5 (apply_to_store (rt_updates (ex_copy_tx False (States s0 5))) (States s 5)) s)"
    using ex_rollup_accepts [OF sub(3), of "ex_copy_tx False (States s0 5)"] by (simp add: ex_copy_tx_def st st0)
  have "States s' 5 [2] = Some [20]" "States s 5 [1] = Some [10]"
    using key by (simp_all add: s' st st0 ex_copy_tx_def apply_to_store_def)
  with h d r show ?thesis by blast
qed

section \<open>Witnesses\<close>

definition ex_lock_tx :: "(bytes \<Rightarrow> bytes option) \<Rightarrow> RollupTx" where
  "ex_lock_tx m =
     \<lparr>rt_conds = [Cond_Eq ([3] @ ex_p) (m ([3] @ ex_p))], rt_actions = [],
      rt_updates = [([2], Some (unwrap_or (m [1]) [])), ([3] @ ex_p, Some (projr (ex_bump (m ([3] @ ex_p)))))]\<rparr>"

lemma ex_lock_client:
  assumes "m (head_key ex_anchor_cfg) = None" and "m (tail_key ex_anchor_cfg) = None"
  shows "client_tx ex_anchor_cfg OneLock_tracking (OneLock_new [3] True) ex_p ex_bump ex_copy m
    [Obs_get (m [1])] (ex_lock_tx m)"
  unfolding client_tx_def
  by (intro exI [of _ "ex_db m"] exI conjI, simp add: ex_client_simps, simp add: ex_client_simps,
      rule ex_client_new [OF assms], simp add: ex_copy_def ex_db_def Session_get_def, simp add: ex_client_simps)
    (simp_all add: ex_lock_tx_def ex_client_simps)

lemma ex_anchor_no_queue:
  "States ex_anchor 5 (head_key ex_anchor_cfg) = None" "States ex_anchor 5 (tail_key ex_anchor_cfg) = None"
  by (simp_all add: ex_anchor_def)

text \<open>A message is pushed between the snapshot and the commit.\<close>

lemma ex_pushed:
  "\<exists>s. Anchor_push_message ex_anchor_cfg 5 [9] ex_anchor = Inr (0, s) \<and> SubmitterByNames s 5 = Some 7 \<and>
    (\<forall>l \<in> {[1], [2], [3]}. States s 5 (l @ ex_p) = None)"
proof -
  have "QueueCapacity ex_anchor_cfg = 8" by (simp add: ex_anchor_cfg_def)
  moreover have "SubmitterByNames ex_anchor 5 = Some 7" by (simp add: ex_anchor_def)
  moreover have "l @ ex_p \<noteq> item_key ex_anchor_cfg 0" "l @ ex_p \<noteq> tail_key ex_anchor_cfg"
    if "l \<in> {[1], [2], [3]}" for l
    using ex_discipline [OF order_refl] that unfolding rollup_discipline_def by blast+
  moreover have "States ex_anchor 5 = Map.empty" by (simp add: ex_anchor_def)
  ultimately show ?thesis
    by (auto simp: push_message_eval [OF ex_anchor_ok(1,3)] simp del: append.simps)
qed

theorem rw_tracker_serializable_witness:
  "\<exists>s s'. Anchor_push_message ex_anchor_cfg 5 [9] ex_anchor = Inr (0, s) \<and>
     Anchor_rollup ex_anchor_cfg (Some 7) 5 (ex_copy_tx True (States ex_anchor 5)) 0 s = Inr s' \<and>
     (\<exists>h t h' m'. queue_at ex_anchor_cfg (States s 5) h t \<and> queue_at ex_anchor_cfg (States s' 5) h' t \<and>
       direct_run ex_copy (States s 5) (queue_contents ex_anchor_cfg (States s 5) h t) =
         ([Obs_get None], m', queue_contents ex_anchor_cfg (States s' 5) h' t) \<and>
       (\<forall>k \<in> {[1], [2]}. States s' 5 k = m' k))"
proof -
  let ?tx = "ex_copy_tx True (States ex_anchor 5)"
  obtain s where p: "Anchor_push_message ex_anchor_cfg 5 [9] ex_anchor = Inr (0, s)"
    and own: "SubmitterByNames s 5 = Some 7" and ver: "\<forall>l \<in> {[1], [2], [3]}. States s 5 (l @ ex_p) = None"
    using ex_pushed by blast
  have h: "rollup_hist ex_anchor_cfg RwTracker AccessTracker_new ex_p ex_bump {[1], [2]} 5 [s, ex_anchor]"
    by (rule rh_push [OF rh_init [OF ex_anchor_ok(3)] p]) simp
  have c: "client_tx ex_anchor_cfg RwTracker AccessTracker_new ex_p ex_bump ex_copy (States ex_anchor 5) [Obs_get None] ?tx"
    using ex_copy_client [OF ex_anchor_no_queue, of True] by (simp add: ex_anchor_def)
  have "\<forall>k v. Cond_Eq k v \<in> set (rt_conds ?tx) \<longrightarrow> States s 5 k = v"
    using ver by (auto simp: ex_copy_tx_def ex_anchor_def simp del: append.simps)
  then obtain s' where r: "Anchor_rollup ex_anchor_cfg (Some 7) 5 ?tx 0 s = Inr s'"
    using ex_rollup_accepts [OF own, of ?tx] by (auto simp: ex_copy_tx_def)
  from rw_tracker_serializable [OF h ex_discipline _ c ex_keys(2) r] p r show ?thesis by auto
qed

theorem one_lock_serializable_witness:
  "\<exists>s s'. Anchor_push_message ex_anchor_cfg 5 [9] ex_anchor = Inr (0, s) \<and>
     Anchor_rollup ex_anchor_cfg (Some 7) 5 (ex_lock_tx (States ex_anchor 5)) 0 s = Inr s' \<and>
     (\<exists>h t h' m'. queue_at ex_anchor_cfg (States s 5) h t \<and> queue_at ex_anchor_cfg (States s' 5) h' t \<and>
       direct_run ex_copy (States s 5) (queue_contents ex_anchor_cfg (States s 5) h t) =
         ([Obs_get None], m', queue_contents ex_anchor_cfg (States s' 5) h' t) \<and>
       (\<forall>k \<in> {[1], [2]}. States s' 5 k = m' k))"
proof -
  let ?tx = "ex_lock_tx (States ex_anchor 5)"
  obtain s where p: "Anchor_push_message ex_anchor_cfg 5 [9] ex_anchor = Inr (0, s)"
    and own: "SubmitterByNames s 5 = Some 7" and ver: "\<forall>l \<in> {[1], [2], [3]}. States s 5 (l @ ex_p) = None"
    using ex_pushed by blast
  have h: "rollup_hist ex_anchor_cfg OneLock_tracking (OneLock_new [3] True) ex_p ex_bump {[1], [2]} 5 [s, ex_anchor]"
    by (rule rh_push [OF rh_init [OF ex_anchor_ok(3)] p]) simp
  have c: "client_tx ex_anchor_cfg OneLock_tracking (OneLock_new [3] True) ex_p ex_bump ex_copy (States ex_anchor 5)
      [Obs_get None] ?tx"
    using ex_lock_client [OF ex_anchor_no_queue] by (simp add: ex_anchor_def)
  have "\<forall>k v. Cond_Eq k v \<in> set (rt_conds ?tx) \<longrightarrow> States s 5 k = v"
    using ver by (auto simp: ex_lock_tx_def ex_anchor_def simp del: append.simps)
  then obtain s' where r: "Anchor_rollup ex_anchor_cfg (Some 7) 5 ?tx 0 s = Inr s'"
    using ex_rollup_accepts [OF own, of ?tx] by (auto simp: ex_lock_tx_def)
  from one_lock_serializable [OF h ex_discipline _ c ex_keys(2) r] p r show ?thesis by auto
qed

end
