(* ===== verification/Rollup_Oracle.thy ===== *)
theory Rollup_Oracle
  imports Rollup_Anchor
begin

text \<open>
  The sample oracle of \<open>pallets/offchain-rollup/src/oracle.rs\<close>, the response handler of the anchor:
  it records price quotes that contracts send back in roll-up transactions. Decoding of the
  response is a parameter.
\<close>

section \<open>State and operations\<close>

record PriceQuote =
  pq_contract_id :: h256
  pq_price :: u128
  pq_timestamp_ms :: u64

record ResponseRecord =
  rr_owner :: h256
  rr_contract_id :: h256
  rr_pair :: bytes
  rr_price :: u128
  rr_timestamp_ms :: u64

datatype Oracle_Error = FailedToAuthenticateResponse | FailedToDecodeResponse

datatype Oracle_Event = QuoteReceived h256 h256 h256 bytes u128

record oracle_state =
  PriceFeeds :: "h256 \<Rightarrow> bytes \<Rightarrow> PriceQuote option"
  oracle_events :: "Oracle_Event list"

definition Oracle_request :: "anchor_origin \<Rightarrow> 'w anchor_state \<Rightarrow> 'e anchor_exn + 'w anchor_state" where
  "Oracle_request origin s = bind_res (ok_or origin Bad_origin) (\<lambda>_. Inr s)"

definition Oracle_on_response ::
  "(bytes \<Rightarrow> ResponseRecord option) \<Rightarrow> h256 \<Rightarrow> h256 \<Rightarrow> bytes \<Rightarrow> oracle_state anchor_state \<Rightarrow>
   Oracle_Error + oracle_state anchor_state" where
  "Oracle_on_response dec name submitter data s =
     bind_res (ok_or (dec data) FailedToDecodeResponse) (\<lambda>resp.
       if rr_contract_id resp \<noteq> name then Inl FailedToAuthenticateResponse
       else let o1 = anchor_rest s;
                quote = \<lparr>pq_contract_id = rr_contract_id resp, pq_price = rr_price resp,
                         pq_timestamp_ms = rr_timestamp_ms resp\<rparr>;
                o2 = o1\<lparr>PriceFeeds := (PriceFeeds o1)(rr_owner resp :=
                       (PriceFeeds o1 (rr_owner resp))(rr_pair resp \<mapsto> quote))\<rparr>
            in Inr (s\<lparr>anchor_rest := o2\<lparr>oracle_events := oracle_events o2 @
                 [QuoteReceived name submitter (rr_owner resp) (rr_pair resp) (rr_price resp)]\<rparr>\<rparr>))"

text \<open>The anchor configured with the oracle as its handler.\<close>

definition oracle_wired :: "(oracle_state, Oracle_Error) anchor_config \<Rightarrow> (bytes \<Rightarrow> ResponseRecord option) \<Rightarrow> bool" where
  "oracle_wired cfg dec \<longleftrightarrow> on_response cfg = Oracle_on_response dec"

section \<open>Lemmas\<close>

lemma on_response_keeps:
  assumes "Oracle_on_response dec name who data s = Inr s'"
  shows "States s' = States s" "SubmitterByNames s' = SubmitterByNames s"
  using assms by (auto simp: Oracle_on_response_def Let_def split: if_splits)

lemma oracle_keeps_anchor: "oracle_wired cfg dec \<Longrightarrow> handler_keeps_anchor cfg"
  by (auto simp: oracle_wired_def handler_keeps_anchor_def on_response_keeps)

text \<open>The quotes of every contract other than \<open>name\<close> can only disappear by being replaced.\<close>

definition quotes_from :: "oracle_state anchor_state \<Rightarrow> h256 set \<Rightarrow> oracle_state anchor_state \<Rightarrow> bool" where
  "quotes_from s ns s' \<longleftrightarrow> (\<forall>ow pr q. PriceFeeds (anchor_rest s') ow pr = Some q \<longrightarrow>
     PriceFeeds (anchor_rest s) ow pr = Some q \<or> pq_contract_id q \<in> ns)"

lemma quotes_from_refl [simp]: "anchor_rest s' = anchor_rest s \<Longrightarrow> quotes_from s ns s'"
  by (simp add: quotes_from_def)

lemma quotes_from_trans: "quotes_from s ns s1 \<Longrightarrow> quotes_from s1 ns s2 \<Longrightarrow> quotes_from s ns s2"
  by (fastforce simp: quotes_from_def)

lemma quotes_on_response:
  "Oracle_on_response dec name who data s = Inr s' \<Longrightarrow> quotes_from s {name} s'"
  by (auto simp: Oracle_on_response_def quotes_from_def Let_def split: if_splits)

lemma remove_fold_rest:
  "foldM_res (\<lambda>s i. queue_remove cfg name (f i) s) s is = Inr s' \<Longrightarrow> anchor_rest s' = anchor_rest s"
proof (induction "is" arbitrary: s)
  case (Cons i "is")
  then obtain k where "foldM_res (\<lambda>s i. queue_remove cfg name (f i) s) (states_remove name k s) is = Inr s'"
    by (auto simp: queue_remove_def)
  from Cons.IH [OF this] show ?case by (simp add: states_remove_store)
qed simp

lemma queue_head_set_rest:
  assumes "queue_head_set cfg name idx s = Inr s'"
  shows "anchor_rest s' = anchor_rest s"
proof -
  obtain head :: u32 and s1 where "foldM_res (\<lambda>s i. queue_remove cfg name (enc_u32 cfg (of_nat i)) s) s
      [unat head ..< unat idx] = Inr s1" and "queue_set_u32 cfg name head_name idx s1 = Inr s'"
    using assms by (auto simp: queue_head_set_def)
  then show ?thesis
    using remove_fold_rest [of cfg name "\<lambda>i. enc_u32 cfg (of_nat i)"]
    by (auto simp: queue_set_u32_def queue_set_def states_insert_store split: if_splits)
qed

lemma quotes_exec_action:
  assumes "oracle_wired cfg dec" and "exec_action cfg name who s a = Inr s'"
  shows "quotes_from s {name} s'"
proof -
  obtain act where act: "(case act of
         Reply data \<Rightarrow> map_sum Handler_err (\<lambda>s. s) (on_response cfg name who data s)
       | SetQueueHead head \<Rightarrow> queue_head_set cfg name head s) = Inr s'"
    using assms(2) by (auto simp: exec_action_def)
  show ?thesis
  proof (cases act)
    case (Reply data)
    with act have "on_response cfg name who data s = Inr s'"
      by (cases "on_response cfg name who data s") auto
    then show ?thesis using assms(1) quotes_on_response by (auto simp: oracle_wired_def)
  next
    case (SetQueueHead head)
    with act show ?thesis using queue_head_set_rest [of cfg name head s s'] by simp
  qed
qed

lemma quotes_exec_actions:
  assumes "oracle_wired cfg dec" and "foldM_res (exec_action cfg name who) s as = Inr s'"
  shows "quotes_from s {name} s'"
  using assms(2)
proof (induction as arbitrary: s)
  case (Cons a as)
  then obtain s1 where a: "exec_action cfg name who s a = Inr s1"
    and r: "foldM_res (exec_action cfg name who) s1 as = Inr s'" by auto
  show ?case by (rule quotes_from_trans [OF quotes_exec_action [OF assms(1) a] Cons.IH [OF r]])
qed simp

lemma quotes_rollup:
  assumes "oracle_wired cfg dec" and "Anchor_rollup cfg origin name tx nonce s = Inr s'"
  shows "quotes_from s {name} s'"
proof -
  from assms(2) obtain who s1 where
    r: "foldM_res (exec_action cfg name who) (with_store name (apply_to_store (rt_updates tx) (States s name)) s)
       (rt_actions tx) = Inr s1"
    and "s' = deposit_event (RollupExecuted who name nonce) s1"
    by (auto simp: Anchor_rollup_Inr apply_updates_store)
  with quotes_exec_actions [OF assms(1) r] show ?thesis by (simp add: quotes_from_def)
qed

lemma push_rest: "Anchor_push_message cfg name data s = Inr (i, s') \<Longrightarrow> anchor_rest s' = anchor_rest s"
  by (auto simp: Anchor_push_message_def queue_set_def queue_tail_set_def queue_set_u32_def
      states_insert_store split: if_splits)

section \<open>Property\<close>

text \<open>
  C31: Quotes are authentic over every history of the anchor with the oracle as its handler. When
  a step changes the price feed so that a quote of a contract appears, the step was a roll-up
  submitted for that contract's name, signed by the account that owns the name at that time.
\<close>

theorem oracle_quotes_authentic:
  assumes "oracle_wired cfg dec"
    and "PriceFeeds (anchor_rest (anchor_step cfg op s)) ow pr = Some q"
    and "PriceFeeds (anchor_rest s) ow pr \<noteq> Some q"
  shows "\<exists>who tx nonce. op = Op_rollup (Some who) (pq_contract_id q) tx nonce \<and>
    SubmitterByNames s (pq_contract_id q) = Some who"
proof (cases op)
  case (Op_claim origin n)
  with assms show ?thesis by (auto simp: Anchor_claim_name_def split: sum.splits)
next
  case (Op_rollup origin n tx nonce)
  with assms(2,3) obtain s' where r: "Anchor_rollup cfg origin n tx nonce s = Inr s'"
    and q: "PriceFeeds (anchor_rest s') ow pr = Some q"
    by (cases "Anchor_rollup cfg origin n tx nonce s") auto
  from quotes_rollup [OF assms(1) r] q assms(3) have "pq_contract_id q = n" by (auto simp: quotes_from_def)
  with r Op_rollup show ?thesis by (auto simp: Anchor_rollup_Inr)
next
  case (Op_push n data)
  show ?thesis
  proof (cases "Anchor_push_message cfg n data s")
    case (Inr r)
    obtain i s' where "r = (i, s')" by fastforce
    with push_rest [of cfg n data s i s'] Inr Op_push assms show ?thesis by simp
  qed (use Op_push assms in simp)
qed

section \<open>Witness\<close>

definition ex_dec_response :: "bytes \<Rightarrow> ResponseRecord option" where
  "ex_dec_response b = (if b = [] then None else
     Some \<lparr>rr_owner = 1, rr_contract_id = 5, rr_pair = [66], rr_price = 100, rr_timestamp_ms = 0\<rparr>)"

definition ex_oracle_cfg :: "(oracle_state, Oracle_Error) anchor_config" where
  "ex_oracle_cfg = \<lparr>QueuePrefix = [113], QueueCapacity = 8, enc_u32 = le_u32, dec_u32 = un_le_u32,
     enc_arr5 = (\<lambda>a. a), dec_action = (\<lambda>b. Some (Reply b)), on_response = Oracle_on_response ex_dec_response\<rparr>"

definition ex_oracle :: "oracle_state anchor_state" where
  "ex_oracle = \<lparr>SubmitterByNames = [5 \<mapsto> 7], States = (\<lambda>_ _. None), anchor_events = [],
     anchor_rest = \<lparr>PriceFeeds = (\<lambda>_ _. None), oracle_events = []\<rparr>\<rparr>"

theorem oracle_quotes_authentic_witness:
  "(\<exists>q. PriceFeeds (anchor_rest (anchor_step ex_oracle_cfg
      (Op_rollup (Some 7) 5 \<lparr>rt_conds = [], rt_actions = [[1]], rt_updates = []\<rparr> 0) ex_oracle)) 1 [66] = Some q \<and>
    pq_price q = 100) \<and> SubmitterByNames ex_oracle 5 = Some 7"
proof -
  let ?op = "Op_rollup (Some 7) 5 \<lparr>rt_conds = [], rt_actions = [[1]], rt_updates = []\<rparr> 0"
  have wired: "oracle_wired ex_oracle_cfg ex_dec_response" by (simp add: oracle_wired_def ex_oracle_cfg_def)
  have q: "PriceFeeds (anchor_rest (anchor_step ex_oracle_cfg ?op ex_oracle)) 1 [66] =
      Some \<lparr>pq_contract_id = 5, pq_price = 100, pq_timestamp_ms = 0\<rparr>"
    by (simp add: Anchor_rollup_def ensure_name_owner_def exec_action_def ex_oracle_cfg_def ex_oracle_def
        Oracle_on_response_def ex_dec_response_def Let_def)
  moreover have "PriceFeeds (anchor_rest ex_oracle) 1 [66] \<noteq> Some \<lparr>pq_contract_id = 5, pq_price = 100, pq_timestamp_ms = 0\<rparr>"
    by (simp add: ex_oracle_def)
  ultimately show ?thesis using oracle_quotes_authentic [OF wired q] by auto
qed

end
