(* ===== verification/Sgx_Dcap.thy ===== *)
theory Sgx_Dcap
  imports Prelude
begin

text \<open>
  Verification of SGX DCAP quotes: the crate \<open>crates/sgx-attestation\<close> (\<open>dcap.rs\<close>,
  \<open>dcap/quote.rs\<close>, \<open>dcap/utils.rs\<close>, \<open>dcap/tcb_info.rs\<close>, \<open>dcap/constants.rs\<close>).

  Arguments of the model: \<open>sd\<close>, the SCALE decoders of machine integers and byte arrays over a slice,
  and which buffers the allocator of the target can provide;
  \<open>ops\<close>, the certificate, DER, PEM, JSON, date and signature routines of the crates \<open>webpki\<close>,
  \<open>ring\<close>, \<open>x509_cert\<close>, \<open>asn1_der\<close>, \<open>der\<close>, \<open>pem\<close>, \<open>pink_json\<close>, \<open>chrono\<close> and \<open>hex\<close>.
\<close>

section \<open>Quotes and their decoding\<close>

text \<open>
  \<open>Decode\<close> for \<open>u16\<close>, \<open>u32\<close>, and \<open>Input::read\<close> of a given number of bytes. A derived \<open>Decode\<close>
  of a structure decodes its fields in order. \<open>can_alloc n\<close>: the target can allocate \<open>n\<close> bytes (there
  is memory, and \<open>n\<close> does not exceed the largest \<open>isize\<close>, which has 32 bits in a WASM runtime); when
  it cannot, the allocation panics.
\<close>

record scale_dec =
  de_u16 :: "bytes \<Rightarrow> (u16 \<times> bytes) option"
  de_u32 :: "bytes \<Rightarrow> (u32 \<times> bytes) option"
  read_bytes :: "nat \<Rightarrow> bytes \<Rightarrow> (bytes \<times> bytes) option"
  can_alloc :: "nat \<Rightarrow> bool"

record Quote_Header =
  hd_version :: u16
  hd_attestation_key_type :: u16
  hd_tee_type :: u32
  hd_qe_svn :: u16
  hd_pce_svn :: u16
  hd_qe_vendor_id :: bytes
  hd_user_data :: bytes

record Quote_Body =
  body_type :: u16
  body_size :: u32

record EnclaveReport =
  er_cpu_svn :: bytes
  er_misc_select :: u32
  er_reserved1 :: bytes
  er_attributes :: bytes
  er_mr_enclave :: bytes
  er_reserved2 :: bytes
  er_mr_signer :: bytes
  er_reserved3 :: bytes
  er_isv_prod_id :: u16
  er_isv_svn :: u16
  er_reserved4 :: bytes
  er_report_data :: bytes

record CertificationData =
  cert_type :: u16
  cert_body :: bytes

record QEReportCertificationData =
  qc_qe_report :: bytes
  qc_qe_report_signature :: bytes
  qc_qe_auth_data :: bytes
  qc_certification_data :: CertificationData

record AuthDataV3 =
  a3_ecdsa_signature :: bytes
  a3_ecdsa_attestation_key :: bytes
  a3_qe_report :: bytes
  a3_qe_report_signature :: bytes
  a3_qe_auth_data :: bytes
  a3_certification_data :: CertificationData

record AuthDataV4 =
  a4_ecdsa_signature :: bytes
  a4_ecdsa_attestation_key :: bytes
  a4_certification_data :: CertificationData
  a4_qe_report_data :: QEReportCertificationData

datatype AuthData = V3 AuthDataV3 | V4 AuthDataV4

record Quote =
  quote_header :: Quote_Header
  quote_report :: EnclaveReport
  quote_auth_data :: AuthData

definition QUOTE_VERSION_V3 :: u16 where "QUOTE_VERSION_V3 = 3"
definition ATTESTATION_KEY_TYPE_ECDSA256_WITH_P256_CURVE :: u16 where
  "ATTESTATION_KEY_TYPE_ECDSA256_WITH_P256_CURVE = 2"
definition BODY_SGX_ENCLAVE_REPORT_TYPE :: u16 where "BODY_SGX_ENCLAVE_REPORT_TYPE = 1"
definition ENCLAVE_REPORT_BYTE_LEN :: nat where "ENCLAVE_REPORT_BYTE_LEN = 384"
definition HEADER_BYTE_LEN :: nat where "HEADER_BYTE_LEN = 48"
definition ECDSA_SIGNATURE_BYTE_LEN :: nat where "ECDSA_SIGNATURE_BYTE_LEN = 64"
definition ECDSA_PUBKEY_BYTE_LEN :: nat where "ECDSA_PUBKEY_BYTE_LEN = 64"
definition QE_REPORT_SIG_BYTE_LEN :: nat where "QE_REPORT_SIG_BYTE_LEN = 64"
definition ATTESTATION_KEY_LEN :: nat where "ATTESTATION_KEY_LEN = 64"
definition AUTHENTICATION_DATA_LEN :: nat where "AUTHENTICATION_DATA_LEN = 32"
definition QE_HASH_DATA_BYTE_LEN :: nat where
  "QE_HASH_DATA_BYTE_LEN = ATTESTATION_KEY_LEN + AUTHENTICATION_DATA_LEN"

lemmas byte_lens =
  ENCLAVE_REPORT_BYTE_LEN_def HEADER_BYTE_LEN_def ECDSA_SIGNATURE_BYTE_LEN_def
  ECDSA_PUBKEY_BYTE_LEN_def QE_REPORT_SIG_BYTE_LEN_def ATTESTATION_KEY_LEN_def
  AUTHENTICATION_DATA_LEN_def QE_HASH_DATA_BYTE_LEN_def

text \<open>
  Sequential decoding: a decoder returns a value and the remaining input, fails (\<open>scale::Error\<close>), or
  panics.
\<close>

type_synonym 'a parser = "bytes \<Rightarrow> unit exn + ('a \<times> bytes)"

definition pbind :: "'a parser \<Rightarrow> ('a \<Rightarrow> 'b parser) \<Rightarrow> 'b parser" where
  "pbind p f bs = (case p bs of Inl e \<Rightarrow> Inl e | Inr (x, r) \<Rightarrow> f x r)"

definition preturn :: "'a \<Rightarrow> 'a parser" where
  "preturn x bs = Inr (x, bs)"

definition pfail :: "'a parser" where
  "pfail bs = Inl (Fails ())"

text \<open>A primitive that can only fail, and the allocation of \<open>vec![0u8; n]\<close>.\<close>

definition prim :: "(bytes \<Rightarrow> ('a \<times> bytes) option) \<Rightarrow> 'a parser" where
  "prim p bs = (case p bs of None \<Rightarrow> Inl (Fails ()) | Some z \<Rightarrow> Inr z)"

definition valloc :: "scale_dec \<Rightarrow> nat \<Rightarrow> unit parser" where
  "valloc sd n bs = (if can_alloc sd n then Inr ((), bs) else Inl Panics)"

definition Data_u16_decode :: "scale_dec \<Rightarrow> bytes parser" where
  "Data_u16_decode sd = pbind (prim (de_u16 sd)) (\<lambda>n. pbind (valloc sd (unat n)) (\<lambda>_. prim (read_bytes sd (unat n))))"

definition Data_u32_decode :: "scale_dec \<Rightarrow> bytes parser" where
  "Data_u32_decode sd = pbind (prim (de_u32 sd)) (\<lambda>n. pbind (valloc sd (unat n)) (\<lambda>_. prim (read_bytes sd (unat n))))"

definition Header_decode :: "scale_dec \<Rightarrow> Quote_Header parser" where
  "Header_decode sd =
     pbind (prim (de_u16 sd)) (\<lambda>v. pbind (prim (de_u16 sd)) (\<lambda>k. pbind (prim (de_u32 sd)) (\<lambda>t.
     pbind (prim (de_u16 sd)) (\<lambda>q. pbind (prim (de_u16 sd)) (\<lambda>p.
     pbind (prim (read_bytes sd 16)) (\<lambda>vid. pbind (prim (read_bytes sd 20)) (\<lambda>ud.
       preturn \<lparr>hd_version = v, hd_attestation_key_type = k, hd_tee_type = t, hd_qe_svn = q,
         hd_pce_svn = p, hd_qe_vendor_id = vid, hd_user_data = ud\<rparr>)))))))"

definition Body_decode :: "scale_dec \<Rightarrow> Quote_Body parser" where
  "Body_decode sd = pbind (prim (de_u16 sd)) (\<lambda>t. pbind (prim (de_u32 sd)) (\<lambda>n.
     preturn \<lparr>body_type = t, body_size = n\<rparr>))"

definition EnclaveReport_decode :: "scale_dec \<Rightarrow> EnclaveReport parser" where
  "EnclaveReport_decode sd =
     pbind (prim (read_bytes sd 16)) (\<lambda>cs. pbind (prim (de_u32 sd)) (\<lambda>ms. pbind (prim (read_bytes sd 28)) (\<lambda>r1.
     pbind (prim (read_bytes sd 16)) (\<lambda>at. pbind (prim (read_bytes sd 32)) (\<lambda>me. pbind (prim (read_bytes sd 32)) (\<lambda>r2.
     pbind (prim (read_bytes sd 32)) (\<lambda>msg. pbind (prim (read_bytes sd 96)) (\<lambda>r3. pbind (prim (de_u16 sd)) (\<lambda>ip.
     pbind (prim (de_u16 sd)) (\<lambda>isv. pbind (prim (read_bytes sd 60)) (\<lambda>r4. pbind (prim (read_bytes sd 64)) (\<lambda>rd.
       preturn \<lparr>er_cpu_svn = cs, er_misc_select = ms, er_reserved1 = r1, er_attributes = at,
         er_mr_enclave = me, er_reserved2 = r2, er_mr_signer = msg, er_reserved3 = r3,
         er_isv_prod_id = ip, er_isv_svn = isv, er_reserved4 = r4, er_report_data = rd\<rparr>))))))))))))"

definition CertificationData_decode :: "scale_dec \<Rightarrow> CertificationData parser" where
  "CertificationData_decode sd = pbind (prim (de_u16 sd)) (\<lambda>t. pbind (Data_u32_decode sd) (\<lambda>b.
     preturn \<lparr>cert_type = t, cert_body = b\<rparr>))"

definition QEReportCertificationData_decode :: "scale_dec \<Rightarrow> QEReportCertificationData parser" where
  "QEReportCertificationData_decode sd =
     pbind (prim (read_bytes sd ENCLAVE_REPORT_BYTE_LEN)) (\<lambda>qr.
     pbind (prim (read_bytes sd QE_REPORT_SIG_BYTE_LEN)) (\<lambda>qs. pbind (Data_u16_decode sd) (\<lambda>qa.
     pbind (CertificationData_decode sd) (\<lambda>cd.
       preturn \<lparr>qc_qe_report = qr, qc_qe_report_signature = qs, qc_qe_auth_data = qa,
         qc_certification_data = cd\<rparr>))))"

definition AuthDataV3_decode :: "scale_dec \<Rightarrow> AuthDataV3 parser" where
  "AuthDataV3_decode sd =
     pbind (prim (read_bytes sd ECDSA_SIGNATURE_BYTE_LEN)) (\<lambda>es.
     pbind (prim (read_bytes sd ECDSA_PUBKEY_BYTE_LEN)) (\<lambda>ek.
     pbind (prim (read_bytes sd ENCLAVE_REPORT_BYTE_LEN)) (\<lambda>qr.
     pbind (prim (read_bytes sd QE_REPORT_SIG_BYTE_LEN)) (\<lambda>qs. pbind (Data_u16_decode sd) (\<lambda>qa.
     pbind (CertificationData_decode sd) (\<lambda>cd.
       preturn \<lparr>a3_ecdsa_signature = es, a3_ecdsa_attestation_key = ek, a3_qe_report = qr,
         a3_qe_report_signature = qs, a3_qe_auth_data = qa, a3_certification_data = cd\<rparr>))))))"

definition AuthDataV4_decode :: "scale_dec \<Rightarrow> AuthDataV4 parser" where
  "AuthDataV4_decode sd =
     pbind (prim (read_bytes sd ECDSA_SIGNATURE_BYTE_LEN)) (\<lambda>es.
     pbind (prim (read_bytes sd ECDSA_PUBKEY_BYTE_LEN)) (\<lambda>ek.
     pbind (CertificationData_decode sd) (\<lambda>cd.
       case QEReportCertificationData_decode sd (cert_body cd) of
         Inl e \<Rightarrow> (\<lambda>_. Inl e)
       | Inr (qd, _) \<Rightarrow> preturn \<lparr>a4_ecdsa_signature = es, a4_ecdsa_attestation_key = ek,
           a4_certification_data = cd, a4_qe_report_data = qd\<rparr>)))"

definition decode_auth_data :: "scale_dec \<Rightarrow> u16 \<Rightarrow> AuthData parser" where
  "decode_auth_data sd ver =
     (if ver = 3 then pbind (AuthDataV3_decode sd) (\<lambda>a. preturn (V3 a))
      else if ver = 4 then pbind (AuthDataV4_decode sd) (\<lambda>a. preturn (V4 a))
      else pfail)"

definition report_and_auth_decode :: "scale_dec \<Rightarrow> u16 \<Rightarrow> (EnclaveReport \<times> bytes) parser" where
  "report_and_auth_decode sd version =
     (if version > 4
      then pbind (Body_decode sd) (\<lambda>body.
        if body_type body \<noteq> BODY_SGX_ENCLAVE_REPORT_TYPE then pfail
        else pbind (EnclaveReport_decode sd) (\<lambda>report.
             pbind (Data_u32_decode sd) (\<lambda>data. preturn (report, data))))
      else pbind (EnclaveReport_decode sd) (\<lambda>report.
           pbind (Data_u32_decode sd) (\<lambda>data. preturn (report, data))))"

definition Quote_decode :: "scale_dec \<Rightarrow> Quote parser" where
  "Quote_decode sd =
     pbind (Header_decode sd) (\<lambda>header.
     pbind (report_and_auth_decode sd (hd_version header)) (\<lambda>(report, data).
       case decode_auth_data sd (hd_version header) data of
         Inl e \<Rightarrow> (\<lambda>_. Inl e)
       | Inr (auth, _) \<Rightarrow> preturn \<lparr>quote_header = header, quote_report = report,
           quote_auth_data = auth\<rparr>))"

fun Quote_raw_cert_chain :: "AuthData \<Rightarrow> bytes" where
  "Quote_raw_cert_chain (V3 data) = cert_body (a3_certification_data data)"
| "Quote_raw_cert_chain (V4 data) = cert_body (qc_certification_data (a4_qe_report_data data))"

section \<open>Certificates and collateral\<close>

datatype Sgx_Error =
    InvalidCertificate | InvalidSignature | CodecError
  | TCBInfoExpired | KeyLengthIsInvalid | PublicKeyIsInvalid | RsaSignatureIsInvalid
  | DerEncodingError | UnsupportedDCAPQuoteVersion | UnsupportedDCAPAttestationKeyType
  | UnsupportedQuoteAuthData | UnsupportedDCAPPckCertFormat | LeafCertificateParsingError
  | CertificateChainIsInvalid | CertificateChainIsTooShort
  | IntelExtensionCertificateDecodingError | IntelExtensionAmbiguity | CpuSvnLengthMismatch
  | CpuSvnDecodingError | PceSvnDecodingError | PceSvnLengthMismatch | FmspcLengthMismatch
  | FmspcDecodingError | FmspcMismatch | QEReportHashMismatch
  | IsvEnclaveReportSignatureIsInvalid | DerDecodingError | OidIsMissing

record Tcb =
  tcb_components :: "u8 list"
  tcb_pce_svn :: u16

record TcbLevel =
  tl_tcb :: Tcb
  tl_tcb_date :: string
  tl_tcb_status :: string
  tl_advisory_ids :: "string list"

record TcbInfo =
  ti_id :: string
  ti_version :: u8
  ti_issue_date :: string
  ti_next_update :: string
  ti_fmspc :: string
  ti_pce_id :: string
  ti_tcb_type :: u32
  ti_tcb_evaluation_data_number :: u32
  ti_tcb_levels :: "TcbLevel list"

record SgxV30QuoteCollateral =
  co_pck_crl_issuer_chain :: bytes
  co_root_ca_crl :: bytes
  co_pck_crl :: bytes
  co_tcb_info_issuer_chain :: bytes
  co_tcb_info :: bytes
  co_tcb_info_signature :: bytes
  co_qe_identity_issuer_chain :: bytes
  co_qe_identity :: bytes
  co_qe_identity_signature :: bytes

text \<open>
  The library routines. A DER object has the type \<open>'o\<close>; \<open>seq_load\<close> gives, for an object that is a
  sequence, what \<open>get\<close> returns at each index below \<open>len\<close>.
\<close>

record 'o sgx_ops =
  json_tcb_info :: "bytes \<Rightarrow> TcbInfo option"
  rfc3339_timestamp :: "string \<Rightarrow> u64 option"
  pem_parse_many :: "bytes \<Rightarrow> bytes list option"
  EndEntityCert_ok :: "bytes \<Rightarrow> bool"
  cert_verify_for_usage :: "bytes \<Rightarrow> bytes list \<Rightarrow> u64 \<Rightarrow> bool"
  cert_verify_signature :: "bytes \<Rightarrow> bytes \<Rightarrow> bytes \<Rightarrow> bool"
  UintRef_ok :: "bytes \<Rightarrow> bool"
  der_encode_pair :: "bytes \<Rightarrow> bytes \<Rightarrow> bytes option"
  sha256 :: "bytes \<Rightarrow> bytes"
  ecdsa_p256_fixed_verify :: "bytes \<Rightarrow> bytes \<Rightarrow> bytes \<Rightarrow> bool"
  x509_extensions :: "bytes \<Rightarrow> (bytes \<times> bytes) list option option"
  oid_bytes :: "string \<Rightarrow> bytes"
  DerObject_decode :: "bytes \<Rightarrow> 'o option"
  Sequence_load :: "'o \<Rightarrow> 'o option list option"
  DerObject_value :: "'o \<Rightarrow> bytes"
  hex_decode :: "string \<Rightarrow> bytes option"

definition oids_SGX_EXTENSION :: string where "oids_SGX_EXTENSION = ''1.2.840.113741.1.13.1''"
definition oids_TCB :: string where "oids_TCB = ''1.2.840.113741.1.13.1.2''"
definition oids_FMSPC :: string where "oids_FMSPC = ''1.2.840.113741.1.13.1.4''"
definition oids_PCESVN :: string where "oids_PCESVN = ''1.2.840.113741.1.13.1.2.17''"
definition oids_CPUSVN :: string where "oids_CPUSVN = ''1.2.840.113741.1.13.1.2.18''"

definition get_intel_extension :: "'o sgx_ops \<Rightarrow> bytes \<Rightarrow> Sgx_Error + bytes" where
  "get_intel_extension ops der_encoded =
     bind_res (ok_or (x509_extensions ops der_encoded) IntelExtensionCertificateDecodingError)
       (\<lambda>exts. case map snd (filter (\<lambda>e. fst e = oid_bytes ops oids_SGX_EXTENSION) (unwrap_or exts [])) of
          [] \<Rightarrow> Inl IntelExtensionAmbiguity
        | [extension] \<Rightarrow> Inr extension
        | _ \<Rightarrow> Inl IntelExtensionAmbiguity)"

text \<open>\<open>seq.get(i)\<close> on the model of a sequence.\<close>

definition seq_get :: "'o option list \<Rightarrow> nat \<Rightarrow> 'o option" where
  "seq_get es i = (if i < length es then es ! i else None)"

fun sub_obj :: "'o sgx_ops \<Rightarrow> bytes \<Rightarrow> 'o option list \<Rightarrow> Sgx_Error + 'o" where
  "sub_obj ops oid [] = Inl OidIsMissing"
| "sub_obj ops oid (e # es) =
     bind_res (ok_or e OidIsMissing) (\<lambda>entry.
     bind_res (ok_or (Sequence_load ops entry) DerDecodingError) (\<lambda>entry.
     bind_res (ok_or (seq_get entry 0) OidIsMissing) (\<lambda>name.
     bind_res (ok_or (seq_get entry 1) OidIsMissing) (\<lambda>val.
       if DerObject_value ops name = oid then Inr val else sub_obj ops oid es))))"

definition get_obj :: "'o sgx_ops \<Rightarrow> bytes list \<Rightarrow> 'o \<Rightarrow> Sgx_Error + 'o" where
  "get_obj ops path ob =
     foldM_res (\<lambda>ob oid. bind_res (ok_or (Sequence_load ops ob) DerDecodingError)
       (\<lambda>sq. sub_obj ops oid sq)) ob path"

definition find_extension :: "'o sgx_ops \<Rightarrow> bytes list \<Rightarrow> bytes \<Rightarrow> Sgx_Error + bytes" where
  "find_extension ops path raw =
     bind_res (ok_or (DerObject_decode ops raw) DerDecodingError) (\<lambda>ob.
     bind_res (get_obj ops path ob) (\<lambda>sub. Inr (DerObject_value ops sub)))"

definition get_fmspc :: "'o sgx_ops \<Rightarrow> bytes \<Rightarrow> Sgx_Error + bytes" where
  "get_fmspc ops ext =
     bind_res (find_extension ops [oid_bytes ops oids_FMSPC] ext) (\<lambda>data.
       if length data \<noteq> 6 then Inl FmspcLengthMismatch else Inr data)"

definition get_cpu_svn :: "'o sgx_ops \<Rightarrow> bytes \<Rightarrow> Sgx_Error + bytes" where
  "get_cpu_svn ops ext =
     bind_res (find_extension ops [oid_bytes ops oids_TCB, oid_bytes ops oids_CPUSVN] ext) (\<lambda>data.
       if length data \<noteq> 16 then Inl CpuSvnLengthMismatch else Inr data)"

definition get_pce_svn :: "'o sgx_ops \<Rightarrow> bytes \<Rightarrow> Sgx_Error + u16" where
  "get_pce_svn ops ext =
     bind_res (find_extension ops [oid_bytes ops oids_TCB, oid_bytes ops oids_PCESVN] ext) (\<lambda>data.
       case data of
         [a] \<Rightarrow> Inr (ucast a)
       | [a, b] \<Rightarrow> Inr (of_nat (256 * unat a + unat b))
       | _ \<Rightarrow> Inl PceSvnLengthMismatch)"

definition extract_raw_certs :: "'o sgx_ops \<Rightarrow> bytes \<Rightarrow> Sgx_Error + bytes list" where
  "extract_raw_certs ops chain = ok_or (pem_parse_many ops chain) CodecError"

definition extract_certs :: "'o sgx_ops \<Rightarrow> bytes \<Rightarrow> Sgx_Error + bytes list" where
  "extract_certs ops chain = bind_res (extract_raw_certs ops chain) Inr"

definition encode_as_der :: "'o sgx_ops \<Rightarrow> bytes \<Rightarrow> Sgx_Error + bytes" where
  "encode_as_der ops data =
     bind_res (ensure (length data = 64) KeyLengthIsInvalid) (\<lambda>_.
     bind_res (ensure (UintRef_ok ops (take 32 data)) PublicKeyIsInvalid) (\<lambda>_.
     bind_res (ensure (UintRef_ok ops (drop 32 data)) PublicKeyIsInvalid) (\<lambda>_.
       ok_or (der_encode_pair ops (take 32 data) (drop 32 data)) DerEncodingError)))"

definition verify_certificate_chain :: "'o sgx_ops \<Rightarrow> bytes \<Rightarrow> bytes list \<Rightarrow> u64 \<Rightarrow> Sgx_Error + unit" where
  "verify_certificate_chain ops leaf_cert intermediate_certs verification_time =
     ensure (cert_verify_for_usage ops leaf_cert intermediate_certs (verification_time div 1000))
       CertificateChainIsInvalid"

text \<open>\<open>Quote::fmspc\<close> indexes the first certificate and panics when the chain has none.\<close>

definition lift_err :: "'e + 'a \<Rightarrow> 'e exn + 'a" where
  "lift_err r = (case r of Inl e \<Rightarrow> Inl (Fails e) | Inr x \<Rightarrow> Inr x)"

definition Quote_fmspc :: "'o sgx_ops \<Rightarrow> Quote \<Rightarrow> Sgx_Error exn + bytes" where
  "Quote_fmspc ops q =
     bind_res (lift_err (extract_certs ops (Quote_raw_cert_chain (quote_auth_data q)))) (\<lambda>certs.
       case certs of
         [] \<Rightarrow> Inl Panics
       | c # _ \<Rightarrow> lift_err (bind_res (get_intel_extension ops c) (get_fmspc ops)))"

section \<open>Verification\<close>

text \<open>\<open>map_err(|_| Error::CodecError)\<close> on a decoder's result.\<close>

fun or_codec_error :: "unit exn + 'a \<Rightarrow> Sgx_Error exn + 'a" where
  "or_codec_error (Inl Panics) = Inl Panics"
| "or_codec_error (Inl (Fails _)) = Inl (Fails CodecError)"
| "or_codec_error (Inr x) = Inr x"

text \<open>Parsing the quote and the TCB info, which must not have expired.\<close>

definition dcap_parse ::
  "scale_dec \<Rightarrow> 'o sgx_ops \<Rightarrow> bytes \<Rightarrow> SgxV30QuoteCollateral \<Rightarrow> u64 \<Rightarrow> Sgx_Error exn + Quote \<times> TcbInfo" where
  "dcap_parse sd ops raw_quote coll now =
     bind_res (or_codec_error (Quote_decode sd raw_quote)) (\<lambda>(quote, _).
     bind_res (ok_or (json_tcb_info ops (co_tcb_info coll)) (Fails CodecError)) (\<lambda>tcb_info.
     bind_res (ok_or (rfc3339_timestamp ops (ti_next_update tcb_info)) (Fails CodecError)) (\<lambda>next_update.
       if now > next_update then Inl (Fails TCBInfoExpired) else Inr (quote, tcb_info))))"

text \<open>The certificate chain and the signature of the TCB info.\<close>

definition dcap_check_tcb_info ::
  "'o sgx_ops \<Rightarrow> SgxV30QuoteCollateral \<Rightarrow> u64 \<Rightarrow> Sgx_Error + unit" where
  "dcap_check_tcb_info ops coll now_in_milli =
     bind_res (extract_certs ops (co_tcb_info_issuer_chain coll)) (\<lambda>leaf_certs.
     if length leaf_certs < 2 then Inl CertificateChainIsTooShort else
     let leaf_cert = leaf_certs ! 0 in
     bind_res (ensure (EndEntityCert_ok ops leaf_cert) LeafCertificateParsingError) (\<lambda>_.
     bind_res (verify_certificate_chain ops leaf_cert (drop 1 leaf_certs) now_in_milli) (\<lambda>_.
     bind_res (encode_as_der ops (co_tcb_info_signature coll)) (\<lambda>asn1_signature.
       if \<not> cert_verify_signature ops leaf_cert (co_tcb_info coll) asn1_signature
       then Inl RsaSignatureIsInvalid else Inr ()))))"

text \<open>The fields of the quote, the PCK certificate chain, and the signature of the QE report.\<close>

definition dcap_check_pck ::
  "'o sgx_ops \<Rightarrow> Quote \<Rightarrow> u64 \<Rightarrow> Sgx_Error + AuthDataV3 \<times> bytes" where
  "dcap_check_pck ops quote now_in_milli =
     (if hd_version (quote_header quote) \<noteq> QUOTE_VERSION_V3 then Inl UnsupportedDCAPQuoteVersion else
      if hd_attestation_key_type (quote_header quote) \<noteq> ATTESTATION_KEY_TYPE_ECDSA256_WITH_P256_CURVE
      then Inl UnsupportedDCAPAttestationKeyType else
      case quote_auth_data quote of V4 _ \<Rightarrow> Inl UnsupportedQuoteAuthData
      | V3 auth_data \<Rightarrow>
        let certification_data = a3_certification_data auth_data in
        if cert_type certification_data \<noteq> 5 then Inl UnsupportedDCAPPckCertFormat else
        bind_res (extract_certs ops (cert_body certification_data)) (\<lambda>certification_certs.
        if length certification_certs < 2 then Inl CertificateChainIsTooShort else
        let leaf_cert = certification_certs ! 0 in
        bind_res (ensure (EndEntityCert_ok ops leaf_cert) LeafCertificateParsingError) (\<lambda>_.
        bind_res (verify_certificate_chain ops leaf_cert (drop 1 certification_certs) now_in_milli) (\<lambda>_.
        bind_res (encode_as_der ops (a3_qe_report_signature auth_data)) (\<lambda>asn1_signature.
          if \<not> cert_verify_signature ops leaf_cert (a3_qe_report auth_data) asn1_signature
          then Inl RsaSignatureIsInvalid else Inr (auth_data, leaf_cert))))))"

text \<open>\<open>dst.copy_from_slice(src)\<close> panics unless the lengths agree; so does a slice out of range.\<close>

definition copy_from_slice :: "nat \<Rightarrow> bytes \<Rightarrow> 'e exn + bytes" where
  "copy_from_slice n src = (if length src = n then Inr src else Inl Panics)"

definition slice_to :: "bytes \<Rightarrow> nat \<Rightarrow> 'e exn + bytes" where
  "slice_to bs n = (if n \<le> length bs then Inr (take n bs) else Inl Panics)"

text \<open>The hash of the attestation key in the QE report, and the signature of the quote by that key.\<close>

definition dcap_check_quote ::
  "scale_dec \<Rightarrow> 'o sgx_ops \<Rightarrow> bytes \<Rightarrow> AuthDataV3 \<Rightarrow> Sgx_Error exn + unit" where
  "dcap_check_quote sd ops raw_quote auth_data =
     bind_res (or_codec_error (EnclaveReport_decode sd (a3_qe_report auth_data)))
     (\<lambda>(qe_report, _).
     bind_res (copy_from_slice ATTESTATION_KEY_LEN (a3_ecdsa_attestation_key auth_data)) (\<lambda>d1.
     bind_res (copy_from_slice (QE_HASH_DATA_BYTE_LEN - ATTESTATION_KEY_LEN) (a3_qe_auth_data auth_data)) (\<lambda>d2.
     let qe_hash = sha256 ops (d1 @ d2) in
     bind_res (slice_to (er_report_data qe_report) 32) (\<lambda>commit.
     if qe_hash \<noteq> commit then Inl (Fails QEReportHashMismatch) else
     bind_res (copy_from_slice 64 (a3_ecdsa_attestation_key auth_data)) (\<lambda>key.
     let pub_key = 4 # key in
     bind_res (slice_to raw_quote (HEADER_BYTE_LEN + ENCLAVE_REPORT_BYTE_LEN)) (\<lambda>signed.
       if ecdsa_p256_fixed_verify ops pub_key signed (a3_ecdsa_signature auth_data) then Inr ()
       else Inl (Fails IsvEnclaveReportSignatureIsInvalid)))))))"

text \<open>The first TCB level the platform reaches gives the status and the advisories.\<close>

fun tcb_level_status :: "u16 \<Rightarrow> bytes \<Rightarrow> TcbLevel list \<Rightarrow> string \<times> string list" where
  "tcb_level_status pce_svn cpu_svn [] = (''Unknown'', [])"
| "tcb_level_status pce_svn cpu_svn (tcb_level # levels) =
     (if pce_svn \<ge> tcb_pce_svn (tl_tcb tcb_level) \<and>
         \<not> list_ex (\<lambda>(a, b). a < b) (zip cpu_svn (tcb_components (tl_tcb tcb_level)))
      then (tl_tcb_status tcb_level, tl_advisory_ids tcb_level)
      else tcb_level_status pce_svn cpu_svn levels)"

definition to_be_bytes :: "u16 \<Rightarrow> bytes" where
  "to_be_bytes x = [of_nat (unat x div 256), of_nat (unat x mod 256)]"

definition dcap_pruntime_hash :: "EnclaveReport \<Rightarrow> bytes" where
  "dcap_pruntime_hash report = er_mr_enclave report @ to_be_bytes (er_isv_prod_id report) @
     to_be_bytes (er_isv_svn report) @ er_mr_signer report"

text \<open>The platform's security version against the TCB info.\<close>

definition dcap_tcb_status ::
  "'o sgx_ops \<Rightarrow> bytes \<Rightarrow> TcbInfo \<Rightarrow> Sgx_Error + string \<times> string list" where
  "dcap_tcb_status ops leaf_cert tcb_info =
     bind_res (get_intel_extension ops leaf_cert) (\<lambda>extension_section.
     bind_res (get_cpu_svn ops extension_section) (\<lambda>cpu_svn.
     bind_res (get_pce_svn ops extension_section) (\<lambda>pce_svn.
     bind_res (get_fmspc ops extension_section) (\<lambda>fmspc.
     bind_res (ok_or (hex_decode ops (ti_fmspc tcb_info)) CodecError) (\<lambda>tcb_fmspc.
     if fmspc \<noteq> tcb_fmspc then Inl FmspcMismatch
     else Inr (tcb_level_status pce_svn cpu_svn (ti_tcb_levels tcb_info)))))))"

definition dcap_verify ::
  "scale_dec \<Rightarrow> 'o sgx_ops \<Rightarrow> bytes \<Rightarrow> SgxV30QuoteCollateral \<Rightarrow> u64 \<Rightarrow>
   Sgx_Error exn + bytes \<times> bytes \<times> string \<times> string list" where
  "dcap_verify sd ops raw_quote coll now =
     bind_res (dcap_parse sd ops raw_quote coll now) (\<lambda>(quote, tcb_info).
     let now_in_milli = now * 1000 in
     bind_res (lift_err (dcap_check_tcb_info ops coll now_in_milli)) (\<lambda>_.
     bind_res (lift_err (dcap_check_pck ops quote now_in_milli)) (\<lambda>(auth_data, leaf_cert).
     bind_res (dcap_check_quote sd ops raw_quote auth_data) (\<lambda>_.
     bind_res (lift_err (dcap_tcb_status ops leaf_cert tcb_info)) (\<lambda>(tcb_status, advisory_ids).
       Inr (er_report_data (quote_report quote), dcap_pruntime_hash (quote_report quote),
            tcb_status, advisory_ids))))))"

section \<open>Decoders consume what they read\<close>

text \<open>
  The documented behaviour of the SCALE primitives on a slice: a fixed-width integer is read from
  exactly its width of bytes, \<open>read\<close> fills the whole buffer, and both fail on a shorter input.
\<close>

definition fixed_width :: "nat \<Rightarrow> (bytes \<Rightarrow> ('a \<times> bytes) option) \<Rightarrow> bool" where
  "fixed_width n p \<longleftrightarrow> (\<exists>f. \<forall>bs. p bs = (if n \<le> length bs then Some (f (take n bs), drop n bs) else None))"

definition scale_dec_ok :: "scale_dec \<Rightarrow> bool" where
  "scale_dec_ok sd \<longleftrightarrow> fixed_width 2 (de_u16 sd) \<and> fixed_width 4 (de_u32 sd) \<and>
     (\<forall>n bs. read_bytes sd n bs = (if n \<le> length bs then Some (take n bs, drop n bs) else None))"

named_theorems parse_simps \<open>what each decoder reads\<close>

lemma pbind_Inr [simp, parse_simps]:
  "pbind p f bs = Inr (y, r) \<longleftrightarrow> (\<exists>x s. p bs = Inr (x, s) \<and> f x s = Inr (y, r))"
  by (auto simp: pbind_def split: sum.splits)

lemma preturn_Inr [simp, parse_simps]: "preturn x bs = Inr (y, r) \<longleftrightarrow> y = x \<and> r = bs"
  by (auto simp: preturn_def)

lemma pfail_Inr [simp, parse_simps]: "pfail bs \<noteq> Inr z"
  by (simp add: pfail_def)

lemma prim_Inr [simp, parse_simps]: "prim p bs = Inr z \<longleftrightarrow> p bs = Some z"
  by (auto simp: prim_def split: option.splits)

lemma valloc_Inr [simp, parse_simps]: "valloc sd n bs = Inr (u, r) \<longleftrightarrow> can_alloc sd n \<and> r = bs"
  by (auto simp: valloc_def)

lemma nested_Inr:
  "(case m of Inl e \<Rightarrow> (\<lambda>_. Inl e) | Inr (x, _) \<Rightarrow> preturn (g x)) bs = Inr (y, r) \<longleftrightarrow>
     (\<exists>x t. m = Inr (x, t) \<and> y = g x \<and> r = bs)"
  by (cases m) auto

lemma or_codec_error_Inr [simp]: "or_codec_error m = Inr x \<longleftrightarrow> m = Inr x"
  by (cases m rule: or_codec_error.cases) auto

lemma or_codec_error_Panics [simp]: "or_codec_error m = Inl Panics \<longleftrightarrow> m = Inl Panics"
  by (cases m rule: or_codec_error.cases) auto

text \<open>A decoder panics only where the allocator refuses a length that 32 bits hold.\<close>

definition panics_at_alloc :: "scale_dec \<Rightarrow> 'a parser \<Rightarrow> bool" where
  "panics_at_alloc sd p \<longleftrightarrow> (\<forall>bs. p bs = Inl Panics \<longrightarrow> (\<exists>n < 2 ^ 32. \<not> can_alloc sd n))"

lemma panics_at_allocD: "panics_at_alloc sd p \<Longrightarrow> p bs = Inl Panics \<Longrightarrow> \<exists>n < 2 ^ 32. \<not> can_alloc sd n"
  by (auto simp: panics_at_alloc_def)

lemma panics_at_alloc_pbind:
  "panics_at_alloc sd p \<Longrightarrow> (\<And>x. panics_at_alloc sd (f x)) \<Longrightarrow> panics_at_alloc sd (pbind p f)"
  unfolding panics_at_alloc_def pbind_def by (fastforce split: sum.splits)

lemma panics_at_alloc_base:
  "panics_at_alloc sd (prim q)" "panics_at_alloc sd (preturn x)" "panics_at_alloc sd pfail"
  by (auto simp: panics_at_alloc_def prim_def preturn_def pfail_def split: option.splits)

lemma unat_bounds: "unat (n :: u16) < 2 ^ 32" "unat (m :: u32) < 2 ^ 32"
  using unat_less_word [of n] unat_less_word [of m] by simp_all

lemma panics_at_alloc_valloc: "panics_at_alloc sd (valloc sd (unat (n :: u16)))" "panics_at_alloc sd (valloc sd (unat (m :: u32)))"
  unfolding panics_at_alloc_def valloc_def using unat_bounds by auto

lemmas panics_at_alloc_intros = panics_at_alloc_pbind panics_at_alloc_base panics_at_alloc_valloc

lemma lift_err_Inr [simp]: "lift_err r = Inr x \<longleftrightarrow> r = Inr x"
  by (auto simp: lift_err_def split: sum.splits)

lemma lift_err_Panics [simp]: "lift_err r \<noteq> Inl Panics"
  by (auto simp: lift_err_def split: sum.splits)

lemma fixed_width_Some:
  assumes "fixed_width n p" "p bs = Some (x, r)"
  shows "n \<le> length bs \<and> r = drop n bs"
proof -
  from assms(1) obtain f where "p bs = (if n \<le> length bs then Some (f (take n bs), drop n bs) else None)"
    by (auto simp: fixed_width_def)
  then show ?thesis using assms(2) by (simp split: if_splits)
qed

text \<open>What a fixed-width decoder returns is a function of the bytes it consumes.\<close>

lemma fixed_width_cong:
  assumes "fixed_width n p" "p bs = Some (x, r)" "p bs' = Some (x', r')" "take n bs = take n bs'"
  shows "x = x'"
proof -
  from assms(1) obtain f where "p b = (if n \<le> length b then Some (f (take n b), drop n b) else None)" for b
    by (auto simp: fixed_width_def)
  from this [of bs] this [of bs'] show ?thesis using assms by (simp split: if_splits)
qed

lemma read_bytes_Some:
  "scale_dec_ok sd \<Longrightarrow> read_bytes sd n bs = Some (x, r) \<longleftrightarrow> n \<le> length bs \<and> x = take n bs \<and> r = drop n bs"
  by (auto simp: scale_dec_ok_def)

text \<open>The integers at the front of the input.\<close>

definition u16_at :: "scale_dec \<Rightarrow> bytes \<Rightarrow> u16" where
  "u16_at sd bs = fst (the (de_u16 sd bs))"

definition u32_at :: "scale_dec \<Rightarrow> bytes \<Rightarrow> u32" where
  "u32_at sd bs = fst (the (de_u32 sd bs))"

lemma de_u16_Some:
  assumes "scale_dec_ok sd"
  shows "de_u16 sd bs = Some (x, r) \<longleftrightarrow> 2 \<le> length bs \<and> x = u16_at sd bs \<and> r = drop 2 bs"
proof -
  from assms obtain f where "de_u16 sd bs = (if 2 \<le> length bs then Some (f (take 2 bs), drop 2 bs) else None)"
    by (auto simp: scale_dec_ok_def fixed_width_def)
  then show ?thesis by (auto simp: u16_at_def)
qed

lemma de_u32_Some:
  assumes "scale_dec_ok sd"
  shows "de_u32 sd bs = Some (x, r) \<longleftrightarrow> 4 \<le> length bs \<and> x = u32_at sd bs \<and> r = drop 4 bs"
proof -
  from assms obtain f where "de_u32 sd bs = (if 4 \<le> length bs then Some (f (take 4 bs), drop 4 bs) else None)"
    by (auto simp: scale_dec_ok_def fixed_width_def)
  then show ?thesis by (auto simp: u32_at_def)
qed

lemmas reads = read_bytes_Some de_u16_Some de_u32_Some

lemma u16_at_cong:
  assumes "scale_dec_ok sd" "take 2 bs = take 2 bs'" "2 \<le> length bs" "2 \<le> length bs'"
  shows "u16_at sd bs = u16_at sd bs'"
  using fixed_width_cong [of 2 "de_u16 sd" bs "u16_at sd bs" "drop 2 bs" bs' "u16_at sd bs'" "drop 2 bs'"]
    assms by (simp add: reads) (simp add: scale_dec_ok_def)

lemma Header_decode_Some:
  assumes "scale_dec_ok sd" "Header_decode sd bs = Inr (h, r)"
  shows "48 \<le> length bs \<and> r = drop 48 bs \<and> hd_version h = u16_at sd bs"
proof -
  have "20 \<le> length bs - 28" using assms unfolding Header_decode_def by (clarsimp simp: reads)
  then have "48 \<le> length bs" by linarith
  with assms show ?thesis unfolding Header_decode_def by (clarsimp simp: reads)
qed

lemma EnclaveReport_decode_Some:
  assumes "scale_dec_ok sd" "EnclaveReport_decode sd bs = Inr (e, r)"
  shows "384 \<le> length bs \<and> r = drop 384 bs \<and> er_mr_enclave e = take 32 (drop 64 bs) \<and>
    er_mr_signer e = take 32 (drop 128 bs) \<and> er_report_data e = take 64 (drop 320 bs) \<and>
    er_isv_prod_id e = u16_at sd (drop 256 bs) \<and> er_isv_svn e = u16_at sd (drop 258 bs)"
proof -
  have "64 \<le> length bs - 320" using assms unfolding EnclaveReport_decode_def by (clarsimp simp: reads)
  then have "384 \<le> length bs" by linarith
  with assms show ?thesis unfolding EnclaveReport_decode_def by (clarsimp simp: reads)
qed

lemma AuthDataV3_decode_Some:
  assumes "scale_dec_ok sd" "AuthDataV3_decode sd bs = Inr (a, r)"
  shows "length (a3_ecdsa_attestation_key a) = 64 \<and> length (a3_qe_report a) = 384"
  using assms unfolding AuthDataV3_decode_def by (clarsimp simp: reads byte_lens)

text \<open>
  For a quote of version 3, the report is the bytes after the header; its fields are at fixed
  positions within the first 432 bytes of the quote.
\<close>

lemma Quote_decode_V3:
  assumes ok: "scale_dec_ok sd" and d: "Quote_decode sd bs = Inr (q, r)"
    and v: "hd_version (quote_header q) = 3"
  shows "432 \<le> length bs \<and>
    er_mr_enclave (quote_report q) = take 32 (drop 112 bs) \<and>
    er_mr_signer (quote_report q) = take 32 (drop 176 bs) \<and>
    er_report_data (quote_report q) = take 64 (drop 368 bs) \<and>
    er_isv_prod_id (quote_report q) = u16_at sd (drop 304 bs) \<and>
    er_isv_svn (quote_report q) = u16_at sd (drop 306 bs) \<and>
    (\<exists>a. quote_auth_data q = V3 a \<and> length (a3_ecdsa_attestation_key a) = 64 \<and> length (a3_qe_report a) = 384)"
proof -
  from d obtain h s rep dat au t s' where h: "Header_decode sd bs = Inr (h, s)"
    and b: "report_and_auth_decode sd (hd_version h) s = Inr ((rep, dat), s')"
    and au: "decode_auth_data sd (hd_version h) dat = Inr (au, t)"
    and q: "q = \<lparr>quote_header = h, quote_report = rep, quote_auth_data = au\<rparr>"
    by (auto simp: Quote_decode_def nested_Inr split: prod.splits)
  have v3: "hd_version h = 3" using v q by simp
  then obtain s2 where rep: "EnclaveReport_decode sd s = Inr (rep, s2)" using b
    by (auto simp: report_and_auth_decode_def)
  from au v3 obtain a u where "au = V3 a" "AuthDataV3_decode sd dat = Inr (a, u)"
    by (auto simp: decode_auth_data_def)
  then have "\<exists>a. quote_auth_data q = V3 a \<and> length (a3_ecdsa_attestation_key a) = 64 \<and> length (a3_qe_report a) = 384"
    using AuthDataV3_decode_Some [OF ok] q by auto
  then show ?thesis
    using Header_decode_Some [OF ok h] EnclaveReport_decode_Some [OF ok rep] q by auto
qed

lemma fixed_reads:
  assumes "scale_dec_ok sd"
  shows "2 \<le> length bs \<Longrightarrow> de_u16 sd bs = Some (u16_at sd bs, drop 2 bs)"
    and "4 \<le> length bs \<Longrightarrow> de_u32 sd bs = Some (u32_at sd bs, drop 4 bs)"
    and "n \<le> length bs \<Longrightarrow> read_bytes sd n bs = Some (take n bs, drop n bs)"
  using assms by (simp_all add: reads)

lemma EnclaveReport_decode_total:
  assumes "scale_dec_ok sd" "384 \<le> length bs"
  shows "\<exists>e r. EnclaveReport_decode sd bs = Inr (e, r)"
  unfolding EnclaveReport_decode_def
  using assms(2) by (simp add: pbind_def preturn_def prim_def fixed_reads [OF assms(1)])

lemma Header_decode_total:
  assumes "scale_dec_ok sd" "48 \<le> length bs"
  shows "\<exists>h r. Header_decode sd bs = Inr (h, r)"
  unfolding Header_decode_def
  using assms(2) by (simp add: pbind_def preturn_def prim_def fixed_reads [OF assms(1)])

text \<open>Where decoding a quote panics.\<close>

lemma Quote_decode_panics_at_alloc: "panics_at_alloc sd (Quote_decode sd)"
proof -
  have d: "panics_at_alloc sd (Data_u16_decode sd)" "panics_at_alloc sd (Data_u32_decode sd)"
    unfolding Data_u16_decode_def Data_u32_decode_def by (intro panics_at_alloc_intros)+
  have c: "panics_at_alloc sd (CertificationData_decode sd)"
    unfolding CertificationData_decode_def by (intro panics_at_alloc_intros d)
  have qc: "panics_at_alloc sd (QEReportCertificationData_decode sd)"
    unfolding QEReportCertificationData_decode_def by (intro panics_at_alloc_intros d c)
  have nested: "panics_at_alloc sd (case p b of Inl e \<Rightarrow> (\<lambda>_. Inl e) | Inr (x, _) \<Rightarrow> preturn (g x))"
    if "panics_at_alloc sd p" for p :: "'a parser" and b and g :: "'a \<Rightarrow> 'b"
    using that by (cases "p b") (auto simp: panics_at_alloc_def preturn_def)
  have a: "panics_at_alloc sd (decode_auth_data sd ver)" for ver
    unfolding decode_auth_data_def AuthDataV3_decode_def AuthDataV4_decode_def
    by (auto intro!: panics_at_alloc_intros d c nested [OF qc])
  have "panics_at_alloc sd (EnclaveReport_decode sd)" "panics_at_alloc sd (Body_decode sd)"
    "panics_at_alloc sd (Header_decode sd)"
    unfolding EnclaveReport_decode_def Body_decode_def Header_decode_def by (intro panics_at_alloc_intros)+
  then show ?thesis
    unfolding Quote_decode_def report_and_auth_decode_def
    by (auto intro!: panics_at_alloc_intros d nested [OF a] split: prod.splits)
qed

lemma Quote_decode_alloc:
  assumes ok: "scale_dec_ok sd" and "436 \<le> length raw" and "u16_at sd raw \<le> 4"
    and "\<not> can_alloc sd (unat (u32_at sd (drop 432 raw)))"
  shows "Quote_decode sd raw = Inl Panics"
proof -
  obtain h s where h: "Header_decode sd raw = Inr (h, s)"
    using Header_decode_total [OF ok, of raw] assms(2) by auto
  note h' = Header_decode_Some [OF ok h]
  then have "384 \<le> length s" using assms(2) by simp
  then obtain e t where e: "EnclaveReport_decode sd s = Inr (e, t)"
    using EnclaveReport_decode_total [OF ok, of s] by auto
  then have "t = drop 432 raw" using EnclaveReport_decode_Some [OF ok e] h' by simp
  then have "Data_u32_decode sd t = Inl Panics"
    using assms fixed_reads(2) [OF ok, of t] by (simp add: Data_u32_decode_def pbind_def prim_def valloc_def)
  moreover have "\<not> 4 < hd_version h" using h' assms(3) by simp
  ultimately show ?thesis
    using h e by (simp add: Quote_decode_def report_and_auth_decode_def pbind_def)
qed

section \<open>Properties\<close>

text \<open>
  What the last check sees: the attestation key has its fixed length and the quote reaches to the
  end of the report, so only the length of the QE authentication data can make it panic.
\<close>

lemma dcap_check_quote_panics:
  assumes ok: "scale_dec_ok sd" and p: "dcap_parse sd ops raw coll now = Inr (quote, tcb)"
    and k: "dcap_check_pck ops quote t = Inr (auth, leaf)"
  shows "dcap_check_quote sd ops raw auth = Inl Panics \<longleftrightarrow> length (a3_qe_auth_data auth) \<noteq> 32"
proof -
  from p obtain r where d: "Quote_decode sd raw = Inr (quote, r)"
    by (auto simp: dcap_parse_def split: if_splits)
  from k have v: "hd_version (quote_header quote) = 3" and a: "quote_auth_data quote = V3 auth"
    by (auto simp: dcap_check_pck_def QUOTE_VERSION_V3_def Let_def split: if_splits AuthData.splits)
  note q = Quote_decode_V3 [OF ok d v]
  then have key: "length (a3_ecdsa_attestation_key auth) = 64" and qe: "384 \<le> length (a3_qe_report auth)"
    and raw: "432 \<le> length raw" using a by auto
  from EnclaveReport_decode_total [OF ok qe] obtain e r' where
    e: "EnclaveReport_decode sd (a3_qe_report auth) = Inr (e, r')" by blast
  have "length (er_report_data e) = 64" using EnclaveReport_decode_Some [OF ok e] by auto
  then show ?thesis
    using key raw by (simp add: dcap_check_quote_def e copy_from_slice_def slice_to_def
      byte_lens Let_def)
qed

lemma dcap_verify_unfold:
  assumes "dcap_parse sd ops raw coll now = Inr (quote, tcb)"
    and "dcap_check_tcb_info ops coll (now * 1000) = Inr ()"
    and "dcap_check_pck ops quote (now * 1000) = Inr (auth, leaf)"
  shows "dcap_verify sd ops raw coll now =
    bind_res (dcap_check_quote sd ops raw auth) (\<lambda>_.
    bind_res (lift_err (dcap_tcb_status ops leaf tcb)) (\<lambda>(tcb_status, advisory_ids).
       Inr (er_report_data (quote_report quote), dcap_pruntime_hash (quote_report quote),
            tcb_status, advisory_ids)))"
  using assms by (simp add: dcap_verify_def Let_def lift_err_def)

lemma bind_lift_Panics:
  "bind_res (lift_err m) f = Inl Panics \<longleftrightarrow> (\<exists>x. m = Inr x \<and> f x = Inl Panics)"
  by (cases m) (auto simp: lift_err_def)

text \<open>
  C33: The verifier does not fail gracefully on every input. It panics exactly when decoding the quote
  panics, or when the certificate chains and the signature of the QE report are right and the QE
  authentication data of the quote, whose length the sender chooses and that signature does not cover,
  is not 32 bytes long; no index or slice of the code is ever out of range otherwise. Decoding panics
  only when the target cannot allocate a buffer of some length below 2 to the 32; it does so, before
  anything is checked, on every quote of version 4 or less whose length field at byte 432 asks for
  more than the target can allocate.
\<close>

theorem dcap_verify_panics_iff:
  assumes "scale_dec_ok sd"
  shows "(dcap_verify sd ops raw coll now = Inl Panics \<longleftrightarrow>
      Quote_decode sd raw = Inl Panics \<or>
      (\<exists>quote tcb auth leaf. dcap_parse sd ops raw coll now = Inr (quote, tcb) \<and>
         dcap_check_tcb_info ops coll (now * 1000) = Inr () \<and>
         dcap_check_pck ops quote (now * 1000) = Inr (auth, leaf) \<and>
         length (a3_qe_auth_data auth) \<noteq> 32)) \<and>
    (Quote_decode sd raw = Inl Panics \<longrightarrow> (\<exists>n < 2 ^ 32. \<not> can_alloc sd n)) \<and>
    (436 \<le> length raw \<and> u16_at sd raw \<le> 4 \<and> \<not> can_alloc sd (unat (u32_at sd (drop 432 raw))) \<longrightarrow>
       Quote_decode sd raw = Inl Panics)"
    (is "(?L \<longleftrightarrow> ?D \<or> ?R) \<and> _")
proof -
  have pp: "dcap_parse sd ops raw coll now = Inl Panics \<longleftrightarrow> ?D"
    by (auto simp: dcap_parse_def bind_res_eq_Inl split: prod.splits if_splits)
  have "?D \<or> ?R" if L: ?L
  proof (cases ?D)
    case False
    with pp L obtain quote tcb auth leaf where p: "dcap_parse sd ops raw coll now = Inr (quote, tcb)"
      and t: "dcap_check_tcb_info ops coll (now * 1000) = Inr ()"
      and k: "dcap_check_pck ops quote (now * 1000) = Inr (auth, leaf)"
      by (auto simp: dcap_verify_def Let_def bind_res_eq_Inl bind_lift_Panics split: prod.splits)
    from L have "dcap_check_quote sd ops raw auth = Inl Panics"
      unfolding dcap_verify_unfold [OF p t k] bind_res_eq_Inl bind_lift_Panics by auto
    then show ?thesis using dcap_check_quote_panics [OF assms p k] p t k by blast
  qed simp
  moreover have ?L if ?D
    using that pp by (simp add: dcap_verify_def)
  moreover have ?L if R: ?R
  proof -
    from R obtain quote tcb auth leaf where p: "dcap_parse sd ops raw coll now = Inr (quote, tcb)"
      and t: "dcap_check_tcb_info ops coll (now * 1000) = Inr ()"
      and k: "dcap_check_pck ops quote (now * 1000) = Inr (auth, leaf)"
      and "length (a3_qe_auth_data auth) \<noteq> 32" by blast
    then have "dcap_check_quote sd ops raw auth = Inl Panics"
      using dcap_check_quote_panics [OF assms p k] by simp
    then show ?thesis unfolding dcap_verify_unfold [OF p t k] by simp
  qed
  ultimately show ?thesis
    using panics_at_allocD [OF Quote_decode_panics_at_alloc] Quote_decode_alloc [OF assms] by blast
qed

section \<open>A concrete quote\<close>

text \<open>
  Little-endian decoders, library routines that accept every signature, and a quote of zeros (but
  for the version, the key type, the lengths and the certificate type) with \<open>n\<close> bytes of QE
  authentication data. DER objects are numbered.
\<close>

definition ex_sd :: scale_dec where
  "ex_sd = \<lparr>de_u16 = (\<lambda>bs. if 2 \<le> length bs then Some (ucast (bs ! 0) + 256 * ucast (bs ! 1), drop 2 bs) else None),
     de_u32 = (\<lambda>bs. if 4 \<le> length bs then Some (ucast (bs ! 0) + 256 * ucast (bs ! 1), drop 4 bs) else None),
     read_bytes = (\<lambda>n bs. if n \<le> length bs then Some (take n bs, drop n bs) else None),
     can_alloc = (\<lambda>n. n < 2 ^ 31)\<rparr>"

lemma ex_sd_ok: "scale_dec_ok ex_sd"
  unfolding scale_dec_ok_def fixed_width_def
proof (intro conjI)
  show "\<exists>f. \<forall>bs. de_u16 ex_sd bs = (if 2 \<le> length bs then Some (f (take 2 bs), drop 2 bs) else None)"
    by (rule exI [of _ "\<lambda>bs. ucast (bs ! 0) + 256 * ucast (bs ! 1)"]) (simp add: ex_sd_def)
  show "\<exists>f. \<forall>bs. de_u32 ex_sd bs = (if 4 \<le> length bs then Some (f (take 4 bs), drop 4 bs) else None)"
    by (rule exI [of _ "\<lambda>bs. ucast (bs ! 0) + 256 * ucast (bs ! 1)"]) (simp add: ex_sd_def)
qed (simp add: ex_sd_def)

definition ex_seq :: "nat \<Rightarrow> nat option list option" where
  "ex_seq o1 = (if o1 = 0 then Some [Some 1, Some 2] else if o1 = 1 then Some [Some 10, Some 11]
     else if o1 = 11 then Some [Some 3, Some 4] else if o1 = 3 then Some [Some 12, Some 13]
     else if o1 = 4 then Some [Some 14, Some 15] else if o1 = 2 then Some [Some 16, Some 17] else None)"

definition ex_oid :: "string \<Rightarrow> bytes" where
  "ex_oid s = (if s = oids_TCB then [1] else if s = oids_CPUSVN then [2] else if s = oids_PCESVN then [3]
     else if s = oids_FMSPC then [4] else [])"

definition ex_der_value :: "nat \<Rightarrow> bytes" where
  "ex_der_value o1 = (if o1 = 10 then [1] else if o1 = 12 then [2] else if o1 = 14 then [3]
     else if o1 = 16 then [4] else if o1 = 13 then replicate 16 1 else if o1 = 15 then [5]
     else replicate 6 0)"

definition ex_level :: "u8 \<Rightarrow> string \<Rightarrow> TcbLevel" where
  "ex_level v st = \<lparr>tl_tcb = \<lparr>tcb_components = replicate 16 v, tcb_pce_svn = 5\<rparr>, tl_tcb_date = [],
     tl_tcb_status = st, tl_advisory_ids = []\<rparr>"

definition ex_tcb_info :: TcbInfo where
  "ex_tcb_info = \<lparr>ti_id = ''SGX'', ti_version = 3, ti_issue_date = [], ti_next_update = [],
     ti_fmspc = ''000000000000'', ti_pce_id = [], ti_tcb_type = 0, ti_tcb_evaluation_data_number = 0,
     ti_tcb_levels = [ex_level 2 ''UpToDate'', ex_level 1 ''OutOfDate'']\<rparr>"

definition ex_ops :: "nat sgx_ops" where
  "ex_ops = \<lparr>json_tcb_info = (\<lambda>_. Some ex_tcb_info), rfc3339_timestamp = (\<lambda>_. Some 100),
     pem_parse_many = (\<lambda>_. Some [[1], [2]]), EndEntityCert_ok = (\<lambda>_. True),
     cert_verify_for_usage = (\<lambda>_ _ _. True), cert_verify_signature = (\<lambda>_ _ _. True),
     UintRef_ok = (\<lambda>_. True), der_encode_pair = (\<lambda>a b. Some (a @ b)), sha256 = (\<lambda>_. replicate 32 0),
     ecdsa_p256_fixed_verify = (\<lambda>_ _ _. True),
     x509_extensions = (\<lambda>_. Some (Some [([], [7])])), oid_bytes = ex_oid,
     DerObject_decode = (\<lambda>_. Some 0), Sequence_load = ex_seq, DerObject_value = ex_der_value,
     hex_decode = (\<lambda>_. Some (replicate 6 0))\<rparr>"

definition ex_coll :: SgxV30QuoteCollateral where
  "ex_coll = \<lparr>co_pck_crl_issuer_chain = [], co_root_ca_crl = [], co_pck_crl = [],
     co_tcb_info_issuer_chain = [], co_tcb_info = [], co_tcb_info_signature = replicate 64 0,
     co_qe_identity_issuer_chain = [], co_qe_identity = [], co_qe_identity_signature = []\<rparr>"

definition ex_auth :: "nat \<Rightarrow> bytes" where
  "ex_auth n = replicate 576 0 @ [of_nat n, 0] @ replicate n 0 @ [5, 0] @ [0, 0, 0, 0]"

definition ex_quote :: "nat \<Rightarrow> bytes" where
  "ex_quote n = [3, 0, 2, 0, 0, 0, 0, 0] @ replicate 40 0 @ replicate 384 0 @
     [of_nat (72 + n), 2, 0, 0] @ ex_auth n"

definition ex_auth_v3 :: "nat \<Rightarrow> AuthDataV3" where
  "ex_auth_v3 n = \<lparr>a3_ecdsa_signature = replicate 64 0, a3_ecdsa_attestation_key = replicate 64 0,
     a3_qe_report = replicate 384 0, a3_qe_report_signature = replicate 64 0,
     a3_qe_auth_data = replicate n 0, a3_certification_data = \<lparr>cert_type = 5, cert_body = []\<rparr>\<rparr>"

lemma ex_auth_decode:
  assumes "n = 0 \<or> n = 32"
  shows "AuthDataV3_decode ex_sd (ex_auth n) = Inr (ex_auth_v3 n, [])"
  using assms by (elim disjE)
   (simp_all add: AuthDataV3_decode_def ex_auth_def ex_sd_def pbind_def preturn_def prim_def valloc_def byte_lens
     Data_u16_decode_def Data_u32_decode_def CertificationData_decode_def ex_auth_v3_def)

definition ex_q :: "nat \<Rightarrow> Quote" where
  "ex_q n = \<lparr>
    quote_header = \<lparr>hd_version = 3, hd_attestation_key_type = 2, hd_tee_type = 0, hd_qe_svn = 0,
      hd_pce_svn = 0, hd_qe_vendor_id = replicate 16 0, hd_user_data = replicate 20 0\<rparr>,
    quote_report = \<lparr>er_cpu_svn = replicate 16 0, er_misc_select = 0, er_reserved1 = replicate 28 0,
      er_attributes = replicate 16 0, er_mr_enclave = replicate 32 0, er_reserved2 = replicate 32 0,
      er_mr_signer = replicate 32 0, er_reserved3 = replicate 96 0, er_isv_prod_id = 0, er_isv_svn = 0,
      er_reserved4 = replicate 60 0, er_report_data = replicate 64 0\<rparr>,
    quote_auth_data = V3 (ex_auth_v3 n)\<rparr>"

lemma ex_quote_decode:
  assumes "n = 0 \<or> n = 32"
  shows "Quote_decode ex_sd (ex_quote n) = Inr (ex_q n, [])"
proof -
  have h: "Header_decode ex_sd (ex_quote n) = Inr (\<lparr>hd_version = 3, hd_attestation_key_type = 2,
      hd_tee_type = 0, hd_qe_svn = 0, hd_pce_svn = 0, hd_qe_vendor_id = replicate 16 0,
      hd_user_data = replicate 20 0\<rparr>, replicate 384 0 @ [of_nat (72 + n), 2, 0, 0] @ ex_auth n)"
    by (simp add: Header_decode_def ex_quote_def ex_sd_def pbind_def preturn_def prim_def valloc_def nth_append)
  have r: "EnclaveReport_decode ex_sd (replicate 384 0 @ rest) = Inr (\<lparr>er_cpu_svn = replicate 16 0,
      er_misc_select = 0, er_reserved1 = replicate 28 0, er_attributes = replicate 16 0,
      er_mr_enclave = replicate 32 0, er_reserved2 = replicate 32 0, er_mr_signer = replicate 32 0,
      er_reserved3 = replicate 96 0, er_isv_prod_id = 0, er_isv_svn = 0,
      er_reserved4 = replicate 60 0, er_report_data = replicate 64 0\<rparr>, rest)" for rest
    by (simp add: EnclaveReport_decode_def ex_sd_def pbind_def preturn_def prim_def valloc_def nth_append)
  have len: "length (ex_auth n) = 584 + n" by (simp add: ex_auth_def)
  have d: "Data_u32_decode ex_sd ((72 + of_nat n) # 2 # 0 # 0 # ex_auth n) = Inr (ex_auth n, [])"
    using assms len by (auto simp: Data_u32_decode_def pbind_def ex_sd_def prim_def valloc_def)
  show ?thesis
    by (simp add: Quote_decode_def h r d report_and_auth_decode_def pbind_def preturn_def decode_auth_data_def
      ex_auth_decode [OF assms] ex_q_def)
qed

lemma ex_stages:
  "dcap_check_tcb_info ex_ops ex_coll t = Inr ()"
  "dcap_check_pck ex_ops (ex_q n) t = Inr (ex_auth_v3 n, [1])"
  by (simp_all add: dcap_check_tcb_info_def dcap_check_pck_def extract_certs_def extract_raw_certs_def
    ex_ops_def ex_coll_def encode_as_der_def verify_certificate_chain_def ex_auth_v3_def ex_q_def
    QUOTE_VERSION_V3_def ATTESTATION_KEY_TYPE_ECDSA256_WITH_P256_CURVE_def Let_def)

lemma ex_tcb_status: "dcap_tcb_status ex_ops c ex_tcb_info = Inr (''OutOfDate'', [])"
proof -
  have e: "get_intel_extension ex_ops c = Inr [7]"
    by (simp add: get_intel_extension_def ex_ops_def ex_oid_def oids_SGX_EXTENSION_def oids_TCB_def
      oids_CPUSVN_def oids_PCESVN_def oids_FMSPC_def)
  have o: "ex_oid oids_TCB = [1]" "ex_oid oids_CPUSVN = [2]" "ex_oid oids_PCESVN = [3]" "ex_oid oids_FMSPC = [4]"
    by (simp_all add: ex_oid_def oids_TCB_def oids_CPUSVN_def oids_PCESVN_def oids_FMSPC_def)
  have c: "get_cpu_svn ex_ops [7] = Inr (replicate 16 1)" "get_fmspc ex_ops [7] = Inr (replicate 6 0)"
    "get_pce_svn ex_ops [7] = Inr 5"
    by (simp_all add: get_cpu_svn_def get_fmspc_def get_pce_svn_def find_extension_def get_obj_def
      ex_ops_def o ex_seq_def ex_der_value_def seq_get_def)
  have h: "hex_decode ex_ops f = Some (replicate 6 0)" for f by (simp add: ex_ops_def)
  have z: "list_ex (\<lambda>(a, b). a < b) (zip (replicate 16 1) (replicate 16 (2 :: u8)))"
    "\<not> list_ex (\<lambda>(a, b). a < b) (zip (replicate 16 1) (replicate 16 (1 :: u8)))"
    by (simp_all add: list_ex_iff)
  show ?thesis unfolding dcap_tcb_status_def e c h bind_res.simps
    using z by (simp add: ex_tcb_info_def ex_level_def h)
qed

lemma ex_parse:
  assumes "n = 0 \<or> n = 32"
  shows "dcap_parse ex_sd ex_ops (ex_quote n) ex_coll 50 = Inr (ex_q n, ex_tcb_info)"
  by (simp add: dcap_parse_def ex_quote_decode [OF assms] ex_ops_def del: bind_res_eq_Inr)

theorem dcap_verify_panics_witness:
  "scale_dec_ok ex_sd \<and> dcap_verify ex_sd ex_ops (ex_quote 0) ex_coll 50 = Inl Panics"
proof -
  have "length (a3_qe_auth_data (ex_auth_v3 0)) \<noteq> 32" by (simp add: ex_auth_v3_def)
  then show ?thesis
    using dcap_verify_panics_iff [OF ex_sd_ok, of ex_ops "ex_quote 0" ex_coll 50, THEN conjunct1]
      ex_stages ex_parse [of 0] ex_sd_ok by blast
qed

lemma ex_verify:
  "dcap_verify ex_sd ex_ops (ex_quote 32) ex_coll 50 =
   Inr (replicate 64 0, replicate 68 0, ''OutOfDate'', [])"
proof -
  have e: "\<exists>e r. EnclaveReport_decode ex_sd (replicate 384 0) = Inr (e, r)"
    by (rule EnclaveReport_decode_total [OF ex_sd_ok]) simp
  then obtain e r where e: "EnclaveReport_decode ex_sd (replicate 384 0) = Inr (e, r)" by blast
  have rd: "er_report_data e = replicate 64 0" using EnclaveReport_decode_Some [OF ex_sd_ok e] by simp
  have "dcap_check_quote ex_sd ex_ops (ex_quote 32) (ex_auth_v3 32) = Inr ()"
    by (simp add: dcap_check_quote_def ex_auth_v3_def e rd copy_from_slice_def slice_to_def
      byte_lens ex_quote_def ex_ops_def)
  moreover have "er_report_data (quote_report (ex_q 32)) = replicate 64 0"
    "dcap_pruntime_hash (quote_report (ex_q 32)) = replicate 68 0"
    by (simp_all add: ex_q_def dcap_pruntime_hash_def to_be_bytes_def replicate_add [symmetric] replicate_append_same
      flip: replicate_Suc)
  ultimately show ?thesis
    by (simp add: dcap_verify_unfold [OF ex_parse ex_stages] ex_tcb_status lift_err_def)
qed

text \<open>The stages of a successful verification.\<close>

lemma dcap_check_tcb_info_Inr:
  assumes "dcap_check_tcb_info ops coll t = Inr ()"
  shows "\<exists>cert chain sig. cert_verify_for_usage ops cert chain (t div 1000) \<and>
    cert_verify_signature ops cert (co_tcb_info coll) sig"
  using assms by (auto simp: dcap_check_tcb_info_def verify_certificate_chain_def Let_def split: if_splits)

lemma dcap_check_pck_Inr:
  assumes "dcap_check_pck ops quote t = Inr (auth, leaf)"
  shows "hd_version (quote_header quote) = 3 \<and> quote_auth_data quote = V3 auth \<and>
    (\<exists>chain sig. cert_verify_for_usage ops leaf chain (t div 1000) \<and>
       cert_verify_signature ops leaf (a3_qe_report auth) sig)"
  using assms by (auto simp: dcap_check_pck_def verify_certificate_chain_def QUOTE_VERSION_V3_def Let_def
    split: if_splits AuthData.splits)

lemma dcap_check_quote_Inr:
  assumes ok: "scale_dec_ok sd" and r: "dcap_check_quote sd ops raw auth = Inr ()"
  shows "sha256 ops (a3_ecdsa_attestation_key auth @ a3_qe_auth_data auth) =
      take 32 (drop 320 (a3_qe_report auth)) \<and>
    ecdsa_p256_fixed_verify ops (4 # a3_ecdsa_attestation_key auth) (take 432 raw) (a3_ecdsa_signature auth)"
proof -
  from r obtain e s where e: "EnclaveReport_decode sd (a3_qe_report auth) = Inr (e, s)"
    and h: "sha256 ops (a3_ecdsa_attestation_key auth @ a3_qe_auth_data auth) = take 32 (er_report_data e)"
    and v: "ecdsa_p256_fixed_verify ops (4 # a3_ecdsa_attestation_key auth) (take 432 raw) (a3_ecdsa_signature auth)"
    by (auto simp: dcap_check_quote_def copy_from_slice_def slice_to_def byte_lens Let_def split: if_splits)
  then show ?thesis using EnclaveReport_decode_Some [OF ok e] by (simp add: min_def)
qed

text \<open>
  C14: Whatever the verifier returns is authentic. The report data and the enclave identity (the
  measurement, product id, security version and signer that the allow list knows) are read at fixed
  positions of the first 432 bytes of the quote; those bytes are signed by an attestation key; the
  quoting enclave's report commits to that key; and that report is signed by a certificate that
  chains to the root. The platform status is the one that the TCB info, itself signed under a chain
  to the root and not expired, gives to the security version of that certificate.
\<close>

theorem dcap_verify_authentic:
  assumes "scale_dec_ok sd"
    and "dcap_verify sd ops raw coll now = Inr (report_data, pruntime_hash, status, ids)"
  shows "432 \<le> length raw \<and> report_data = take 64 (drop 368 raw) \<and>
    pruntime_hash = take 32 (drop 112 raw) @ to_be_bytes (u16_at sd (drop 304 raw)) @
      to_be_bytes (u16_at sd (drop 306 raw)) @ take 32 (drop 176 raw) \<and>
    (\<exists>key sig auth_data qe_report qe_sig pck pck_chain tcb_cert tcb_chain tcb_sig tcb next_update.
       ecdsa_p256_fixed_verify ops (4 # key) (take 432 raw) sig \<and>
       sha256 ops (key @ auth_data) = take 32 (drop 320 qe_report) \<and>
       cert_verify_signature ops pck qe_report qe_sig \<and>
       cert_verify_for_usage ops pck pck_chain (now * 1000 div 1000) \<and>
       cert_verify_signature ops tcb_cert (co_tcb_info coll) tcb_sig \<and>
       cert_verify_for_usage ops tcb_cert tcb_chain (now * 1000 div 1000) \<and>
       json_tcb_info ops (co_tcb_info coll) = Some tcb \<and>
       rfc3339_timestamp ops (ti_next_update tcb) = Some next_update \<and> now \<le> next_update \<and>
       dcap_tcb_status ops pck tcb = Inr (status, ids))"
proof -
  from assms(2) obtain quote tcb auth leaf where p: "dcap_parse sd ops raw coll now = Inr (quote, tcb)"
    and t: "dcap_check_tcb_info ops coll (now * 1000) = Inr ()"
    and k: "dcap_check_pck ops quote (now * 1000) = Inr (auth, leaf)"
    and q: "dcap_check_quote sd ops raw auth = Inr ()"
    and st: "dcap_tcb_status ops leaf tcb = Inr (status, ids)"
    and rd: "report_data = er_report_data (quote_report quote)"
    and ph: "pruntime_hash = dcap_pruntime_hash (quote_report quote)"
    by (auto simp: dcap_verify_def Let_def split: prod.splits)
  from p obtain r next_update where d: "Quote_decode sd raw = Inr (quote, r)"
    and tcb: "json_tcb_info ops (co_tcb_info coll) = Some tcb"
    and nu: "rfc3339_timestamp ops (ti_next_update tcb) = Some next_update" "now \<le> next_update"
    by (auto simp: dcap_parse_def split: if_splits)
  from dcap_check_pck_Inr [OF k] obtain chain qsig where v: "hd_version (quote_header quote) = 3"
    and pck: "cert_verify_for_usage ops leaf chain (now * 1000 div 1000)"
      "cert_verify_signature ops leaf (a3_qe_report auth) qsig" by blast
  have "432 \<le> length raw \<and> report_data = take 64 (drop 368 raw) \<and>
    pruntime_hash = take 32 (drop 112 raw) @ to_be_bytes (u16_at sd (drop 304 raw)) @
      to_be_bytes (u16_at sd (drop 306 raw)) @ take 32 (drop 176 raw)"
    using Quote_decode_V3 [OF assms(1) d v] rd ph by (simp add: dcap_pruntime_hash_def)
  then show ?thesis
    using dcap_check_quote_Inr [OF assms(1) q] pck dcap_check_tcb_info_Inr [OF t] tcb nu st by blast
qed

theorem dcap_verify_authentic_witness:
  "432 \<le> length (ex_quote 32) \<and>
   (\<exists>key sig. ecdsa_p256_fixed_verify ex_ops (4 # key) (take 432 (ex_quote 32)) sig)"
  using dcap_verify_authentic [OF ex_sd_ok ex_verify] by blast

end
