(* ===== verification/Attestation.thy ===== *)
theory Attestation
  imports Sgx_Dcap
begin

text \<open>
  Remote attestation of workers: \<open>pallets/phala/src/utils/attestation.rs\<close> (version 2: IAS and DCAP
  reports), \<open>attestation_legacy.rs\<close> (IAS only), the status lists of \<open>constants.rs\<close>, and the IAS
  report of \<open>crates/sgx-attestation/src/ias.rs\<close>. Arguments of the model: \<open>sd\<close> and \<open>ops\<close> as in the
  DCAP verifier, and \<open>ias\<close>, the JSON, base64, date and certificate routines.
\<close>

section \<open>IAS reports\<close>

record EnclaveQuoteBody =
  qb_version :: bytes
  qb_sign_type :: bytes
  qb_epid_group_id :: bytes
  qb_qe_svn :: bytes
  qb_pce_svn :: bytes
  qb_reserved0 :: bytes
  qb_basename :: bytes
  qb_cpu_svn :: bytes
  qb_misc_select :: bytes
  qb_reserved1 :: bytes
  qb_isv_ext_prod_id :: bytes
  qb_attributes :: bytes
  qb_mr_enclave :: bytes
  qb_reserved2 :: bytes
  qb_mr_signer :: bytes
  qb_reserved3 :: bytes
  qb_config_id :: bytes
  qb_isv_prod_id :: bytes
  qb_isv_svn :: bytes
  qb_config_svn :: bytes
  qb_reserved4 :: bytes
  qb_isv_family_id :: bytes
  qb_report_data :: bytes

record RaReport =
  ra_id :: string
  ra_timestamp :: string
  ra_version :: u8
  ra_epid_pseudonym :: string
  ra_advisory_url :: string
  ra_advisory_ids :: "string list"
  ra_isv_enclave_quote_status :: string
  ra_isv_enclave_quote_body :: string

record ias_ops =
  json_ra_report :: "bytes \<Rightarrow> RaReport option"
  ias_rfc3339_timestamp :: "string \<Rightarrow> u64 option"
  base64_decode :: "string \<Rightarrow> bytes option"
  ias_cert_ok :: "bytes \<Rightarrow> bool"
  ias_cert_verify_signature :: "bytes \<Rightarrow> bytes \<Rightarrow> bytes \<Rightarrow> bool"
  ias_cert_verify_for_usage :: "bytes \<Rightarrow> u64 \<Rightarrow> bool"

definition EnclaveQuoteBody_decode :: "scale_dec \<Rightarrow> EnclaveQuoteBody parser" where
  "EnclaveQuoteBody_decode sd =
     pbind (prim (read_bytes sd 2)) (\<lambda>f1. pbind (prim (read_bytes sd 2)) (\<lambda>f2. pbind (prim (read_bytes sd 4)) (\<lambda>f3.
     pbind (prim (read_bytes sd 2)) (\<lambda>f4. pbind (prim (read_bytes sd 2)) (\<lambda>f5. pbind (prim (read_bytes sd 4)) (\<lambda>f6.
     pbind (prim (read_bytes sd 32)) (\<lambda>f7. pbind (prim (read_bytes sd 16)) (\<lambda>f8. pbind (prim (read_bytes sd 4)) (\<lambda>f9.
     pbind (prim (read_bytes sd 12)) (\<lambda>f10. pbind (prim (read_bytes sd 16)) (\<lambda>f11. pbind (prim (read_bytes sd 16)) (\<lambda>f12.
     pbind (prim (read_bytes sd 32)) (\<lambda>f13. pbind (prim (read_bytes sd 32)) (\<lambda>f14. pbind (prim (read_bytes sd 32)) (\<lambda>f15.
     pbind (prim (read_bytes sd 32)) (\<lambda>f16. pbind (prim (read_bytes sd 64)) (\<lambda>f17. pbind (prim (read_bytes sd 2)) (\<lambda>f18.
     pbind (prim (read_bytes sd 2)) (\<lambda>f19. pbind (prim (read_bytes sd 2)) (\<lambda>f20. pbind (prim (read_bytes sd 42)) (\<lambda>f21.
     pbind (prim (read_bytes sd 16)) (\<lambda>f22. pbind (prim (read_bytes sd 64)) (\<lambda>f23.
       preturn \<lparr>qb_version = f1, qb_sign_type = f2, qb_epid_group_id = f3, qb_qe_svn = f4,
         qb_pce_svn = f5, qb_reserved0 = f6, qb_basename = f7, qb_cpu_svn = f8, qb_misc_select = f9,
         qb_reserved1 = f10, qb_isv_ext_prod_id = f11, qb_attributes = f12, qb_mr_enclave = f13,
         qb_reserved2 = f14, qb_mr_signer = f15, qb_reserved3 = f16, qb_config_id = f17,
         qb_isv_prod_id = f18, qb_isv_svn = f19, qb_config_svn = f20, qb_reserved4 = f21,
         qb_isv_family_id = f22, qb_report_data = f23\<rparr>)))))))))))))))))))))))"

definition b64_decode :: "ias_ops \<Rightarrow> string \<Rightarrow> Sgx_Error + bytes" where
  "b64_decode ias s = ok_or (base64_decode ias s) CodecError"

text \<open>The body consists of byte arrays only, so its decoder fails or returns, and never panics.\<close>

definition RaReport_decode_quote ::
  "scale_dec \<Rightarrow> ias_ops \<Rightarrow> RaReport \<Rightarrow> Sgx_Error + EnclaveQuoteBody" where
  "RaReport_decode_quote sd ias report =
     bind_res (b64_decode ias (ra_isv_enclave_quote_body report)) (\<lambda>quote_body.
     case EnclaveQuoteBody_decode sd quote_body of Inl _ \<Rightarrow> Inl CodecError | Inr (q, _) \<Rightarrow> Inr q)"

definition ias_verify_signature ::
  "ias_ops \<Rightarrow> bytes \<Rightarrow> bytes \<Rightarrow> bytes \<Rightarrow> u64 \<Rightarrow> Sgx_Error + unit" where
  "ias_verify_signature ias message signature raw_cert now =
     bind_res (ensure (ias_cert_ok ias raw_cert) InvalidCertificate) (\<lambda>_.
     bind_res (ensure (ias_cert_verify_signature ias raw_cert message signature) InvalidSignature) (\<lambda>_.
     ensure (ias_cert_verify_for_usage ias raw_cert now) InvalidSignature))"

section \<open>Status lists\<close>

definition SGX_QUOTE_STATUS_LEVEL_1 :: "string list" where
  "SGX_QUOTE_STATUS_LEVEL_1 = [''OK'', ''UpToDate'']"

definition SGX_QUOTE_STATUS_LEVEL_2 :: "string list" where
  "SGX_QUOTE_STATUS_LEVEL_2 = [''SW_HARDENING_NEEDED'', ''SWHardeningNeeded'']"

definition SGX_QUOTE_STATUS_LEVEL_3 :: "string list" where
  "SGX_QUOTE_STATUS_LEVEL_3 = [''CONFIGURATION_NEEDED'', ''CONFIGURATION_AND_SW_HARDENING_NEEDED'',
     ''ConfigurationNeeded'', ''ConfigurationAndSWHardeningNeeded'']"

definition SGX_QUOTE_STATUS_LEVEL_5 :: "string list" where
  "SGX_QUOTE_STATUS_LEVEL_5 = [''GROUP_OUT_OF_DATE'', ''OutOfDate'', ''OutOfDateConfigurationNeeded'']"

definition SGX_QUOTE_ADVISORY_ID_WHITELIST :: "string list" where
  "SGX_QUOTE_ADVISORY_ID_WHITELIST = [''INTEL-SA-00334'', ''INTEL-SA-00219'', ''INTEL-SA-00381'',
     ''INTEL-SA-00389'']"

lemmas status_lists =
  SGX_QUOTE_STATUS_LEVEL_1_def SGX_QUOTE_STATUS_LEVEL_2_def SGX_QUOTE_STATUS_LEVEL_3_def
  SGX_QUOTE_STATUS_LEVEL_5_def SGX_QUOTE_ADVISORY_ID_WHITELIST_def

section \<open>Version 2\<close>

datatype AttestationProvider = Root_provider | Ias | Dcap

datatype Attestation_Error =
    AE_PRuntimeRejected | AE_InvalidIASSigningCert | AE_InvalidReport | AE_InvalidQuoteStatus
  | AE_BadIASReport | AE_OutdatedIASReport | AE_UnknownQuoteBodyFormat | AE_InvalidUserDataHash
  | AE_NoneAttestationDisabled | AE_UnsupportedAttestationType | AE_InvalidDCAPQuote Sgx_Error

record ConfidentialReport =
  cr_confidence_level :: u8
  cr_provider :: "AttestationProvider option"
  cr_runtime_hash :: bytes

record IasFields =
  if_mr_enclave :: bytes
  if_mr_signer :: bytes
  if_isv_prod_id :: bytes
  if_isv_svn :: bytes
  if_report_data :: bytes
  if_confidence_level :: u8

text \<open>The variables \<open>confidence_level\<close> of the sources, over the two \<open>if\<close> statements and the loop.\<close>

definition status_level :: "string \<Rightarrow> u8" where
  "status_level quote_status =
     (if quote_status \<in> set SGX_QUOTE_STATUS_LEVEL_1 then 1
      else if quote_status \<in> set SGX_QUOTE_STATUS_LEVEL_2 then 2
      else if quote_status \<in> set SGX_QUOTE_STATUS_LEVEL_3 then 3
      else if quote_status \<in> set SGX_QUOTE_STATUS_LEVEL_5 then 5
      else 128)"

definition filter_advisories :: "u8 \<Rightarrow> string list \<Rightarrow> u8" where
  "filter_advisories level advisory_ids =
     (if level = 3
      then fold (\<lambda>a cl. if a \<notin> set SGX_QUOTE_ADVISORY_ID_WHITELIST then 4 else cl) advisory_ids level
      else level)"

definition confidence_of :: "string \<Rightarrow> string list \<Rightarrow> Attestation_Error + u8" where
  "confidence_of quote_status advisory_ids =
     (let level = status_level quote_status
      in if level = 128 then Inl AE_InvalidQuoteStatus else Inr (filter_advisories level advisory_ids))"

definition IasFields_from_ias_report ::
  "scale_dec \<Rightarrow> ias_ops \<Rightarrow> bytes \<Rightarrow> Attestation_Error + IasFields \<times> u64" where
  "IasFields_from_ias_report sd ias report =
     bind_res (ok_or (json_ra_report ias report) AE_InvalidReport) (\<lambda>parsed_report.
     bind_res (ok_or (ias_rfc3339_timestamp ias (ra_timestamp parsed_report @ ''Z'')) AE_BadIASReport)
       (\<lambda>report_timestamp.
     bind_res (confidence_of (ra_isv_enclave_quote_status parsed_report) (ra_advisory_ids parsed_report))
       (\<lambda>confidence_level.
     case RaReport_decode_quote sd ias parsed_report of
       Inl _ \<Rightarrow> Inl AE_UnknownQuoteBodyFormat
     | Inr quote \<Rightarrow> Inr (\<lparr>if_mr_enclave = qb_mr_enclave quote, if_mr_signer = qb_mr_signer quote,
         if_isv_prod_id = qb_isv_prod_id quote, if_isv_svn = qb_isv_svn quote,
         if_report_data = qb_report_data quote, if_confidence_level = confidence_level\<rparr>,
         report_timestamp))))"

definition IasFields_extend_mrenclave :: "IasFields \<Rightarrow> bytes" where
  "IasFields_extend_mrenclave f =
     if_mr_enclave f @ if_isv_prod_id f @ if_isv_svn f @ if_mr_signer f"

text \<open>\<open>now as i64 - report_timestamp\<close> is a wrapping subtraction of signed numbers.\<close>

definition validate_ias_report ::
  "scale_dec \<Rightarrow> ias_ops \<Rightarrow> bytes \<Rightarrow> bytes \<Rightarrow> bytes \<Rightarrow> bytes \<Rightarrow> u64 \<Rightarrow> bool \<Rightarrow> bytes list \<Rightarrow>
   Attestation_Error + ConfidentialReport" where
  "validate_ias_report sd ias user_data_hash report signature raw_signing_cert now
     verify_pruntime_hash pruntime_allowlist =
     (case ias_verify_signature ias report signature raw_signing_cert now of
        Inl _ \<Rightarrow> Inl AE_InvalidIASSigningCert
      | Inr _ \<Rightarrow>
     bind_res (IasFields_from_ias_report sd ias report) (\<lambda>(ias_fields, report_timestamp).
     let pruntime_hash = IasFields_extend_mrenclave ias_fields in
     if verify_pruntime_hash \<and> pruntime_hash \<notin> set pruntime_allowlist then Inl AE_PRuntimeRejected
     else if 7200 \<le> sint (now - report_timestamp) then Inl AE_OutdatedIASReport
     else if take 32 (if_report_data ias_fields) \<noteq> user_data_hash then Inl AE_InvalidUserDataHash
     else Inr \<lparr>cr_confidence_level = if_confidence_level ias_fields, cr_provider = Some Ias,
            cr_runtime_hash = pruntime_hash\<rparr>))"

definition map_dcap_err :: "Sgx_Error exn + 'a \<Rightarrow> Attestation_Error exn + 'a" where
  "map_dcap_err r = (case r of Inl Panics \<Rightarrow> Inl Panics | Inl (Fails e) \<Rightarrow> Inl (Fails (AE_InvalidDCAPQuote e))
     | Inr x \<Rightarrow> Inr x)"

definition validate_dcap ::
  "scale_dec \<Rightarrow> 'o sgx_ops \<Rightarrow> bytes \<Rightarrow> SgxV30QuoteCollateral \<Rightarrow> u64 \<Rightarrow> bytes \<Rightarrow> bool \<Rightarrow> bytes list \<Rightarrow>
   Attestation_Error exn + ConfidentialReport" where
  "validate_dcap sd ops quote coll now user_data_hash verify_pruntime_hash pruntime_allowlist =
     bind_res (map_dcap_err (dcap_verify sd ops quote coll now))
       (\<lambda>(report_data, pruntime_hash, tcb_status, advisory_ids).
     if verify_pruntime_hash \<and> pruntime_hash \<notin> set pruntime_allowlist then Inl (Fails AE_PRuntimeRejected)
     else if take 32 report_data \<noteq> user_data_hash then Inl (Fails AE_InvalidUserDataHash)
     else bind_res (lift_err (confidence_of tcb_status advisory_ids)) (\<lambda>confidence_level.
       Inr \<lparr>cr_confidence_level = confidence_level, cr_provider = Some Dcap,
            cr_runtime_hash = pruntime_hash\<rparr>))"

datatype AttestationReport =
    SgxIas bytes bytes bytes
  | SgxDcap bytes "SgxV30QuoteCollateral option"

fun attestation_validate ::
  "scale_dec \<Rightarrow> 'o sgx_ops \<Rightarrow> ias_ops \<Rightarrow> AttestationReport option \<Rightarrow> bytes \<Rightarrow> u64 \<Rightarrow> bool \<Rightarrow> bytes list \<Rightarrow>
   bool \<Rightarrow> Attestation_Error exn + ConfidentialReport" where
  "attestation_validate sd ops ias (Some (SgxIas ra_report signature raw_signing_cert)) user_data_hash now
     verify_pruntime_hash pruntime_allowlist opt_out_enabled =
     lift_err (validate_ias_report sd ias user_data_hash ra_report signature raw_signing_cert now
       verify_pruntime_hash pruntime_allowlist)"
| "attestation_validate sd ops ias (Some (SgxDcap quote collateral)) user_data_hash now
     verify_pruntime_hash pruntime_allowlist opt_out_enabled =
     (case collateral of
        None \<Rightarrow> Inl (Fails AE_UnsupportedAttestationType)
      | Some coll \<Rightarrow> validate_dcap sd ops quote coll now user_data_hash verify_pruntime_hash pruntime_allowlist)"
| "attestation_validate sd ops ias None user_data_hash now verify_pruntime_hash pruntime_allowlist
     opt_out_enabled =
     (if opt_out_enabled
      then Inr \<lparr>cr_confidence_level = 128, cr_provider = None, cr_runtime_hash = []\<rparr>
      else Inl (Fails AE_NoneAttestationDisabled))"

section \<open>The legacy validator\<close>

datatype Attestation_legacy = SgxIas_legacy bytes bytes bytes

definition legacy_from_ias_report ::
  "scale_dec \<Rightarrow> ias_ops \<Rightarrow> bytes \<Rightarrow> Attestation_Error + IasFields \<times> u64" where
  "legacy_from_ias_report sd ias report =
     bind_res (ok_or (json_ra_report ias report) AE_InvalidReport) (\<lambda>parsed_report.
     bind_res (ok_or (ias_rfc3339_timestamp ias (ra_timestamp parsed_report @ ''Z'')) AE_BadIASReport)
       (\<lambda>report_timestamp.
     bind_res (confidence_of (ra_isv_enclave_quote_status parsed_report) (ra_advisory_ids parsed_report))
       (\<lambda>confidence_level.
     case RaReport_decode_quote sd ias parsed_report of
       Inl _ \<Rightarrow> Inl AE_UnknownQuoteBodyFormat
     | Inr quote \<Rightarrow> Inr (\<lparr>if_mr_enclave = qb_mr_enclave quote, if_mr_signer = qb_mr_signer quote,
         if_isv_prod_id = qb_isv_prod_id quote, if_isv_svn = qb_isv_svn quote,
         if_report_data = qb_report_data quote, if_confidence_level = confidence_level\<rparr>,
         report_timestamp))))"

definition legacy_extend_mrenclave :: "IasFields \<Rightarrow> bytes" where
  "legacy_extend_mrenclave f =
     if_mr_enclave f @ if_isv_prod_id f @ if_isv_svn f @ if_mr_signer f"

definition legacy_validate_ias_report ::
  "scale_dec \<Rightarrow> ias_ops \<Rightarrow> bytes \<Rightarrow> bytes \<Rightarrow> bytes \<Rightarrow> u64 \<Rightarrow> bool \<Rightarrow> bytes list \<Rightarrow>
   Attestation_Error + IasFields" where
  "legacy_validate_ias_report sd ias report signature raw_signing_cert now verify_pruntime
     pruntime_allowlist =
     (case ias_verify_signature ias report signature raw_signing_cert now of
        Inl _ \<Rightarrow> Inl AE_InvalidIASSigningCert
      | Inr _ \<Rightarrow>
     bind_res (legacy_from_ias_report sd ias report) (\<lambda>(ias_fields, report_timestamp).
     if verify_pruntime \<and> legacy_extend_mrenclave ias_fields \<notin> set pruntime_allowlist
     then Inl AE_PRuntimeRejected
     else if 7200 \<le> sint (now - report_timestamp) then Inl AE_OutdatedIASReport
     else Inr ias_fields))"

fun IasValidator_validate ::
  "scale_dec \<Rightarrow> ias_ops \<Rightarrow> Attestation_legacy \<Rightarrow> bytes \<Rightarrow> u64 \<Rightarrow> bool \<Rightarrow> bytes list \<Rightarrow>
   Attestation_Error + IasFields" where
  "IasValidator_validate sd ias (SgxIas_legacy ra_report signature raw_signing_cert) user_data_hash now
     verify_pruntime pruntime_allowlist =
     bind_res (legacy_validate_ias_report sd ias ra_report signature raw_signing_cert now verify_pruntime
         pruntime_allowlist) (\<lambda>fields.
       if take 32 (if_report_data fields) \<noteq> user_data_hash then Inl AE_InvalidUserDataHash
       else Inr fields)"

section \<open>Lemmas\<close>

lemma fold_advisories:
  "fold (\<lambda>a cl. if a \<notin> set W then 4 else cl) ids (3 :: u8) = (if set ids \<subseteq> set W then 3 else 4)"
proof -
  have "fold (\<lambda>a cl. if a \<notin> set W then 4 else cl) ids cl0 = (if set ids \<subseteq> set W then cl0 else (4 :: u8))" for cl0
    by (induction ids arbitrary: cl0) auto
  then show ?thesis by simp
qed

lemma confidence_of_cases:
  assumes "confidence_of st ids = Inr cl"
  shows "cl \<in> {1, 2, 3, 4, 5} \<and> (cl = 4 \<longleftrightarrow> st \<in> set SGX_QUOTE_STATUS_LEVEL_3 \<and>
    \<not> set ids \<subseteq> set SGX_QUOTE_ADVISORY_ID_WHITELIST)"
proof -
  have d: "set SGX_QUOTE_STATUS_LEVEL_1 \<inter> set SGX_QUOTE_STATUS_LEVEL_3 = {}"
    "set SGX_QUOTE_STATUS_LEVEL_2 \<inter> set SGX_QUOTE_STATUS_LEVEL_3 = {}"
    by (simp_all add: SGX_QUOTE_STATUS_LEVEL_1_def SGX_QUOTE_STATUS_LEVEL_2_def SGX_QUOTE_STATUS_LEVEL_3_def)
  then show ?thesis using assms
    by (auto simp: confidence_of_def status_level_def filter_advisories_def fold_advisories Let_def
      split: if_splits)
qed

lemma map_dcap_err_Inr [simp]: "map_dcap_err r = Inr x \<longleftrightarrow> r = Inr x"
  by (auto simp: map_dcap_err_def split: sum.splits exn.splits)

text \<open>
  What a successful validation vouches for, of the very report that was submitted: it is verified at
  time \<open>now\<close>, commits to the hash \<open>h\<close>, and, if \<open>vp\<close>, is of an enclave on the list \<open>allowed\<close>. No report
  at all vouches for nothing and is accepted only if attestation is optional.
\<close>

fun attests ::
  "scale_dec \<Rightarrow> 'o sgx_ops \<Rightarrow> ias_ops \<Rightarrow> bool \<Rightarrow> bytes list \<Rightarrow> bool \<Rightarrow> bytes \<Rightarrow> u64 \<Rightarrow>
   AttestationReport option \<Rightarrow> bool" where
  "attests sd ops ias vp allowed opt_out h now (Some (SgxIas report signature cert)) \<longleftrightarrow>
     ias_cert_ok ias cert \<and> ias_cert_verify_signature ias cert report signature \<and>
     ias_cert_verify_for_usage ias cert now \<and>
     (\<exists>f ts. IasFields_from_ias_report sd ias report = Inr (f, ts) \<and> sint (now - ts) < 7200 \<and>
        (vp \<longrightarrow> IasFields_extend_mrenclave f \<in> set allowed) \<and> take 32 (if_report_data f) = h)"
| "attests sd ops ias vp allowed opt_out h now (Some (SgxDcap quote coll)) \<longleftrightarrow>
     (\<exists>c report_data pruntime_hash status ids. coll = Some c \<and>
        dcap_verify sd ops quote c now = Inr (report_data, pruntime_hash, status, ids) \<and>
        (vp \<longrightarrow> pruntime_hash \<in> set allowed) \<and> take 32 report_data = h)"
| "attests sd ops ias vp allowed opt_out h now None \<longleftrightarrow> opt_out"

lemma validate_ias_report_Inr:
  assumes "validate_ias_report sd ias h report signature cert now vp allowed = Inr r"
  shows "attests sd ops ias vp allowed opt_out h now (Some (SgxIas report signature cert))"
  using assms unfolding validate_ias_report_def
  by (auto simp: ias_verify_signature_def Let_def split: sum.splits if_splits)

lemma validate_dcap_Inr:
  assumes "validate_dcap sd ops quote coll now h vp allowed = Inr r"
  shows "attests sd ops ias vp allowed opt_out h now (Some (SgxDcap quote (Some coll)))"
proof -
  obtain rd ph st ids where "dcap_verify sd ops quote coll now = Inr (rd, ph, st, ids)"
    "vp \<longrightarrow> ph \<in> set allowed" "take 32 rd = h"
    using assms by (auto simp: validate_dcap_def split: if_splits)
  then show ?thesis by auto
qed

lemma attestation_validate_Inr:
  assumes "attestation_validate sd ops ias a h now vp allowed opt_out = Inr r"
  shows "attests sd ops ias vp allowed opt_out h now a"
proof (cases a)
  case None
  then show ?thesis using assms by (simp split: if_splits)
next
  case (Some rep)
  then show ?thesis using assms
    by (cases rep) (auto split: option.splits simp del: attests.simps
      intro: validate_ias_report_Inr validate_dcap_Inr)
qed

lemma legacy_eq:
  "legacy_from_ias_report = IasFields_from_ias_report" "legacy_extend_mrenclave = IasFields_extend_mrenclave"
  by (simp_all add: fun_eq_iff legacy_from_ias_report_def IasFields_from_ias_report_def
    legacy_extend_mrenclave_def IasFields_extend_mrenclave_def)

section \<open>Properties\<close>

lemma validators_agree:
  "validate_ias_report sd ias h report signature cert now vp allowed =
   (case IasValidator_validate sd ias (SgxIas_legacy report signature cert) h now vp allowed of
      Inl e \<Rightarrow> Inl e
    | Inr f \<Rightarrow> Inr \<lparr>cr_confidence_level = if_confidence_level f, cr_provider = Some Ias,
        cr_runtime_hash = IasFields_extend_mrenclave f\<rparr>)"
proof (cases "ias_verify_signature ias report signature cert now")
  case (Inl e)
  then show ?thesis by (simp add: validate_ias_report_def legacy_validate_ias_report_def)
next
  case (Inr u)
  then show ?thesis
    by (cases "IasFields_from_ias_report sd ias report")
      (auto simp: validate_ias_report_def legacy_validate_ias_report_def legacy_eq Let_def)
qed

text \<open>
  The second version of the attestation interface treats an IAS report exactly as the legacy
  validator does: the same errors in the same order, and on success the confidence level of the
  legacy result and the enclave identity of its fields.
\<close>

theorem legacy_validator_equiv:
  "attestation_validate sd ops ias (Some (SgxIas report signature cert)) h now vp allowed opt_out =
   (case IasValidator_validate sd ias (SgxIas_legacy report signature cert) h now vp allowed of
      Inl e \<Rightarrow> Inl (Fails e)
    | Inr f \<Rightarrow> Inr \<lparr>cr_confidence_level = if_confidence_level f, cr_provider = Some Ias,
        cr_runtime_hash = IasFields_extend_mrenclave f\<rparr>)"
  by (cases "IasValidator_validate sd ias (SgxIas_legacy report signature cert) h now vp allowed")
    (simp_all add: validators_agree lift_err_def del: IasValidator_validate.simps)

text \<open>
  The confidence level of an accepted report is one of 1 to 5; it is 4 exactly when the platform
  needs configuration and reports an advisory that is not on the white list, and every report of an
  unlisted status is refused.
\<close>

theorem confidence_levels:
  "(\<forall>cl. confidence_of status ids = Inr cl \<longrightarrow> cl \<in> {1, 2, 3, 4, 5} \<and>
      (cl = 4 \<longleftrightarrow> status \<in> set SGX_QUOTE_STATUS_LEVEL_3 \<and>
         \<not> set ids \<subseteq> set SGX_QUOTE_ADVISORY_ID_WHITELIST)) \<and>
   (confidence_of status ids = Inl AE_InvalidQuoteStatus \<longleftrightarrow>
      status \<notin> set (SGX_QUOTE_STATUS_LEVEL_1 @ SGX_QUOTE_STATUS_LEVEL_2 @ SGX_QUOTE_STATUS_LEVEL_3 @
        SGX_QUOTE_STATUS_LEVEL_5))"
  using confidence_of_cases [of status ids]
  by (auto simp: confidence_of_def status_level_def Let_def split: if_splits)

theorem confidence_levels_witness:
  "confidence_of ''ConfigurationNeeded'' [''INTEL-SA-00334'', ''INTEL-SA-00614''] = Inr 4 \<and>
   (4 :: u8) \<in> {1, 2, 3, 4, 5}"
proof -
  have c: "confidence_of ''ConfigurationNeeded'' [''INTEL-SA-00334'', ''INTEL-SA-00614''] = Inr 4"
    by (simp add: confidence_of_def status_level_def filter_advisories_def status_lists)
  then show ?thesis
    using confidence_levels [of "''ConfigurationNeeded''" "[''INTEL-SA-00334'', ''INTEL-SA-00614'']"] by blast
qed

end
