(* ===== verification/Phala_Messages.thy ===== *)
theory Phala_Messages
  imports Mq_Types
begin

text \<open>
  The messages the pallets and the workers exchange, from the module \<open>messaging\<close> of
  \<open>crates/phala-types/src/lib.rs\<close>, and the registration data of a worker.
  Keys, block hashes and accounts are 256-bit values; a fixed-point value (\<open>U64F64Bits\<close>) is its 128 bits.
\<close>

datatype WorkerEvent =
    Registered u8
  | BenchStart u32
  | BenchScore u32
  | Started u32 u128 u32
  | Stopped
  | EnterUnresponsive
  | ExitUnresponsive

record HeartbeatChallenge =
  hc_seed :: h256
  hc_online_target :: h256

datatype SystemEvent =
    WorkerEvent_ev h256 WorkerEvent
  | HeartbeatChallenge_ev HeartbeatChallenge

definition SystemEvent_new_worker_event :: "h256 \<Rightarrow> WorkerEvent \<Rightarrow> SystemEvent" where
  "SystemEvent_new_worker_event pubkey event = WorkerEvent_ev pubkey event"

datatype WorkingReportEvent =
    Heartbeat u32 u32 u64 u64
  | HeartbeatV2 u32 u32 u64 u64 u32 u32

record SettleInfo =
  si_pubkey :: h256
  si_v :: u128
  si_payout :: u128
  si_treasury :: u128

record WorkingInfoUpdateEvent =
  wi_block_number :: u32
  wi_timestamp_ms :: u64
  wi_offline :: "h256 list"
  wi_recovered_to_online :: "h256 list"
  wi_settle :: "SettleInfo list"

definition WorkingInfoUpdateEvent_new :: "u32 \<Rightarrow> u64 \<Rightarrow> WorkingInfoUpdateEvent" where
  "WorkingInfoUpdateEvent_new block_number timestamp_ms =
     \<lparr>wi_block_number = block_number, wi_timestamp_ms = timestamp_ms, wi_offline = [],
      wi_recovered_to_online = [], wi_settle = []\<rparr>"

definition WorkingInfoUpdateEvent_is_empty :: "WorkingInfoUpdateEvent \<Rightarrow> bool" where
  "WorkingInfoUpdateEvent_is_empty e \<longleftrightarrow>
     wi_offline e = [] \<and> wi_settle e = [] \<and> wi_recovered_to_online e = []"

record TokenomicParams =
  tp_pha_rate :: u128
  tp_rho :: u128
  tp_budget_per_block :: u128
  tp_v_max :: u128
  tp_cost_k :: u128
  tp_cost_b :: u128
  tp_slash_rate :: u128
  tp_treasury_ratio :: u128
  tp_heartbeat_window :: u32
  tp_rig_k :: u128
  tp_rig_b :: u128
  tp_re :: u128
  tp_k :: u128
  tp_kappa :: u128

record WorkerIdentity =
  id_pubkey :: h256
  id_ecdh_pubkey :: h256

datatype GatekeeperLaunch =
    FirstGatekeeper h256 h256
  | MasterPubkeyOnChain h256
  | RotateMasterKey u64 "WorkerIdentity list"
  | MasterPubkeyRotated h256

datatype GatekeeperChange =
    Gatekeeper_Registered h256 h256
  | Gatekeeper_Unregistered h256

definition GatekeeperLaunch_first_gatekeeper :: "h256 \<Rightarrow> h256 \<Rightarrow> GatekeeperLaunch" where
  "GatekeeperLaunch_first_gatekeeper pubkey ecdh_pubkey = FirstGatekeeper pubkey ecdh_pubkey"

definition GatekeeperLaunch_master_pubkey_on_chain :: "h256 \<Rightarrow> GatekeeperLaunch" where
  "GatekeeperLaunch_master_pubkey_on_chain master_pubkey = MasterPubkeyOnChain master_pubkey"

definition GatekeeperLaunch_rotate_master_key :: "u64 \<Rightarrow> WorkerIdentity list \<Rightarrow> GatekeeperLaunch" where
  "GatekeeperLaunch_rotate_master_key rotation_id gk_identities = RotateMasterKey rotation_id gk_identities"

definition GatekeeperLaunch_master_pubkey_rotated :: "h256 \<Rightarrow> GatekeeperLaunch" where
  "GatekeeperLaunch_master_pubkey_rotated master_pubkey = MasterPubkeyRotated master_pubkey"

definition GatekeeperChange_gatekeeper_registered :: "h256 \<Rightarrow> h256 \<Rightarrow> GatekeeperChange" where
  "GatekeeperChange_gatekeeper_registered pubkey ecdh_pubkey = Gatekeeper_Registered pubkey ecdh_pubkey"

definition GatekeeperChange_gatekeeper_unregistered :: "h256 \<Rightarrow> GatekeeperChange" where
  "GatekeeperChange_gatekeeper_unregistered pubkey = Gatekeeper_Unregistered pubkey"

lemmas message_ctors =
  SystemEvent_new_worker_event_def GatekeeperLaunch_first_gatekeeper_def
  GatekeeperLaunch_master_pubkey_on_chain_def GatekeeperLaunch_rotate_master_key_def
  GatekeeperLaunch_master_pubkey_rotated_def GatekeeperChange_gatekeeper_registered_def
  GatekeeperChange_gatekeeper_unregistered_def

text \<open>What a pallet pushes to the queue.\<close>

datatype Pallet_message =
    System_msg SystemEvent
  | GkLaunch_msg GatekeeperLaunch
  | GkChange_msg GatekeeperChange

section \<open>Registration data\<close>

record WorkerRegistrationInfo =
  wr_version :: u32
  wr_machine_id :: bytes
  wr_pubkey :: h256
  wr_ecdh_pubkey :: h256
  wr_genesis_block_hash :: h256
  wr_features :: "u32 list"
  wr_operator :: "h256 option"

record WorkerRegistrationInfoV2 =
  w2_version :: u32
  w2_machine_id :: bytes
  w2_pubkey :: h256
  w2_ecdh_pubkey :: h256
  w2_genesis_block_hash :: h256
  w2_features :: "u32 list"
  w2_operator :: "h256 option"
  w2_para_id :: u32
  w2_max_consensus_version :: u32

datatype VersionedWorkerEndpoints = Endpoints_V1 "string list"

record WorkerEndpointPayload =
  ep_pubkey :: h256
  ep_versioned_endpoints :: VersionedWorkerEndpoints
  ep_signing_time :: u64

end
