(* ===== verification/Pallet_Registry.thy ===== *)
theory Pallet_Registry
  imports Attestation Phala_Messages Pallet_Mq
begin

text \<open>
  The registry of workers and gatekeepers, \<open>pallets/phala/src/registry.rs\<close>. Storage items are fields
  of a record, with the block number and the time of the block and the logs of deposited events and
  pushed messages. An extrinsic returns an error (or panics) or the new storage; a message handler
  may change the storage and then return an error.

  Arguments of the model, in a configuration record: the associated constants and origins of the
  pallet's \<open>Config\<close>, the hashes of the encoded registration data, the encoder of an endpoint
  payload and the host's signature check. The maps \<open>ContractKeys\<close> and \<open>ClusterKeys\<close>, which this pallet
  only reads to check a message, are with that check in \<open>Pallet_Mq\<close>; \<open>TempWorkersIterKey\<close> is unused.
\<close>

section \<open>Storage\<close>

record WorkerInfoV2 =
  wi_pubkey :: h256
  wi_ecdh_pubkey :: h256
  wi_runtime_version :: u32
  wi_last_updated :: u64
  wi_operator :: "h256 option"
  wi_attestation_provider :: "AttestationProvider option"
  wi_confidence_level :: u8
  wi_initial_score :: "u32 option"
  wi_features :: "u32 list"

record KnownConsensusVersion =
  kc_version :: u32
  kc_count :: u32

datatype Registry_Event =
    GatekeeperAdded h256
  | GatekeeperRemoved h256
  | WorkerAdded h256 "AttestationProvider option" u8
  | WorkerUpdated h256 "AttestationProvider option" u8
  | MasterKeyRotated u64 h256
  | MasterKeyRotationFailed "u64 option" u64
  | InitialScoreSet h256 u32
  | MinimumPRuntimeVersionChangedTo u32 u32 u32
  | PRuntimeConsensusVersionChangedTo u32
  | GatekeeperLaunched

record registry_state =
  rg_Gatekeeper :: "h256 list"
  rg_GatekeeperMasterPubkey :: "h256 option"
  rg_GatekeeperLaunchedAt :: "(u32 \<times> u64) option"
  rg_RotationCounter :: u64
  rg_MasterKeyRotationLock :: "u64 option"
  rg_Workers :: "h256 \<Rightarrow> WorkerInfoV2 option"
  rg_WorkerAddedAt :: "h256 \<Rightarrow> u32 option"
  rg_TopicKey :: "bytes \<Rightarrow> bytes option"
  rg_BenchmarkDuration :: "u32 option"
  rg_PRuntimeAllowList :: "bytes list"
  rg_PRuntimeAddedAt :: "bytes \<Rightarrow> u32 option"
  rg_RelaychainGenesisBlockHashAllowList :: "h256 list"
  rg_Endpoints :: "h256 \<Rightarrow> VersionedWorkerEndpoints option"
  rg_MinimumPRuntimeVersion :: "u32 \<times> u32 \<times> u32"
  rg_PRuntimeConsensusVersion :: u32
  rg_MaxKnownPRuntimeConsensusVersion :: KnownConsensusVersion
  rg_TrustedNtpServers :: "string list"
  rg_block :: u32
  rg_now_ms :: u64
  rg_events :: "Registry_Event list"
  rg_out :: "Pallet_message list"
  rg_queued :: "Pallet_message list"

datatype Registry_Error =
    RE_CannotHandleUnknownMessage | RE_MalformedSignature | RE_UnknownContract | RE_InvalidRuntimeInfo
  | RE_InvalidInput | RE_InvalidMasterPubkey | RE_UnknownCluster | RE_NotImplemented
  | RE_NotMigrationRoot | RE_InvalidConsensusVersion
  | RE_InvalidSender | RE_InvalidPubKey | RE_InvalidSignatureLength | RE_InvalidSignature
  | RE_InvalidIASSigningCert | RE_InvalidReport | RE_InvalidQuoteStatus | RE_BadIASReport
  | RE_OutdatedIASReport | RE_UnknownQuoteBodyFormat | RE_InvalidDCAPQuote | RE_InvalidRuntimeInfoHash
  | RE_InvalidBenchReport | RE_WorkerNotFound | RE_NoneAttestationDisabled | RE_InvalidGatekeeper
  | RE_MasterKeyMismatch | RE_MasterKeyUninitialized | RE_GenesisBlockHashRejected
  | RE_GenesisBlockHashAlreadyExists | RE_GenesisBlockHashNotFound | RE_PRuntimeRejected
  | RE_PRuntimeAlreadyExists | RE_PRuntimeNotFound | RE_CannotRemoveLastGatekeeper
  | RE_MasterKeyInRotation | RE_InvalidRotatedMasterPubkey | RE_InvalidEndpointSigningTime
  | RE_ParachainIdMismatch | RE_UnsupportedAttestationType | RE_BadOrigin

record 'o registry_config =
  GovernanceOrigin :: "RawOrigin \<Rightarrow> bool"
  NoneAttestationEnabled :: bool
  VerifyPRuntime :: bool
  VerifyRelaychainGenesisBlockHash :: bool
  ParachainId :: u32
  LegacyAttestationValidator ::
    "Attestation_legacy \<Rightarrow> bytes \<Rightarrow> u64 \<Rightarrow> bool \<Rightarrow> bytes list \<Rightarrow> Attestation_Error + IasFields"
  cfg_sd :: scale_dec
  cfg_sgx :: "'o sgx_ops"
  cfg_ias :: ias_ops
  hash_info :: "WorkerRegistrationInfo \<Rightarrow> bytes"
  hash_info_v2 :: "WorkerRegistrationInfoV2 \<Rightarrow> bytes"
  encode_endpoint :: "WorkerEndpointPayload \<Rightarrow> bytes"
  cfg_sr25519_verify :: "bytes \<Rightarrow> bytes \<Rightarrow> h256 \<Rightarrow> bool"

type_synonym registry_result = "Registry_Error exn + registry_state"

fun AttestationError_into :: "Attestation_Error \<Rightarrow> Registry_Error" where
  "AttestationError_into AE_PRuntimeRejected = RE_PRuntimeRejected"
| "AttestationError_into AE_InvalidIASSigningCert = RE_InvalidIASSigningCert"
| "AttestationError_into AE_InvalidReport = RE_InvalidReport"
| "AttestationError_into AE_InvalidQuoteStatus = RE_InvalidQuoteStatus"
| "AttestationError_into AE_BadIASReport = RE_BadIASReport"
| "AttestationError_into AE_OutdatedIASReport = RE_OutdatedIASReport"
| "AttestationError_into AE_UnknownQuoteBodyFormat = RE_UnknownQuoteBodyFormat"
| "AttestationError_into AE_InvalidUserDataHash = RE_InvalidRuntimeInfoHash"
| "AttestationError_into AE_NoneAttestationDisabled = RE_NoneAttestationDisabled"
| "AttestationError_into AE_UnsupportedAttestationType = RE_UnsupportedAttestationType"
| "AttestationError_into (AE_InvalidDCAPQuote _) = RE_InvalidDCAPQuote"

section \<open>Helpers\<close>

definition Registry_push_message :: "Pallet_message \<Rightarrow> registry_state \<Rightarrow> registry_state" where
  "Registry_push_message m s = s\<lparr>rg_out := rg_out s @ [m]\<rparr>"

definition Registry_queue_message :: "Pallet_message \<Rightarrow> registry_state \<Rightarrow> registry_state" where
  "Registry_queue_message m s = s\<lparr>rg_queued := rg_queued s @ [m]\<rparr>"

definition Registry_deposit_event :: "Registry_Event \<Rightarrow> registry_state \<Rightarrow> registry_state" where
  "Registry_deposit_event e s = s\<lparr>rg_events := rg_events s @ [e]\<rparr>"

definition push_worker_event :: "h256 \<Rightarrow> WorkerEvent \<Rightarrow> registry_state \<Rightarrow> registry_state" where
  "push_worker_event pubkey ev = Registry_push_message (System_msg (SystemEvent_new_worker_event pubkey ev))"

definition ensure_gov :: "'o registry_config \<Rightarrow> RawOrigin \<Rightarrow> Registry_Error exn + unit" where
  "ensure_gov cfg origin = ensure (GovernanceOrigin cfg origin) (Fails RE_BadOrigin)"

definition registry_ensure_root :: "RawOrigin \<Rightarrow> Registry_Error exn + unit" where
  "registry_ensure_root origin = ensure (origin = Root) (Fails RE_BadOrigin)"

definition registry_ensure_signed :: "RawOrigin \<Rightarrow> Registry_Error exn + unit" where
  "registry_ensure_signed origin = ensure (case origin of Signed _ \<Rightarrow> True | _ \<Rightarrow> False) (Fails RE_BadOrigin)"

definition now_secs :: "registry_state \<Rightarrow> u64" where
  "now_secs s = rg_now_ms s div 1000"

section \<open>Extrinsics\<close>

definition force_set_benchmark_duration ::
  "'o registry_config \<Rightarrow> RawOrigin \<Rightarrow> u32 \<Rightarrow> registry_state \<Rightarrow> registry_result" where
  "force_set_benchmark_duration cfg origin v s =
     bind_res (ensure_gov cfg origin) (\<lambda>_. Inr (s\<lparr>rg_BenchmarkDuration := Some v\<rparr>))"

definition force_register_worker ::
  "RawOrigin \<Rightarrow> h256 \<Rightarrow> h256 \<Rightarrow> h256 option \<Rightarrow> registry_state \<Rightarrow> registry_result" where
  "force_register_worker origin pubkey ecdh_pubkey operator s =
     bind_res (registry_ensure_root origin) (\<lambda>_.
     let worker_info = \<lparr>wi_pubkey = pubkey, wi_ecdh_pubkey = ecdh_pubkey, wi_runtime_version = 0,
           wi_last_updated = 1, wi_operator = operator,
           wi_attestation_provider = Some Root_provider, wi_confidence_level = 128,
           wi_initial_score = None, wi_features = [1, 4]\<rparr>;
         s = s\<lparr>rg_Workers := (rg_Workers s)(pubkey \<mapsto> worker_info)\<rparr>;
         s = s\<lparr>rg_WorkerAddedAt := (rg_WorkerAddedAt s)(pubkey \<mapsto> rg_block s)\<rparr>;
         s = push_worker_event pubkey (Registered (wi_confidence_level worker_info)) s
     in Inr (Registry_deposit_event
          (WorkerAdded pubkey (Some Root_provider) (wi_confidence_level worker_info)) s))"

definition force_register_topic_pubkey ::
  "RawOrigin \<Rightarrow> bytes \<Rightarrow> bytes \<Rightarrow> registry_state \<Rightarrow> registry_result" where
  "force_register_topic_pubkey origin topic pubkey s =
     bind_res (registry_ensure_root origin) (\<lambda>_.
       Inr (s\<lparr>rg_TopicKey := (rg_TopicKey s)(topic \<mapsto> pubkey)\<rparr>))"

definition register_gatekeeper ::
  "'o registry_config \<Rightarrow> RawOrigin \<Rightarrow> h256 \<Rightarrow> registry_state \<Rightarrow> registry_result" where
  "register_gatekeeper cfg origin gatekeeper s =
     bind_res (ensure_gov cfg origin) (\<lambda>_.
     bind_res (ensure (rg_MasterKeyRotationLock s = None) (Fails RE_MasterKeyInRotation)) (\<lambda>_.
     let gatekeepers = rg_Gatekeeper s in
     bind_res (ensure (gatekeepers = [] \<or> rg_GatekeeperMasterPubkey s \<noteq> None)
       (Fails RE_MasterKeyUninitialized)) (\<lambda>_.
     bind_res
       (if gatekeeper \<notin> set gatekeepers
        then bind_res (ok_or (rg_Workers s gatekeeper) (Fails RE_WorkerNotFound)) (\<lambda>worker_info.
          let gatekeepers = gatekeepers @ [gatekeeper];
              gatekeeper_count = (of_nat (length gatekeepers) :: u32);
              s = s\<lparr>rg_Gatekeeper := gatekeepers\<rparr>
          in Inr (if gatekeeper_count = 1
               then Registry_push_message (GkLaunch_msg (GatekeeperLaunch_first_gatekeeper gatekeeper
                      (wi_ecdh_pubkey worker_info))) s
               else Registry_push_message (GkChange_msg (GatekeeperChange_gatekeeper_registered gatekeeper
                      (wi_ecdh_pubkey worker_info))) s))
        else Inr s)
       (\<lambda>s. Inr (Registry_deposit_event (GatekeeperAdded gatekeeper) s)))))"

definition unregister_gatekeeper ::
  "'o registry_config \<Rightarrow> RawOrigin \<Rightarrow> h256 \<Rightarrow> registry_state \<Rightarrow> registry_result" where
  "unregister_gatekeeper cfg origin gatekeeper s =
     bind_res (ensure_gov cfg origin) (\<lambda>_.
     bind_res (ensure (rg_MasterKeyRotationLock s = None) (Fails RE_MasterKeyInRotation)) (\<lambda>_.
     let gatekeepers = rg_Gatekeeper s in
     bind_res (ensure (gatekeeper \<in> set gatekeepers) (Fails RE_InvalidGatekeeper)) (\<lambda>_.
     bind_res (ensure (length gatekeepers > 1) (Fails RE_CannotRemoveLastGatekeeper)) (\<lambda>_.
     let s = s\<lparr>rg_Gatekeeper := filter (\<lambda>g. g \<noteq> gatekeeper) gatekeepers\<rparr>
     in Inr (Registry_push_message (GkChange_msg (GatekeeperChange_gatekeeper_unregistered gatekeeper)) s)))))"

definition rotate_master_key ::
  "'o registry_config \<Rightarrow> RawOrigin \<Rightarrow> registry_state \<Rightarrow> registry_result" where
  "rotate_master_key cfg origin s =
     bind_res (ensure_gov cfg origin) (\<lambda>_.
     bind_res (ensure (rg_MasterKeyRotationLock s = None) (Fails RE_MasterKeyInRotation)) (\<lambda>_.
     bind_res (mapM_res (\<lambda>gk. bind_res (ok_or (rg_Workers s gk) (Fails RE_WorkerNotFound)) (\<lambda>worker_info.
         Inr \<lparr>id_pubkey = wi_pubkey worker_info, id_ecdh_pubkey = wi_ecdh_pubkey worker_info\<rparr>))
       (rg_Gatekeeper s)) (\<lambda>gk_identities.
     let s = s\<lparr>rg_RotationCounter := rg_RotationCounter s + 1\<rparr>;
         rotation_id = rg_RotationCounter s;
         s = s\<lparr>rg_MasterKeyRotationLock := Some rotation_id\<rparr>
     in Inr (Registry_push_message (GkLaunch_msg (GatekeeperLaunch_rotate_master_key rotation_id gk_identities)) s))))"

text \<open>The closure of \<open>Workers::mutate\<close> in both registrations: refresh a worker or add a new one.\<close>

definition upsert_worker ::
  "h256 \<Rightarrow> h256 \<Rightarrow> u32 \<Rightarrow> h256 option \<Rightarrow> u32 list \<Rightarrow> AttestationProvider option \<Rightarrow> u8 \<Rightarrow> u64 \<Rightarrow>
   registry_state \<Rightarrow> registry_state" where
  "upsert_worker pubkey ecdh_pubkey version operator features provider confidence_level now s =
     (case rg_Workers s pubkey of
        Some worker_info \<Rightarrow>
          let s = s\<lparr>rg_Workers := (rg_Workers s)(pubkey \<mapsto> worker_info\<lparr>wi_last_updated := now,
                wi_operator := operator, wi_runtime_version := version,
                wi_confidence_level := confidence_level, wi_features := features\<rparr>)\<rparr>;
              s = push_worker_event pubkey (Registered confidence_level) s
          in Registry_deposit_event (WorkerUpdated pubkey provider confidence_level) s
      | None \<Rightarrow>
          let s = s\<lparr>rg_Workers := (rg_Workers s)(pubkey \<mapsto> \<lparr>wi_pubkey = pubkey,
                wi_ecdh_pubkey = ecdh_pubkey, wi_runtime_version = version, wi_last_updated = now,
                wi_operator = operator, wi_attestation_provider = provider,
                wi_confidence_level = confidence_level, wi_initial_score = None,
                wi_features = features\<rparr>)\<rparr>;
              s = push_worker_event pubkey (Registered confidence_level) s;
              s = Registry_deposit_event (WorkerAdded pubkey provider confidence_level) s
          in s\<lparr>rg_WorkerAddedAt := (rg_WorkerAddedAt s)(pubkey \<mapsto> rg_block s)\<rparr>)"

definition trigger_benchmark :: "h256 \<Rightarrow> registry_state \<Rightarrow> registry_state" where
  "trigger_benchmark pubkey s =
     push_worker_event pubkey (BenchStart (unwrap_or (rg_BenchmarkDuration s) 0)) s"

definition check_relaychain_genesis ::
  "'o registry_config \<Rightarrow> h256 \<Rightarrow> registry_state \<Rightarrow> Registry_Error exn + unit" where
  "check_relaychain_genesis cfg genesis_block_hash s =
     (if VerifyRelaychainGenesisBlockHash cfg
      then ensure (genesis_block_hash \<in> set (rg_RelaychainGenesisBlockHashAllowList s))
             (Fails RE_GenesisBlockHashRejected)
      else Inr ())"

definition register_worker ::
  "'o registry_config \<Rightarrow> RawOrigin \<Rightarrow> WorkerRegistrationInfo \<Rightarrow> Attestation_legacy \<Rightarrow> registry_state \<Rightarrow>
   registry_result" where
  "register_worker cfg origin pruntime_info attestation s =
     bind_res (registry_ensure_signed origin) (\<lambda>_.
     let now = now_secs s; runtime_info_hash = hash_info cfg pruntime_info in
     bind_res (case LegacyAttestationValidator cfg attestation runtime_info_hash now (VerifyPRuntime cfg)
                 (rg_PRuntimeAllowList s) of
                 Inl e \<Rightarrow> Inl (Fails (AttestationError_into e)) | Inr f \<Rightarrow> Inr f) (\<lambda>fields.
     bind_res (check_relaychain_genesis cfg (wr_genesis_block_hash pruntime_info) s) (\<lambda>_.
     let pubkey = wr_pubkey pruntime_info;
         s = upsert_worker pubkey (wr_ecdh_pubkey pruntime_info) (wr_version pruntime_info)
               (wr_operator pruntime_info) (wr_features pruntime_info) (Some Ias)
               (if_confidence_level fields) now s
     in Inr (trigger_benchmark pubkey s))))"

definition update_known_consensus_version :: "u32 \<Rightarrow> KnownConsensusVersion \<Rightarrow> KnownConsensusVersion" where
  "update_known_consensus_version v info =
     (if kc_version info < v then info\<lparr>kc_version := v, kc_count := 1\<rparr>
      else if kc_version info = v then info\<lparr>kc_count := kc_count info + 1\<rparr>
      else info)"

definition register_worker_v2 ::
  "'o registry_config \<Rightarrow> RawOrigin \<Rightarrow> WorkerRegistrationInfoV2 \<Rightarrow> AttestationReport option \<Rightarrow>
   registry_state \<Rightarrow> registry_result" where
  "register_worker_v2 cfg origin pruntime_info attestation s =
     bind_res (registry_ensure_signed origin) (\<lambda>_.
     let now = now_secs s; runtime_info_hash = hash_info_v2 cfg pruntime_info in
     bind_res (case attestation_validate (cfg_sd cfg) (cfg_sgx cfg) (cfg_ias cfg) attestation
                 runtime_info_hash now (VerifyPRuntime cfg) (rg_PRuntimeAllowList s)
                 (NoneAttestationEnabled cfg) of
                 Inl Panics \<Rightarrow> Inl Panics
               | Inl (Fails e) \<Rightarrow> Inl (Fails (AttestationError_into e)) | Inr r \<Rightarrow> Inr r) (\<lambda>attestation_report.
     bind_res (ensure (w2_para_id pruntime_info = ParachainId cfg) (Fails RE_ParachainIdMismatch)) (\<lambda>_.
     bind_res (check_relaychain_genesis cfg (w2_genesis_block_hash pruntime_info) s) (\<lambda>_.
     let s = s\<lparr>rg_MaxKnownPRuntimeConsensusVersion :=
               update_known_consensus_version (w2_max_consensus_version pruntime_info)
                 (rg_MaxKnownPRuntimeConsensusVersion s)\<rparr>;
         pubkey = w2_pubkey pruntime_info;
         s = upsert_worker pubkey (w2_ecdh_pubkey pruntime_info) (w2_version pruntime_info)
               (w2_operator pruntime_info) (w2_features pruntime_info) (cr_provider attestation_report)
               (cr_confidence_level attestation_report) now s
     in Inr (trigger_benchmark pubkey s)))))"

text \<open>A 64-byte slice always converts to a signature, so \<open>MalformedSignature\<close> cannot occur.\<close>

definition update_worker_endpoint ::
  "'o registry_config \<Rightarrow> RawOrigin \<Rightarrow> WorkerEndpointPayload \<Rightarrow> bytes \<Rightarrow> registry_state \<Rightarrow> registry_result" where
  "update_worker_endpoint cfg origin endpoint_payload signature s =
     bind_res (registry_ensure_signed origin) (\<lambda>_.
     bind_res (ensure (length signature = 64) (Fails RE_InvalidSignatureLength)) (\<lambda>_.
     let encoded_data = encode_endpoint cfg endpoint_payload;
         data_to_sign = wrap_content_to_sign encoded_data EndpointInfo in
     bind_res (ensure (cfg_sr25519_verify cfg signature data_to_sign (ep_pubkey endpoint_payload))
       (Fails RE_InvalidSignature)) (\<lambda>_.
     let expiration = 4 * 60 * 60 * 1000; now = rg_now_ms s in
     bind_res (ensure (ep_signing_time endpoint_payload < now \<and>
         now \<le> ep_signing_time endpoint_payload + expiration) (Fails RE_InvalidEndpointSigningTime)) (\<lambda>_.
     bind_res (ensure (rg_Workers s (ep_pubkey endpoint_payload) \<noteq> None) (Fails RE_InvalidPubKey)) (\<lambda>_.
       Inr (s\<lparr>rg_Endpoints := (rg_Endpoints s)(ep_pubkey endpoint_payload \<mapsto>
              ep_versioned_endpoints endpoint_payload)\<rparr>))))))"

definition add_pruntime ::
  "'o registry_config \<Rightarrow> RawOrigin \<Rightarrow> bytes \<Rightarrow> registry_state \<Rightarrow> registry_result" where
  "add_pruntime cfg origin pruntime_hash s =
     bind_res (ensure_gov cfg origin) (\<lambda>_.
     bind_res (ensure (pruntime_hash \<notin> set (rg_PRuntimeAllowList s)) (Fails RE_PRuntimeAlreadyExists)) (\<lambda>_.
       Inr (s\<lparr>rg_PRuntimeAllowList := rg_PRuntimeAllowList s @ [pruntime_hash],
              rg_PRuntimeAddedAt := (rg_PRuntimeAddedAt s)(pruntime_hash \<mapsto> rg_block s)\<rparr>)))"

definition remove_pruntime ::
  "'o registry_config \<Rightarrow> RawOrigin \<Rightarrow> bytes \<Rightarrow> registry_state \<Rightarrow> registry_result" where
  "remove_pruntime cfg origin pruntime_hash s =
     bind_res (ensure_gov cfg origin) (\<lambda>_.
     bind_res (ensure (pruntime_hash \<in> set (rg_PRuntimeAllowList s)) (Fails RE_PRuntimeNotFound)) (\<lambda>_.
       Inr (s\<lparr>rg_PRuntimeAllowList := filter (\<lambda>h. h \<noteq> pruntime_hash) (rg_PRuntimeAllowList s),
              rg_PRuntimeAddedAt := (rg_PRuntimeAddedAt s)(pruntime_hash := None)\<rparr>)))"

definition add_relaychain_genesis_block_hash ::
  "'o registry_config \<Rightarrow> RawOrigin \<Rightarrow> h256 \<Rightarrow> registry_state \<Rightarrow> registry_result" where
  "add_relaychain_genesis_block_hash cfg origin genesis_block_hash s =
     bind_res (ensure_gov cfg origin) (\<lambda>_.
     bind_res (ensure (genesis_block_hash \<notin> set (rg_RelaychainGenesisBlockHashAllowList s))
       (Fails RE_GenesisBlockHashAlreadyExists)) (\<lambda>_.
       Inr (s\<lparr>rg_RelaychainGenesisBlockHashAllowList :=
              rg_RelaychainGenesisBlockHashAllowList s @ [genesis_block_hash]\<rparr>)))"

definition remove_relaychain_genesis_block_hash ::
  "'o registry_config \<Rightarrow> RawOrigin \<Rightarrow> h256 \<Rightarrow> registry_state \<Rightarrow> registry_result" where
  "remove_relaychain_genesis_block_hash cfg origin genesis_block_hash s =
     bind_res (ensure_gov cfg origin) (\<lambda>_.
     bind_res (ensure (genesis_block_hash \<in> set (rg_RelaychainGenesisBlockHashAllowList s))
       (Fails RE_GenesisBlockHashNotFound)) (\<lambda>_.
       Inr (s\<lparr>rg_RelaychainGenesisBlockHashAllowList :=
              filter (\<lambda>h. h \<noteq> genesis_block_hash) (rg_RelaychainGenesisBlockHashAllowList s)\<rparr>)))"

definition set_minimum_pruntime_version ::
  "'o registry_config \<Rightarrow> RawOrigin \<Rightarrow> u32 \<Rightarrow> u32 \<Rightarrow> u32 \<Rightarrow> registry_state \<Rightarrow> registry_result" where
  "set_minimum_pruntime_version cfg origin major minor patch s =
     bind_res (ensure_gov cfg origin) (\<lambda>_.
       Inr (Registry_deposit_event (MinimumPRuntimeVersionChangedTo major minor patch)
              (s\<lparr>rg_MinimumPRuntimeVersion := (major, minor, patch)\<rparr>)))"

definition set_pruntime_consensus_version ::
  "'o registry_config \<Rightarrow> RawOrigin \<Rightarrow> u32 \<Rightarrow> registry_state \<Rightarrow> registry_result" where
  "set_pruntime_consensus_version cfg origin version s =
     bind_res (ensure_gov cfg origin) (\<lambda>_.
       Inr (Registry_deposit_event (PRuntimeConsensusVersionChangedTo version)
              (s\<lparr>rg_PRuntimeConsensusVersion := version\<rparr>)))"

definition set_trusted_ntp_servers ::
  "'o registry_config \<Rightarrow> RawOrigin \<Rightarrow> string list \<Rightarrow> registry_state \<Rightarrow> registry_result" where
  "set_trusted_ntp_servers cfg origin servers s =
     bind_res (ensure_gov cfg origin) (\<lambda>_. Inr (s\<lparr>rg_TrustedNtpServers := servers\<rparr>))"

section \<open>Messages from workers and gatekeepers\<close>

datatype RegistryEvent =
    BenchReport u64 u64
  | MasterPubkey h256

datatype GatekeeperRegistryEvent = RotatedMasterPubkey u64 h256

definition on_gatekeeper_launched :: "registry_state \<Rightarrow> registry_state" where
  "on_gatekeeper_launched s =
     Registry_deposit_event GatekeeperLaunched
       (s\<lparr>rg_GatekeeperLaunchedAt := Some (rg_block s, now_secs s)\<rparr>)"

definition MAX_SCORE :: u32 where
  "MAX_SCORE = 6000"

text \<open>The score of a benchmark; the division by zero of the source is \<^term>\<open>None\<close>.\<close>

definition bench_score :: "u64 \<Rightarrow> u64 \<Rightarrow> u64 \<Rightarrow> u32 option" where
  "bench_score now start_time iterations =
     (let secs = (now - start_time) div 1000
      in if secs = 0 then None
         else let score = iterations div secs;
                  score = score * 6
              in Some (min MAX_SCORE (ucast score)))"

definition Registry_on_message_received ::
  "RegistryEvent DecodedMessage \<Rightarrow> registry_state \<Rightarrow> (Registry_Error exn + unit) \<times> registry_state" where
  "Registry_on_message_received message s =
     (case dm_sender message of
        Worker worker_pubkey \<Rightarrow>
          (case dm_payload message of
             BenchReport start_time iterations \<Rightarrow>
               (let now = rg_now_ms s in
                if now \<le> start_time then (Inl (Fails RE_InvalidBenchReport), s)
                else case bench_score now start_time iterations of
                  None \<Rightarrow> (Inl Panics, s)
                | Some score \<Rightarrow>
                    let s = (case rg_Workers s worker_pubkey of
                               Some val \<Rightarrow> s\<lparr>rg_Workers := (rg_Workers s)(worker_pubkey \<mapsto>
                                 val\<lparr>wi_initial_score := Some score, wi_last_updated := now div 1000\<rparr>)\<rparr>
                             | None \<Rightarrow> s);
                        s = push_worker_event worker_pubkey (BenchScore score) s
                    in (Inr (), Registry_deposit_event (InitialScoreSet worker_pubkey score) s))
           | MasterPubkey master_pubkey \<Rightarrow>
               if worker_pubkey \<notin> set (rg_Gatekeeper s) then (Inl (Fails RE_InvalidGatekeeper), s)
               else case rg_GatekeeperMasterPubkey s of
                 Some saved_pubkey \<Rightarrow>
                   (if saved_pubkey = master_pubkey then (Inr (), s)
                    else (Inl (Fails RE_MasterKeyMismatch), s))
               | None \<Rightarrow>
                   let s = s\<lparr>rg_GatekeeperMasterPubkey := Some master_pubkey\<rparr>;
                       s = Registry_push_message
                             (GkLaunch_msg (GatekeeperLaunch_master_pubkey_on_chain master_pubkey)) s
                   in (Inr (), on_gatekeeper_launched s))
      | _ \<Rightarrow> (Inl (Fails RE_InvalidSender), s))"

definition Registry_on_gk_message_received ::
  "GatekeeperRegistryEvent DecodedMessage \<Rightarrow> registry_state \<Rightarrow>
   (Registry_Error exn + unit) \<times> registry_state" where
  "Registry_on_gk_message_received message s =
     (if \<not> MessageOrigin_is_gatekeeper (dm_sender message) then (Inl (Fails RE_InvalidSender), s)
      else case dm_payload message of RotatedMasterPubkey rotation_id master_pubkey \<Rightarrow>
        let rotating = rg_MasterKeyRotationLock s in
        if rotating = None \<or> the rotating \<noteq> rotation_id
        then (Inl (Fails RE_InvalidRotatedMasterPubkey),
              Registry_deposit_event (MasterKeyRotationFailed rotating rotation_id) s)
        else let s = s\<lparr>rg_GatekeeperMasterPubkey := Some master_pubkey\<rparr>;
                 s = s\<lparr>rg_MasterKeyRotationLock := None\<rparr>;
                 s = Registry_deposit_event (MasterKeyRotated rotation_id master_pubkey) s
             in (Inr (), Registry_push_message
                  (GkLaunch_msg (GatekeeperLaunch_master_pubkey_rotated master_pubkey)) s))"

definition is_worker_registered_after_gk_launched :: "h256 \<Rightarrow> registry_state \<Rightarrow> bool" where
  "is_worker_registered_after_gk_launched worker s =
     (case rg_WorkerAddedAt s worker of
        None \<Rightarrow> False
      | Some worker_added_at \<Rightarrow>
          (case rg_GatekeeperLaunchedAt s of
             None \<Rightarrow> False
           | Some (gk_launched_at, _) \<Rightarrow> worker_added_at > gk_launched_at))"

section \<open>Genesis\<close>

record registry_genesis =
  gen_workers :: "(h256 \<times> bytes \<times> h256 option) list"
  gen_gatekeepers :: "h256 list"
  gen_benchmark_duration :: u32

definition GenesisConfig_default :: registry_genesis where
  "GenesisConfig_default = \<lparr>gen_workers = [], gen_gatekeepers = [], gen_benchmark_duration = 8\<rparr>"

text \<open>\<open>key\<close> reads a 32-byte slice as a key; \<open>expect\<close> panics on any other length.\<close>

definition genesis_add_worker ::
  "(bytes \<Rightarrow> h256) \<Rightarrow> u32 \<Rightarrow> registry_state \<Rightarrow> h256 \<times> bytes \<times> h256 option \<Rightarrow> registry_result" where
  "genesis_add_worker key duration s = (\<lambda>(pubkey, ecdh_pubkey, operator).
     if length ecdh_pubkey \<noteq> 32 then Inl Panics else
     let s = s\<lparr>rg_Workers := (rg_Workers s)(pubkey \<mapsto> \<lparr>wi_pubkey = pubkey,
               wi_ecdh_pubkey = key ecdh_pubkey, wi_runtime_version = 0, wi_last_updated = 0,
               wi_operator = operator, wi_attestation_provider = Some Root_provider,
               wi_confidence_level = 128, wi_initial_score = None, wi_features = [1, 4]\<rparr>)\<rparr>;
         s = Registry_queue_message (System_msg (SystemEvent_new_worker_event pubkey (Registered 128))) s;
         s = Registry_queue_message (System_msg (SystemEvent_new_worker_event pubkey (BenchStart duration))) s
     in Inr (s\<lparr>rg_BenchmarkDuration := Some duration\<rparr>))"

definition genesis_add_gatekeeper ::
  "h256 \<Rightarrow> h256 list \<times> registry_state \<Rightarrow> h256 list \<times> registry_state" where
  "genesis_add_gatekeeper gatekeeper = (\<lambda>(gatekeepers, s).
     case rg_Workers s gatekeeper of
       None \<Rightarrow> (gatekeepers, s)
     | Some worker_info \<Rightarrow>
         let gatekeepers = gatekeepers @ [gatekeeper];
             gatekeeper_count = (of_nat (length gatekeepers) :: u32);
             s = s\<lparr>rg_Gatekeeper := gatekeepers\<rparr>
         in (gatekeepers,
             if gatekeeper_count = 1
             then Registry_queue_message (GkLaunch_msg (GatekeeperLaunch_first_gatekeeper gatekeeper
                    (wi_ecdh_pubkey worker_info))) s
             else Registry_queue_message (GkChange_msg (GatekeeperChange_gatekeeper_registered gatekeeper
                    (wi_ecdh_pubkey worker_info))) s))"

definition GenesisConfig_build :: "(bytes \<Rightarrow> h256) \<Rightarrow> registry_genesis \<Rightarrow> registry_state \<Rightarrow> registry_result" where
  "GenesisConfig_build key g s =
     bind_res (foldM_res (genesis_add_worker key (gen_benchmark_duration g)) s (gen_workers g)) (\<lambda>s.
       Inr (snd (fold genesis_add_gatekeeper (gen_gatekeepers g) ([], s))))"

text \<open>Storage before genesis: every item at its default.\<close>

definition registry_empty :: registry_state where
  "registry_empty = \<lparr>rg_Gatekeeper = [], rg_GatekeeperMasterPubkey = None, rg_GatekeeperLaunchedAt = None,
     rg_RotationCounter = 0, rg_MasterKeyRotationLock = None, rg_Workers = Map.empty,
     rg_WorkerAddedAt = Map.empty, rg_TopicKey = Map.empty, rg_BenchmarkDuration = None,
     rg_PRuntimeAllowList = [], rg_PRuntimeAddedAt = Map.empty,
     rg_RelaychainGenesisBlockHashAllowList = [], rg_Endpoints = Map.empty,
     rg_MinimumPRuntimeVersion = (0, 0, 0), rg_PRuntimeConsensusVersion = 0,
     rg_MaxKnownPRuntimeConsensusVersion = \<lparr>kc_version = 0, kc_count = 0\<rparr>,
     rg_TrustedNtpServers = [], rg_block = 0, rg_now_ms = 0, rg_events = [], rg_out = [], rg_queued = []\<rparr>"

section \<open>Runs of the pallet\<close>

datatype Registry_Call =
    Call_force_set_benchmark_duration u32
  | Call_force_register_worker h256 h256 "h256 option"
  | Call_force_register_topic_pubkey bytes bytes
  | Call_register_gatekeeper h256
  | Call_unregister_gatekeeper h256
  | Call_rotate_master_key
  | Call_register_worker WorkerRegistrationInfo Attestation_legacy
  | Call_register_worker_v2 WorkerRegistrationInfoV2 "AttestationReport option"
  | Call_update_worker_endpoint WorkerEndpointPayload bytes
  | Call_add_pruntime bytes
  | Call_remove_pruntime bytes
  | Call_add_relaychain_genesis_block_hash h256
  | Call_remove_relaychain_genesis_block_hash h256
  | Call_set_minimum_pruntime_version u32 u32 u32
  | Call_set_pruntime_consensus_version u32
  | Call_set_trusted_ntp_servers "string list"

fun Registry_dispatch_call ::
  "'o registry_config \<Rightarrow> RawOrigin \<Rightarrow> Registry_Call \<Rightarrow> registry_state \<Rightarrow> registry_result" where
  "Registry_dispatch_call cfg o1 (Call_force_set_benchmark_duration v) s = force_set_benchmark_duration cfg o1 v s"
| "Registry_dispatch_call cfg o1 (Call_force_register_worker p e op) s = force_register_worker o1 p e op s"
| "Registry_dispatch_call cfg o1 (Call_force_register_topic_pubkey t p) s = force_register_topic_pubkey o1 t p s"
| "Registry_dispatch_call cfg o1 (Call_register_gatekeeper g) s = register_gatekeeper cfg o1 g s"
| "Registry_dispatch_call cfg o1 (Call_unregister_gatekeeper g) s = unregister_gatekeeper cfg o1 g s"
| "Registry_dispatch_call cfg o1 Call_rotate_master_key s = rotate_master_key cfg o1 s"
| "Registry_dispatch_call cfg o1 (Call_register_worker i a) s = register_worker cfg o1 i a s"
| "Registry_dispatch_call cfg o1 (Call_register_worker_v2 i a) s = register_worker_v2 cfg o1 i a s"
| "Registry_dispatch_call cfg o1 (Call_update_worker_endpoint p sg) s = update_worker_endpoint cfg o1 p sg s"
| "Registry_dispatch_call cfg o1 (Call_add_pruntime h) s = add_pruntime cfg o1 h s"
| "Registry_dispatch_call cfg o1 (Call_remove_pruntime h) s = remove_pruntime cfg o1 h s"
| "Registry_dispatch_call cfg o1 (Call_add_relaychain_genesis_block_hash h) s =
     add_relaychain_genesis_block_hash cfg o1 h s"
| "Registry_dispatch_call cfg o1 (Call_remove_relaychain_genesis_block_hash h) s =
     remove_relaychain_genesis_block_hash cfg o1 h s"
| "Registry_dispatch_call cfg o1 (Call_set_minimum_pruntime_version a b c) s =
     set_minimum_pruntime_version cfg o1 a b c s"
| "Registry_dispatch_call cfg o1 (Call_set_pruntime_consensus_version v) s =
     set_pruntime_consensus_version cfg o1 v s"
| "Registry_dispatch_call cfg o1 (Call_set_trusted_ntp_servers l) s = set_trusted_ntp_servers cfg o1 l s"

text \<open>
  What can happen to the registry: an extrinsic (a failed one leaves the storage), a message of a
  worker, a message the queue accepted from the gatekeepers (which takes a master key on chain to
  check its signature with), and a new block. A panic aborts the block that caused it.
\<close>

datatype registry_input =
    In_call RawOrigin Registry_Call
  | In_worker h256 RegistryEvent
  | In_gatekeeper GatekeeperRegistryEvent
  | In_block u64

definition keep_unless_panic :: "('e exn + unit) \<times> 's \<Rightarrow> 's \<Rightarrow> 's" where
  "keep_unless_panic r s = (if fst r = Inl Panics then s else snd r)"

fun registry_step :: "'o registry_config \<Rightarrow> registry_state \<Rightarrow> registry_input \<Rightarrow> registry_state" where
  "registry_step cfg s (In_call o1 c) =
     (case Registry_dispatch_call cfg o1 c s of Inl _ \<Rightarrow> s | Inr s' \<Rightarrow> s')"
| "registry_step cfg s (In_worker w e) =
     keep_unless_panic (Registry_on_message_received
       \<lparr>dm_sender = Worker w, dm_destination = Topic [], dm_payload = e\<rparr> s) s"
| "registry_step cfg s (In_gatekeeper e) =
     (if rg_GatekeeperMasterPubkey s = None then s
      else keep_unless_panic (Registry_on_gk_message_received
        \<lparr>dm_sender = Gatekeeper, dm_destination = Topic [], dm_payload = e\<rparr> s) s)"
| "registry_step cfg s (In_block now) = s\<lparr>rg_block := rg_block s + 1, rg_now_ms := now, rg_out := []\<rparr>"

definition registry_run :: "'o registry_config \<Rightarrow> registry_state \<Rightarrow> registry_input list \<Rightarrow> registry_state" where
  "registry_run cfg s ins = fold (\<lambda>i s. registry_step cfg s i) ins s"

section \<open>The protocol of gatekeepers and the master key\<close>

text \<open>
  An abstract machine: the list of gatekeepers, the master key, the rotation counter and lock, and
  the history of completed rotations. The registry refines it.
\<close>

record gk_protocol =
  gks :: "h256 list"
  master_key :: "h256 option"
  counter :: u64
  lock :: "u64 option"
  rotated :: "(u64 \<times> h256) list"

inductive gk_step :: "gk_protocol \<Rightarrow> gk_protocol \<Rightarrow> bool" where
  gk_stutter: "gk_step p p"
| gk_add: "lock p = None \<Longrightarrow> g \<notin> set (gks p) \<Longrightarrow> gks p = [] \<or> master_key p \<noteq> None \<Longrightarrow>
    gk_step p (p\<lparr>gks := gks p @ [g]\<rparr>)"
| gk_remove: "lock p = None \<Longrightarrow> g \<in> set (gks p) \<Longrightarrow> 1 < length (gks p) \<Longrightarrow>
    gk_step p (p\<lparr>gks := filter (\<lambda>h. h \<noteq> g) (gks p)\<rparr>)"
| gk_rotate: "lock p = None \<Longrightarrow>
    gk_step p (p\<lparr>counter := counter p + 1, lock := Some (counter p + 1)\<rparr>)"
| gk_launch: "master_key p = None \<Longrightarrow> gks p \<noteq> [] \<Longrightarrow> gk_step p (p\<lparr>master_key := Some k\<rparr>)"
| gk_rotated: "master_key p \<noteq> None \<Longrightarrow> lock p = Some rid \<Longrightarrow>
    gk_step p (p\<lparr>master_key := Some k, lock := None, rotated := rotated p @ [(rid, k)]\<rparr>)"

fun rotated_of :: "Registry_Event \<Rightarrow> (u64 \<times> h256) list" where
  "rotated_of (MasterKeyRotated rid k) = [(rid, k)]"
| "rotated_of _ = []"

definition gk_abs :: "registry_state \<Rightarrow> gk_protocol" where
  "gk_abs s = \<lparr>gks = rg_Gatekeeper s, master_key = rg_GatekeeperMasterPubkey s,
     counter = rg_RotationCounter s, lock = rg_MasterKeyRotationLock s,
     rotated = concat (map rotated_of (rg_events s))\<rparr>"

lemmas registry_helpers =
  Registry_push_message_def Registry_queue_message_def Registry_deposit_event_def push_worker_event_def
  on_gatekeeper_launched_def trigger_benchmark_def

lemma gk_abs_helpers [simp]:
  "gk_abs (Registry_push_message m s) = gk_abs s"
  "gk_abs (Registry_queue_message m s) = gk_abs s"
  "gk_abs (push_worker_event w we s) = gk_abs s"
  "gk_abs (trigger_benchmark w s) = gk_abs s"
  "gk_abs (on_gatekeeper_launched s) = gk_abs s"
  "rotated_of e = [] \<Longrightarrow> gk_abs (Registry_deposit_event e s) = gk_abs s"
  by (simp_all add: gk_abs_def registry_helpers)

lemma gk_abs_updates [simp]:
  "gk_abs (s\<lparr>rg_Workers := a\<rparr>) = gk_abs s"
  "gk_abs (s\<lparr>rg_WorkerAddedAt := b\<rparr>) = gk_abs s"
  "gk_abs (s\<lparr>rg_TopicKey := c\<rparr>) = gk_abs s"
  "gk_abs (s\<lparr>rg_BenchmarkDuration := d\<rparr>) = gk_abs s"
  "gk_abs (s\<lparr>rg_Endpoints := e\<rparr>) = gk_abs s"
  "gk_abs (s\<lparr>rg_PRuntimeAllowList := f, rg_PRuntimeAddedAt := g\<rparr>) = gk_abs s"
  "gk_abs (s\<lparr>rg_RelaychainGenesisBlockHashAllowList := h\<rparr>) = gk_abs s"
  "gk_abs (s\<lparr>rg_MinimumPRuntimeVersion := i\<rparr>) = gk_abs s"
  "gk_abs (s\<lparr>rg_PRuntimeConsensusVersion := j\<rparr>) = gk_abs s"
  "gk_abs (s\<lparr>rg_MaxKnownPRuntimeConsensusVersion := k\<rparr>) = gk_abs s"
  "gk_abs (s\<lparr>rg_TrustedNtpServers := l\<rparr>) = gk_abs s"
  "gk_abs (s\<lparr>rg_block := n, rg_now_ms := t, rg_out := ms\<rparr>) = gk_abs s"
  by (simp_all add: gk_abs_def)

lemma gk_abs_upsert [simp]: "gk_abs (upsert_worker p e v op f pr c now s) = gk_abs s"
  by (simp add: upsert_worker_def Let_def split: option.split)

lemma gk_abs_protocol_updates:
  "gk_abs (s\<lparr>rg_Gatekeeper := a\<rparr>) = (gk_abs s)\<lparr>gks := a\<rparr>"
  "gk_abs (s\<lparr>rg_GatekeeperMasterPubkey := b\<rparr>) = (gk_abs s)\<lparr>master_key := b\<rparr>"
  "gk_abs (s\<lparr>rg_RotationCounter := c\<rparr>) = (gk_abs s)\<lparr>counter := c\<rparr>"
  "gk_abs (s\<lparr>rg_MasterKeyRotationLock := d\<rparr>) = (gk_abs s)\<lparr>lock := d\<rparr>"
  "gk_abs (Registry_deposit_event (MasterKeyRotated rid k) s) =
     (gk_abs s)\<lparr>rotated := rotated (gk_abs s) @ [(rid, k)]\<rparr>"
  by (simp_all add: gk_abs_def Registry_deposit_event_def)

lemma gk_abs_sel [simp]:
  "gks (gk_abs s) = rg_Gatekeeper s" "master_key (gk_abs s) = rg_GatekeeperMasterPubkey s"
  "counter (gk_abs s) = rg_RotationCounter s" "lock (gk_abs s) = rg_MasterKeyRotationLock s"
  by (simp_all add: gk_abs_def)

lemma register_gatekeeper_refines:
  assumes r: "register_gatekeeper cfg o1 g s = Inr s'"
  shows "gk_step (gk_abs s) (gk_abs s')"
proof (cases "g \<in> set (rg_Gatekeeper s)")
  case True
  then have "gk_abs s' = gk_abs s" using r by (auto simp: register_gatekeeper_def Let_def)
  then show ?thesis by (simp add: gk_stutter)
next
  case False
  then have "gk_abs s' = (gk_abs s)\<lparr>gks := rg_Gatekeeper s @ [g]\<rparr>" and "rg_MasterKeyRotationLock s = None"
    and "rg_Gatekeeper s = [] \<or> rg_GatekeeperMasterPubkey s \<noteq> None"
    using r by (auto simp: register_gatekeeper_def Let_def gk_abs_protocol_updates split: if_splits)
  with False gk_add [of "gk_abs s" g] show ?thesis by simp
qed

lemma unregister_gatekeeper_refines:
  assumes "unregister_gatekeeper cfg o1 g s = Inr s'"
  shows "gk_step (gk_abs s) (gk_abs s')"
proof -
  have "gk_abs s' = (gk_abs s)\<lparr>gks := filter (\<lambda>h. h \<noteq> g) (rg_Gatekeeper s)\<rparr>"
    "rg_MasterKeyRotationLock s = None" "g \<in> set (rg_Gatekeeper s)" "1 < length (rg_Gatekeeper s)"
    using assms by (auto simp: unregister_gatekeeper_def Let_def gk_abs_protocol_updates)
  with gk_remove [of "gk_abs s" g] show ?thesis by simp
qed

lemma rotate_master_key_Inr:
  assumes "rotate_master_key cfg o1 s = Inr s'"
  shows "gk_abs s' = (gk_abs s)\<lparr>counter := rg_RotationCounter s + 1, lock := Some (rg_RotationCounter s + 1)\<rparr>"
    "rg_MasterKeyRotationLock s = None"
  using assms by (auto simp: rotate_master_key_def Let_def gk_abs_protocol_updates)

lemma rotate_master_key_refines:
  assumes "rotate_master_key cfg o1 s = Inr s'"
  shows "gk_step (gk_abs s) (gk_abs s')"
  using rotate_master_key_Inr [OF assms] gk_rotate [of "gk_abs s"] by simp

lemmas registry_call_defs =
  force_set_benchmark_duration_def force_register_worker_def force_register_topic_pubkey_def
  register_worker_def register_worker_v2_def update_worker_endpoint_def add_pruntime_def
  remove_pruntime_def add_relaychain_genesis_block_hash_def remove_relaychain_genesis_block_hash_def
  set_minimum_pruntime_version_def set_pruntime_consensus_version_def set_trusted_ntp_servers_def

lemma register_worker_Inr:
  assumes "register_worker cfg o1 i a s = Inr s'"
  shows "\<exists>f. LegacyAttestationValidator cfg a (hash_info cfg i) (now_secs s) (VerifyPRuntime cfg)
       (rg_PRuntimeAllowList s) = Inr f \<and> (\<exists>who. o1 = Signed who) \<and>
     s' = trigger_benchmark (wr_pubkey i) (upsert_worker (wr_pubkey i) (wr_ecdh_pubkey i) (wr_version i)
       (wr_operator i) (wr_features i) (Some Ias) (if_confidence_level f) (now_secs s) s)"
  using assms by (auto simp: register_worker_def registry_ensure_signed_def Let_def split: sum.splits RawOrigin.splits)

lemma register_worker_v2_Inr:
  assumes "register_worker_v2 cfg o1 i a s = Inr s'"
  shows "\<exists>r. attestation_validate (cfg_sd cfg) (cfg_sgx cfg) (cfg_ias cfg) a (hash_info_v2 cfg i)
       (now_secs s) (VerifyPRuntime cfg) (rg_PRuntimeAllowList s) (NoneAttestationEnabled cfg) = Inr r \<and>
     (\<exists>who. o1 = Signed who) \<and> w2_para_id i = ParachainId cfg \<and>
     s' = trigger_benchmark (w2_pubkey i) (upsert_worker (w2_pubkey i) (w2_ecdh_pubkey i) (w2_version i)
       (w2_operator i) (w2_features i) (cr_provider r) (cr_confidence_level r) (now_secs s)
       (s\<lparr>rg_MaxKnownPRuntimeConsensusVersion := update_known_consensus_version
           (w2_max_consensus_version i) (rg_MaxKnownPRuntimeConsensusVersion s)\<rparr>))"
  using assms by (auto simp: register_worker_v2_def registry_ensure_signed_def Let_def
    split: sum.splits exn.splits RawOrigin.splits)

text \<open>Only three calls touch the protocol.\<close>

lemma dispatch_call_other:
  assumes r: "Registry_dispatch_call cfg o1 c s = Inr s'"
    and c: "\<forall>g. c \<noteq> Call_register_gatekeeper g \<and> c \<noteq> Call_unregister_gatekeeper g" "c \<noteq> Call_rotate_master_key"
  shows "gk_abs s' = gk_abs s"
proof (cases c)
  case (Call_register_worker i a)
  with register_worker_Inr [of cfg o1 i a s s'] r show ?thesis by auto
next
  case (Call_register_worker_v2 i a)
  with register_worker_v2_Inr [of cfg o1 i a s s'] r show ?thesis by auto
qed (use r c in \<open>clarsimp simp: registry_call_defs Let_def\<close>)+

lemma Registry_dispatch_call_refines:
  assumes r: "Registry_dispatch_call cfg o1 c s = Inr s'"
  shows "gk_step (gk_abs s) (gk_abs s')"
proof (cases "(\<forall>g. c \<noteq> Call_register_gatekeeper g \<and> c \<noteq> Call_unregister_gatekeeper g) \<and> c \<noteq> Call_rotate_master_key")
  case True
  then show ?thesis using dispatch_call_other [OF r] gk_stutter by simp
next
  case False
  then consider g where "c = Call_register_gatekeeper g" | g where "c = Call_unregister_gatekeeper g"
    | "c = Call_rotate_master_key" by blast
  then show ?thesis
    using r register_gatekeeper_refines unregister_gatekeeper_refines rotate_master_key_refines
    by cases simp_all
qed

lemma on_message_received_refines:
  "gk_step (gk_abs s) (gk_abs (snd (Registry_on_message_received m s)))"
proof (cases "\<exists>w k. dm_sender m = Worker w \<and> dm_payload m = MasterPubkey k \<and> w \<in> set (rg_Gatekeeper s) \<and>
    rg_GatekeeperMasterPubkey s = None")
  case True
  then obtain w k where m: "dm_sender m = Worker w" "dm_payload m = MasterPubkey k"
    "w \<in> set (rg_Gatekeeper s)" "rg_GatekeeperMasterPubkey s = None" by auto
  then have "rg_Gatekeeper s \<noteq> []" by auto
  with m show ?thesis using gk_launch [of "gk_abs s" k]
    by (simp add: Registry_on_message_received_def Let_def gk_abs_protocol_updates)
next
  case False
  then have "gk_abs (snd (Registry_on_message_received m s)) = gk_abs s"
    by (auto simp: Registry_on_message_received_def Let_def
      split: option.split MessageOrigin.split RegistryEvent.split)
  then show ?thesis by (simp add: gk_stutter)
qed

lemma on_gk_message_received_refines:
  assumes "rg_GatekeeperMasterPubkey s \<noteq> None"
  shows "gk_step (gk_abs s) (gk_abs (snd (Registry_on_gk_message_received m s)))"
proof (cases "dm_payload m")
  case (RotatedMasterPubkey rid k)
  show ?thesis
  proof (cases "MessageOrigin_is_gatekeeper (dm_sender m) \<and> rg_MasterKeyRotationLock s = Some rid")
    case True
    with RotatedMasterPubkey assms gk_rotated [of "gk_abs s" rid k] show ?thesis
      by (simp add: Registry_on_gk_message_received_def Let_def gk_abs_protocol_updates)
  next
    case False
    with RotatedMasterPubkey have "gk_abs (snd (Registry_on_gk_message_received m s)) = gk_abs s"
      by (auto simp: Registry_on_gk_message_received_def Let_def)
    then show ?thesis by (simp add: gk_stutter)
  qed
qed

lemma registry_step_refines: "gk_step (gk_abs s) (gk_abs (registry_step cfg s i))"
proof (cases i)
  case (In_call o1 c)
  then show ?thesis
    using Registry_dispatch_call_refines [of cfg o1 c s] gk_stutter by (auto split: sum.split)
next
  case (In_worker w e)
  then show ?thesis
    using on_message_received_refines gk_stutter by (auto simp: keep_unless_panic_def)
next
  case (In_gatekeeper e)
  then show ?thesis
    using on_gk_message_received_refines gk_stutter by (auto simp: keep_unless_panic_def)
qed (auto intro: gk_stutter)

lemma registry_run_simps [simp]:
  "registry_run cfg s [] = s"
  "registry_run cfg s (i # ins) = registry_run cfg (registry_step cfg s i) ins"
  by (simp_all add: registry_run_def)

lemma registry_run_append: "registry_run cfg s (xs @ ys) = registry_run cfg (registry_run cfg s xs) ys"
  by (simp add: registry_run_def)

lemma registry_run_refines: "gk_step\<^sup>*\<^sup>* (gk_abs s) (gk_abs (registry_run cfg s ins))"
proof (induction ins arbitrary: s)
  case (Cons i ins)
  then show ?case using registry_step_refines [of s cfg i] by (auto intro: converse_rtranclp_into_rtranclp)
qed simp

text \<open>
  C16: Whatever happens to the registry (extrinsics with any origin, messages of workers and of
  gatekeepers, new blocks, in any order) is a run of the protocol: the set of gatekeepers changes
  only while no rotation is pending, the last gatekeeper is never removed, the master key is set once
  by a gatekeeper and afterwards changes only by the answer to the pending rotation.
\<close>

theorem registry_refines_protocol:
  "gk_step\<^sup>*\<^sup>* (gk_abs s) (gk_abs (registry_run cfg s ins))"
  by (rule registry_run_refines)

section \<open>Invariants of the protocol\<close>

text \<open>
  The gatekeepers are distinct, a master key implies that there is a gatekeeper, and a pending
  rotation is the latest one.
\<close>

definition gk_inv :: "gk_protocol \<Rightarrow> bool" where
  "gk_inv p \<longleftrightarrow> distinct (gks p) \<and> (master_key p \<noteq> None \<longrightarrow> gks p \<noteq> []) \<and>
     (\<forall>rid. lock p = Some rid \<longrightarrow> rid = counter p)"

lemma filter_neq_Nil: "1 < length xs \<Longrightarrow> distinct xs \<Longrightarrow> filter (\<lambda>h. h \<noteq> g) xs \<noteq> []"
  by (cases xs; cases "tl xs") auto

lemma gk_step_inv: "gk_step p q \<Longrightarrow> gk_inv p \<Longrightarrow> gk_inv q"
  by (induction rule: gk_step.induct) (auto simp: gk_inv_def filter_neq_Nil)

lemma gk_steps_inv: "gk_step\<^sup>*\<^sup>* p q \<Longrightarrow> gk_inv p \<Longrightarrow> gk_inv q"
  by (induction rule: rtranclp_induct) (auto intro: gk_step_inv)

text \<open>Gatekeepers stay gatekeepers in number: once there is one, there is always one.\<close>

lemma gk_step_nonempty: "gk_step p q \<Longrightarrow> gk_inv p \<Longrightarrow> gks p \<noteq> [] \<Longrightarrow> gks q \<noteq> []"
  by (induction rule: gk_step.induct) (auto simp: gk_inv_def filter_neq_Nil)

lemma gk_step_frozen: "gk_step p q \<Longrightarrow> lock p \<noteq> None \<Longrightarrow> lock q = lock p \<Longrightarrow> gks q = gks p"
  by (induction rule: gk_step.induct) auto

text \<open>Worker entries are never removed.\<close>

lemma helpers_frame [simp]:
  "rg_Workers (Registry_push_message m s) = rg_Workers s"
  "rg_Workers (Registry_deposit_event ev s) = rg_Workers s"
  "rg_Workers (push_worker_event w we s) = rg_Workers s"
  "rg_Workers (trigger_benchmark p s) = rg_Workers s"
  "rg_Workers (on_gatekeeper_launched s) = rg_Workers s"
  "rg_Gatekeeper (Registry_push_message m s) = rg_Gatekeeper s"
  "rg_Gatekeeper (Registry_deposit_event ev s) = rg_Gatekeeper s"
  "rg_Gatekeeper (push_worker_event w we s) = rg_Gatekeeper s"
  "rg_Gatekeeper (on_gatekeeper_launched s) = rg_Gatekeeper s"
  by (simp_all add: registry_helpers)

lemma upsert_worker_dom: "rg_Workers (upsert_worker p e v op f pr c now s) w = None \<longleftrightarrow>
    w \<noteq> p \<and> rg_Workers s w = None"
  by (auto simp: upsert_worker_def Let_def split: option.split)

lemma upsert_worker_Some:
  assumes "rg_Workers s w = Some v"
  shows "\<exists>v. rg_Workers (upsert_worker p e vs op f pr c now s) w = Some v"
  using upsert_worker_dom [of p e vs op f pr c now s w] assms
  by (cases "rg_Workers (upsert_worker p e vs op f pr c now s) w") auto

lemma register_worker_keeps:
  assumes "register_worker cfg o1 i a s = Inr s'" "rg_Workers s w = Some v"
  shows "\<exists>v. rg_Workers s' w = Some v"
  using register_worker_Inr [OF assms(1)] upsert_worker_Some [OF assms(2)] by auto

lemma register_worker_v2_keeps:
  assumes "register_worker_v2 cfg o1 i a s = Inr s'" "rg_Workers s w = Some v"
  shows "\<exists>v. rg_Workers s' w = Some v"
proof -
  have "rg_Workers (s\<lparr>rg_MaxKnownPRuntimeConsensusVersion := k\<rparr>) w = Some v" for k using assms(2) by simp
  from upsert_worker_Some [OF this] register_worker_v2_Inr [OF assms(1)] show ?thesis by auto
qed

lemma gatekeeper_calls_keep_workers:
  "register_gatekeeper cfg o1 g s = Inr s' \<Longrightarrow> rg_Workers s' = rg_Workers s"
  "unregister_gatekeeper cfg o1 g s = Inr s' \<Longrightarrow> rg_Workers s' = rg_Workers s"
  "rotate_master_key cfg o1 s = Inr s' \<Longrightarrow> rg_Workers s' = rg_Workers s"
  by (auto simp: register_gatekeeper_def unregister_gatekeeper_def rotate_master_key_def Let_def split: if_splits)

lemma dispatch_call_keeps_workers:
  assumes r: "Registry_dispatch_call cfg o1 c s = Inr s'" and w: "rg_Workers s w = Some v"
  shows "\<exists>v. rg_Workers s' w = Some v"
proof (cases c)
  case (Call_register_worker i a)
  with register_worker_keeps r w show ?thesis by simp
next
  case (Call_register_worker_v2 i a)
  with register_worker_v2_keeps r w show ?thesis by simp
next
  case (Call_register_gatekeeper g)
  with gatekeeper_calls_keep_workers(1) [of cfg o1 g s s'] r w show ?thesis by simp
next
  case (Call_unregister_gatekeeper g)
  with gatekeeper_calls_keep_workers(2) [of cfg o1 g s s'] r w show ?thesis by simp
next
  case Call_rotate_master_key
  with gatekeeper_calls_keep_workers(3) [of cfg o1 s s'] r w show ?thesis by simp
qed (use r w in \<open>clarsimp simp: registry_call_defs Let_def\<close>)+

lemma registry_step_keeps_workers:
  assumes "rg_Workers s w \<noteq> None"
  shows "rg_Workers (registry_step cfg s i) w \<noteq> None"
proof (cases i)
  case (In_call o1 c)
  then show ?thesis using assms dispatch_call_keeps_workers [of cfg o1 c s _ w]
    by (cases "Registry_dispatch_call cfg o1 c s") auto
next
  case (In_worker p e)
  then show ?thesis using assms
    by (auto simp: keep_unless_panic_def Registry_on_message_received_def Let_def
      split: RegistryEvent.split option.split)
next
  case (In_gatekeeper e)
  then show ?thesis using assms
    by (auto simp: keep_unless_panic_def Registry_on_gk_message_received_def Let_def
      split: GatekeeperRegistryEvent.split)
next
  case (In_block now)
  then show ?thesis using assms by simp
qed

text \<open>The invariant of the registry.\<close>

definition registry_inv :: "registry_state \<Rightarrow> bool" where
  "registry_inv s \<longleftrightarrow> gk_inv (gk_abs s) \<and> (\<forall>g \<in> set (rg_Gatekeeper s). rg_Workers s g \<noteq> None)"

lemma dispatch_call_new_gatekeeper:
  assumes r: "Registry_dispatch_call cfg o1 c s = Inr s'"
    and g: "g \<in> set (rg_Gatekeeper s')" and n: "g \<notin> set (rg_Gatekeeper s)"
  shows "rg_Workers s g \<noteq> None"
proof (cases "(\<forall>g. c \<noteq> Call_register_gatekeeper g \<and> c \<noteq> Call_unregister_gatekeeper g) \<and> c \<noteq> Call_rotate_master_key")
  case True
  then have "gks (gk_abs s') = gks (gk_abs s)" using dispatch_call_other [OF r] by simp
  with g n show ?thesis by simp
next
  case False
  then consider h where "c = Call_register_gatekeeper h" | h where "c = Call_unregister_gatekeeper h"
    | "c = Call_rotate_master_key" by blast
  then show ?thesis
  proof cases
    case 1
    then show ?thesis using r g n
      by (auto simp: register_gatekeeper_def Let_def split: if_splits)
  next
    case 2
    then show ?thesis using r g n by (auto simp: unregister_gatekeeper_def Let_def)
  next
    case 3
    then show ?thesis using r g n by (auto simp: rotate_master_key_def Let_def)
  qed
qed

lemma handlers_keep_gatekeepers:
  "rg_Gatekeeper (snd (Registry_on_message_received m s)) = rg_Gatekeeper s"
  "rg_Gatekeeper (snd (Registry_on_gk_message_received m' s)) = rg_Gatekeeper s"
  by (auto simp: Registry_on_message_received_def Registry_on_gk_message_received_def Let_def
    split: MessageOrigin.split RegistryEvent.split GatekeeperRegistryEvent.split option.split)

lemma registry_step_new_gatekeeper:
  assumes g: "g \<in> set (rg_Gatekeeper (registry_step cfg s i))" and n: "g \<notin> set (rg_Gatekeeper s)"
  shows "rg_Workers s g \<noteq> None"
proof (cases i)
  case (In_call o1 c)
  then obtain s' where "Registry_dispatch_call cfg o1 c s = Inr s'" "g \<in> set (rg_Gatekeeper s')"
    using g n by (cases "Registry_dispatch_call cfg o1 c s") auto
  then show ?thesis using dispatch_call_new_gatekeeper n by blast
qed (use g n in \<open>auto simp: keep_unless_panic_def handlers_keep_gatekeepers split: if_splits\<close>)

lemma registry_step_inv:
  assumes "registry_inv s"
  shows "registry_inv (registry_step cfg s i)"
  unfolding registry_inv_def
proof (intro conjI ballI)
  show "gk_inv (gk_abs (registry_step cfg s i))"
    using assms gk_step_inv [OF registry_step_refines [of s cfg i]] by (simp add: registry_inv_def)
next
  fix g assume "g \<in> set (rg_Gatekeeper (registry_step cfg s i))"
  then have "rg_Workers s g \<noteq> None"
    using registry_step_new_gatekeeper assms unfolding registry_inv_def by blast
  then show "rg_Workers (registry_step cfg s i) g \<noteq> None" by (rule registry_step_keeps_workers)
qed

lemma registry_run_inv: "registry_inv s \<Longrightarrow> registry_inv (registry_run cfg s ins)"
  by (induction ins arbitrary: s) (simp_all add: registry_step_inv)

section \<open>From genesis\<close>

lemma genesis_workers_keep:
  assumes "foldM_res (genesis_add_worker key d) s ws = Inr s'"
  shows "gk_abs s' = gk_abs s"
proof -
  have step: "gk_abs t' = gk_abs s" if "gk_abs t = gk_abs s" "genesis_add_worker key d t x = Inr t'" for t x t'
    using that by (cases x) (auto simp: genesis_add_worker_def Let_def split: if_splits)
  show ?thesis using foldM_res_invariant [OF assms, of "\<lambda>t. gk_abs t = gk_abs s"] step by blast
qed

lemma genesis_gatekeepers:
  assumes "rg_Gatekeeper s = acc"
  shows "gk_abs (snd (fold genesis_add_gatekeeper gs (acc, s))) =
      (gk_abs s)\<lparr>gks := acc @ filter (\<lambda>g. rg_Workers s g \<noteq> None) gs\<rparr> \<and>
    rg_Workers (snd (fold genesis_add_gatekeeper gs (acc, s))) = rg_Workers s"
  using assms
proof (induction gs arbitrary: acc s)
  case Nil
  then show ?case by (simp add: gk_abs_def)
next
  case (Cons g gs)
  show ?case
  proof (cases "rg_Workers s g")
    case None
    then have "genesis_add_gatekeeper g (acc, s) = (acc, s)" by (simp add: genesis_add_gatekeeper_def)
    then show ?thesis using Cons.IH [of s acc] Cons.prems None by simp
  next
    case (Some v)
    obtain t where t: "genesis_add_gatekeeper g (acc, s) = (acc @ [g], t)"
      and "gk_abs t = (gk_abs s)\<lparr>gks := acc @ [g]\<rparr>" "rg_Workers t = rg_Workers s"
      using Some by (auto simp: genesis_add_gatekeeper_def Let_def gk_abs_def Registry_queue_message_def
        split: if_splits)
    moreover from this have "rg_Gatekeeper t = acc @ [g]" by (simp add: gk_abs_def)
    ultimately show ?thesis using Cons.IH [of t "acc @ [g]"] Some by (simp add: gk_abs_def)
  qed
qed

lemma genesis_build_inv:
  assumes b: "GenesisConfig_build key g registry_empty = Inr s" and d: "distinct (gen_gatekeepers g)"
  shows "registry_inv s \<and> rg_GatekeeperMasterPubkey s = None \<and> rg_RotationCounter s = 0 \<and>
    rg_MasterKeyRotationLock s = None \<and> rotated (gk_abs s) = []"
proof -
  from b obtain t where t: "foldM_res (genesis_add_worker key (gen_benchmark_duration g)) registry_empty
      (gen_workers g) = Inr t"
    and s: "s = snd (fold genesis_add_gatekeeper (gen_gatekeepers g) ([], t))"
    by (auto simp: GenesisConfig_build_def)
  from genesis_workers_keep [OF t] have a: "gk_abs t = gk_abs registry_empty" .
  then have "rg_Gatekeeper t = []" by (simp add: gk_abs_def registry_empty_def)
  from genesis_gatekeepers [OF this, of "gen_gatekeepers g"] s a have
    "gk_abs s = (gk_abs registry_empty)\<lparr>gks := filter (\<lambda>g. rg_Workers t g \<noteq> None) (gen_gatekeepers g)\<rparr>"
    and w: "rg_Workers s = rg_Workers t" by simp_all
  then have f: "gk_abs s = \<lparr>gks = filter (\<lambda>g. rg_Workers t g \<noteq> None) (gen_gatekeepers g), master_key = None,
      counter = 0, lock = None, rotated = []\<rparr>" by (simp add: gk_abs_def registry_empty_def)
  then have "rg_Gatekeeper s = filter (\<lambda>g. rg_Workers t g \<noteq> None) (gen_gatekeepers g)"
    "rg_GatekeeperMasterPubkey s = None" "rg_RotationCounter s = 0" "rg_MasterKeyRotationLock s = None"
    by (simp_all add: gk_abs_def)
  then show ?thesis using d f w by (simp add: registry_inv_def gk_inv_def)
qed

section \<open>Properties of the registry\<close>

lemma registry_run_nonempty:
  "registry_inv s \<Longrightarrow> rg_Gatekeeper s \<noteq> [] \<Longrightarrow> rg_Gatekeeper (registry_run cfg s ins) \<noteq> []"
proof (induction ins arbitrary: s)
  case (Cons i ins)
  have "rg_Gatekeeper (registry_step cfg s i) \<noteq> []"
    using gk_step_nonempty [OF registry_step_refines [of s cfg i]] Cons.prems by (simp add: registry_inv_def)
  then show ?case using Cons.IH [OF registry_step_inv [OF Cons.prems(1)]] by simp
qed simp

text \<open>
  C17: From every genesis (with distinct gatekeepers) and after any run, the gatekeepers are distinct
  registered workers, they never become none again once there is one, there is one whenever there is
  a master key, and a pending rotation is the latest one; so a request to rotate the key never fails
  because a gatekeeper is unknown.
\<close>

theorem registry_gatekeepers_ok:
  assumes "GenesisConfig_build key g registry_empty = Inr s0" and "distinct (gen_gatekeepers g)"
    and "s = registry_run cfg s0 before" and "s' = registry_run cfg s later"
  shows "distinct (rg_Gatekeeper s') \<and> (\<forall>gk. gk \<in> set (rg_Gatekeeper s') \<longrightarrow> rg_Workers s' gk \<noteq> None) \<and>
    (rg_Gatekeeper s \<noteq> [] \<longrightarrow> rg_Gatekeeper s' \<noteq> []) \<and>
    (rg_GatekeeperMasterPubkey s' \<noteq> None \<longrightarrow> rg_Gatekeeper s' \<noteq> []) \<and>
    (\<forall>rid. rg_MasterKeyRotationLock s' = Some rid \<longrightarrow> rid = rg_RotationCounter s') \<and>
    rotate_master_key cfg o1 s' \<noteq> Inl (Fails RE_WorkerNotFound)"
proof -
  have i0: "registry_inv s0" using genesis_build_inv [OF assms(1,2)] by simp
  then have i: "registry_inv s" "registry_inv s'" unfolding assms(3,4) by (simp_all add: registry_run_inv)
  have m: "\<exists>ys. mapM_res (\<lambda>gk. bind_res (ok_or (rg_Workers s' gk) (Fails RE_WorkerNotFound)) (\<lambda>worker_info.
         Inr \<lparr>id_pubkey = wi_pubkey worker_info, id_ecdh_pubkey = wi_ecdh_pubkey worker_info\<rparr>)) gs = Inr ys"
    if "\<forall>gk \<in> set gs. rg_Workers s' gk \<noteq> None" for gs
    using that by (induction gs) auto
  have "rotate_master_key cfg o1 s' \<noteq> Inl (Fails RE_WorkerNotFound)"
    using m [of "rg_Gatekeeper s'"] i(2)
    by (auto simp: rotate_master_key_def registry_inv_def ensure_gov_def bind_res_eq_Inl Let_def)
  moreover have "rg_Gatekeeper s \<noteq> [] \<longrightarrow> rg_Gatekeeper s' \<noteq> []"
    using registry_run_nonempty [OF i(1)] unfolding assms(4) by blast
  ultimately show ?thesis using i(2) by (simp add: registry_inv_def gk_inv_def)
qed

text \<open>A genesis with two workers, the first of which is a gatekeeper.\<close>

definition ex_genesis :: registry_genesis where
  "ex_genesis = \<lparr>gen_workers = [(1, replicate 32 0, None), (2, replicate 32 0, Some 9)],
     gen_gatekeepers = [1], gen_benchmark_duration = 8\<rparr>"

definition ex_registry :: registry_state where
  "ex_registry = (case GenesisConfig_build (\<lambda>_. 0) ex_genesis registry_empty of Inr s \<Rightarrow> s | Inl _ \<Rightarrow> registry_empty)"

lemma ex_registry_build: "GenesisConfig_build (\<lambda>_. 0) ex_genesis registry_empty = Inr ex_registry"
  by (simp add: ex_registry_def GenesisConfig_build_def ex_genesis_def genesis_add_worker_def Let_def
    split: sum.split)

definition ex_ias :: ias_ops where
  "ex_ias = \<lparr>json_ra_report = (\<lambda>_. None), ias_rfc3339_timestamp = (\<lambda>_. None), base64_decode = (\<lambda>_. None),
     ias_cert_ok = (\<lambda>_. False), ias_cert_verify_signature = (\<lambda>_ _ _. False),
     ias_cert_verify_for_usage = (\<lambda>_ _. False)\<rparr>"

definition ex_registry_config :: "nat registry_config" where
  "ex_registry_config = \<lparr>GovernanceOrigin = (\<lambda>o1. o1 = Root), NoneAttestationEnabled = False,
     VerifyPRuntime = True, VerifyRelaychainGenesisBlockHash = False, ParachainId = 0,
     LegacyAttestationValidator = IasValidator_validate ex_sd ex_ias, cfg_sd = ex_sd, cfg_sgx = ex_ops,
     cfg_ias = ex_ias,
     hash_info = (\<lambda>_. []), hash_info_v2 = (\<lambda>_. replicate 32 0), encode_endpoint = (\<lambda>_. []),
     cfg_sr25519_verify = (\<lambda>_ _ _. True)\<rparr>"

theorem registry_gatekeepers_ok_witness:
  "distinct (rg_Gatekeeper (registry_run ex_registry_config ex_registry
     [In_worker 1 (MasterPubkey 7), In_call Root (Call_register_gatekeeper 2)]))"
  using registry_gatekeepers_ok [OF ex_registry_build _ refl refl, of ex_registry_config "[]"
    "[In_worker 1 (MasterPubkey 7), In_call Root (Call_register_gatekeeper 2)]" Root]
  by (simp add: ex_genesis_def)

text \<open>The history of rotations: increasing ids, all of them issued, the pending one not yet answered.\<close>

definition rotations_ok :: "gk_protocol \<Rightarrow> bool" where
  "rotations_ok p \<longleftrightarrow> sorted_wrt (<) (map fst (rotated p)) \<and>
     (\<forall>rid k. (rid, k) \<in> set (rotated p) \<longrightarrow> rid \<le> counter p \<and> lock p \<noteq> Some rid) \<and>
     (\<forall>rid. lock p = Some rid \<longrightarrow> rid = counter p) \<and>
     (rotated p \<noteq> [] \<longrightarrow> master_key p = Some (snd (last (rotated p))))"

lemma rotations_ok_step:
  assumes "gk_step p q" "rotations_ok p" "counter p \<noteq> - 1"
  shows "rotations_ok q"
  using assms
proof (induction rule: gk_step.induct)
  case (gk_rotate p)
  then have c: "counter p < counter p + 1" by (simp add: word_less_Suc)
  have "rid \<le> counter p + 1 \<and> counter p + 1 \<noteq> rid" if "(rid, k) \<in> set (rotated p)" for rid k
  proof -
    have "rid \<le> counter p" using that gk_rotate by (auto simp: rotations_ok_def)
    then show ?thesis using c by auto
  qed
  then show ?case using gk_rotate by (auto simp: rotations_ok_def)
next
  case (gk_rotated p rid k)
  have "x < rid" if x: "x \<in> fst ` set (rotated p)" for x
  proof -
    obtain k' where "(x, k') \<in> set (rotated p)" using x by force
    then have "x \<le> counter p \<and> lock p \<noteq> Some x" using gk_rotated.prems unfolding rotations_ok_def by blast
    moreover have "rid = counter p" using gk_rotated by (simp add: rotations_ok_def)
    ultimately show ?thesis using gk_rotated.hyps by (auto simp: order_le_less)
  qed
  then show ?case using gk_rotated by (auto simp: rotations_ok_def sorted_wrt_append)
next
  case (gk_launch p k)
  then show ?case by (auto simp: rotations_ok_def)
qed (auto simp: rotations_ok_def)

lemma counter_step: "gk_step p q \<Longrightarrow> counter p \<noteq> - 1 \<Longrightarrow> unat (counter q) \<le> Suc (unat (counter p))"
  by (induction rule: gk_step.induct) (auto simp: unat_Suc_word)

lemma rotations_ok_run:
  assumes "rotations_ok (gk_abs s)" "unat (rg_RotationCounter s) + length ins < 2 ^ 64"
  shows "rotations_ok (gk_abs (registry_run cfg s ins))"
  using assms
proof (induction ins arbitrary: s)
  case (Cons i ins)
  have n: "counter (gk_abs s) \<noteq> - 1"
  proof
    assume "counter (gk_abs s) = - 1"
    then have "unat (rg_RotationCounter s) = 2 ^ 64 - 1" by (simp add: unsigned_minus_1_eq_mask mask_eq_exp_minus_1)
    then show False using Cons.prems(2) by simp
  qed
  let ?s = "registry_step cfg s i"
  have "rotations_ok (gk_abs ?s)"
    using rotations_ok_step [OF registry_step_refines [of s cfg i] Cons.prems(1) n] .
  moreover have "unat (rg_RotationCounter ?s) \<le> Suc (unat (rg_RotationCounter s))"
    using counter_step [OF registry_step_refines [of s cfg i] n] by simp
  ultimately show ?case using Cons.IH [of ?s] Cons.prems(2) by simp
qed simp

text \<open>
  Master keys never go back: after any run from genesis the completed rotations, as logged by the
  pallet, have strictly increasing ids (no rotation is answered twice, no late answer to an older
  rotation is accepted), and the master key on chain is the one of the latest of them.
\<close>

theorem rotations_increase:
  assumes "GenesisConfig_build key g registry_empty = Inr s0" and "distinct (gen_gatekeepers g)"
    and "length ins < 2 ^ 64" and "s = registry_run cfg s0 ins"
  shows "sorted_wrt (<) (map fst (concat (map rotated_of (rg_events s)))) \<and>
    (concat (map rotated_of (rg_events s)) \<noteq> [] \<longrightarrow>
       rg_GatekeeperMasterPubkey s = Some (snd (last (concat (map rotated_of (rg_events s))))))"
proof -
  note b = genesis_build_inv [OF assms(1,2)]
  have "rotations_ok (gk_abs s0)" using b by (simp add: rotations_ok_def)
  then have "rotations_ok (gk_abs s)"
    unfolding assms(4) using b assms(3) by (intro rotations_ok_run) simp_all
  then show ?thesis by (simp add: rotations_ok_def gk_abs_def)
qed

definition ex_inputs :: "registry_input list" where
  "ex_inputs = [In_worker 1 (MasterPubkey 7), In_call Root Call_rotate_master_key,
     In_gatekeeper (RotatedMasterPubkey 5 99), In_gatekeeper (RotatedMasterPubkey 1 8)]"

lemma ex_registry_simps:
  "rg_Gatekeeper ex_registry = [1]" "rg_GatekeeperMasterPubkey ex_registry = None"
  "rg_MasterKeyRotationLock ex_registry = None" "rg_RotationCounter ex_registry = 0"
  "rg_events ex_registry = []" "\<exists>v. rg_Workers ex_registry 1 = Some v"
  by (simp_all add: ex_registry_def GenesisConfig_build_def ex_genesis_def genesis_add_worker_def
    genesis_add_gatekeeper_def Registry_queue_message_def registry_empty_def Let_def)

lemma ex_rotation:
  "concat (map rotated_of (rg_events (registry_run ex_registry_config ex_registry ex_inputs))) = [(1, 8)]"
proof -
  obtain v where v: "rg_Workers ex_registry 1 = Some v" using ex_registry_simps(6) by blast
  show ?thesis
    by (simp add: ex_inputs_def ex_registry_simps v keep_unless_panic_def Registry_on_message_received_def
      Registry_on_gk_message_received_def rotate_master_key_def ensure_gov_def ex_registry_config_def
      registry_helpers Let_def)
qed

theorem rotations_increase_witness:
  "rg_GatekeeperMasterPubkey (registry_run ex_registry_config ex_registry ex_inputs) = Some 8"
proof -
  have "distinct (gen_gatekeepers ex_genesis)" "length ex_inputs < 2 ^ 64"
    by (simp_all add: ex_genesis_def ex_inputs_def)
  from rotations_increase [OF ex_registry_build this refl, of ex_registry_config] ex_rotation
  show ?thesis by simp
qed

text \<open>
  C32: A rotation requested before the first gatekeeper is registered can never finish: nobody can
  answer it, and while it is pending no gatekeeper can be registered; so after such a request, and
  whatever happens later, there is no gatekeeper and no master key, and the lock stays.
\<close>

theorem rotation_without_gatekeeper_deadlocks:
  assumes "GovernanceOrigin cfg o1" and "rg_Gatekeeper s = []" and "rg_GatekeeperMasterPubkey s = None"
    and "rg_MasterKeyRotationLock s = None"
    and "s' = registry_run cfg s (In_call o1 Call_rotate_master_key # ins)"
  shows "rg_MasterKeyRotationLock s' = Some (rg_RotationCounter s + 1) \<and> rg_Gatekeeper s' = [] \<and>
    rg_GatekeeperMasterPubkey s' = None \<and>
    (\<forall>o2 g. \<not> (\<exists>t. register_gatekeeper cfg o2 g s' = Inr t))"
proof -
  define stuck where "stuck p \<longleftrightarrow> gks p = [] \<and> master_key p = None \<and> lock p = Some (rg_RotationCounter s + 1)"
    for p :: gk_protocol
  have step: "stuck q" if "gk_step p q" "stuck p" for p q
    using that by (induction rule: gk_step.induct) (auto simp: stuck_def)
  have steps: "stuck q" if "gk_step\<^sup>*\<^sup>* p q" "stuck p" for p q
    using that(1) by (induction rule: rtranclp_induct) (use step that(2) in blast)+
  obtain t where t: "rotate_master_key cfg o1 s = Inr t"
    using assms(1,2,4) by (simp add: rotate_master_key_def ensure_gov_def Let_def)
  have "stuck (gk_abs t)" using rotate_master_key_Inr [OF t] assms(2,3) by (simp add: stuck_def)
  moreover have "s' = registry_run cfg t ins" using assms(5) t by simp
  ultimately have "stuck (gk_abs s')" using steps [OF registry_run_refines [of t cfg ins]] by simp
  then show ?thesis by (simp add: stuck_def register_gatekeeper_def Let_def)
qed

theorem rotation_without_gatekeeper_deadlocks_witness:
  "rg_Gatekeeper (registry_run ex_registry_config registry_empty
     [In_call Root Call_rotate_master_key, In_call Root (Call_force_register_worker 1 2 None),
      In_call Root (Call_register_gatekeeper 1)]) = []"
proof -
  have "GovernanceOrigin ex_registry_config Root" "rg_Gatekeeper registry_empty = []"
    "rg_GatekeeperMasterPubkey registry_empty = None" "rg_MasterKeyRotationLock registry_empty = None"
    by (simp_all add: ex_registry_config_def registry_empty_def)
  from rotation_without_gatekeeper_deadlocks [OF this refl] show ?thesis by blast
qed

text \<open>
  The outcome of a benchmark report. A report of a time that is not over is refused; a score is at
  most 6000; but the handler divides by the elapsed whole seconds and panics, exactly when less than
  a second has passed since the start time that the worker reports.
\<close>

theorem bench_report_outcome:
  assumes "dm_sender m = Worker w" and "dm_payload m = BenchReport start_time iterations"
  shows "(fst (Registry_on_message_received m s) = Inl (Fails RE_InvalidBenchReport) \<longleftrightarrow>
      rg_now_ms s \<le> start_time) \<and>
    (fst (Registry_on_message_received m s) = Inl Panics \<longleftrightarrow>
      start_time < rg_now_ms s \<and> unat (rg_now_ms s) < unat start_time + 1000) \<and>
    (fst (Registry_on_message_received m s) = Inr () \<longleftrightarrow> unat start_time + 1000 \<le> unat (rg_now_ms s)) \<and>
    (\<forall>score. bench_score (rg_now_ms s) start_time iterations = Some score \<longrightarrow> score \<le> 6000)"
proof -
  have d: "(rg_now_ms s - start_time) div 1000 = 0 \<longleftrightarrow> unat (rg_now_ms s) < unat start_time + 1000"
    if "start_time < rg_now_ms s"
  proof -
    have "(rg_now_ms s - start_time) div 1000 = 0 \<longleftrightarrow> unat ((rg_now_ms s - start_time) div 1000) = 0"
      by (simp add: unat_eq_zero)
    also have "\<dots> \<longleftrightarrow> unat (rg_now_ms s) - unat start_time < 1000"
      using that by (simp add: unat_div unat_sub order_less_imp_le div_eq_0_iff)
    finally show ?thesis using that by (auto simp: word_less_nat_alt)
  qed
  have b: "score \<le> 6000" if "bench_score (rg_now_ms s) start_time iterations = Some score" for score
    using that by (auto simp: bench_score_def MAX_SCORE_def Let_def split: if_splits)
  have "fst (Registry_on_message_received m s) =
      (if rg_now_ms s \<le> start_time then Inl (Fails RE_InvalidBenchReport)
       else if (rg_now_ms s - start_time) div 1000 = 0 then Inl Panics else Inr ())"
    using assms by (simp add: Registry_on_message_received_def bench_score_def Let_def)
  then show ?thesis
    using d b by (auto simp: word_less_nat_alt word_le_nat_alt split: if_splits)
qed

theorem bench_report_outcome_witness:
  "fst (Registry_on_message_received \<lparr>dm_sender = Worker 1, dm_destination = Topic [],
     dm_payload = BenchReport 5000 100\<rparr> (registry_empty\<lparr>rg_now_ms := 5999\<rparr>)) = Inl Panics"
  using bench_report_outcome [of "\<lparr>dm_sender = Worker 1, dm_destination = Topic [],
     dm_payload = BenchReport 5000 100\<rparr>" 1 5000 100 "registry_empty\<lparr>rg_now_ms := 5999\<rparr>"]
  by simp

section \<open>Workers are attested\<close>

text \<open>
  The input \<open>i\<close> in state \<open>s\<close> rightfully admits the worker \<open>w\<close>: root forces it, or a signed registration
  of data with that key carries a report which, at that time and with the allow list of that time,
  attests to these data as the configuration demands.
\<close>

definition attested ::
  "'o registry_config \<Rightarrow> registry_state \<Rightarrow> bytes \<Rightarrow> AttestationReport option \<Rightarrow> bool" where
  "attested cfg s h a \<longleftrightarrow> attests (cfg_sd cfg) (cfg_sgx cfg) (cfg_ias cfg) (VerifyPRuntime cfg)
     (rg_PRuntimeAllowList s) (NoneAttestationEnabled cfg) h (now_secs s) a"

definition admitted :: "'o registry_config \<Rightarrow> registry_state \<Rightarrow> registry_input \<Rightarrow> h256 \<Rightarrow> bool" where
  "admitted cfg s i w \<longleftrightarrow>
     (\<exists>e op. i = In_call Root (Call_force_register_worker w e op)) \<or>
     (\<exists>who info report signature cert.
        i = In_call (Signed who) (Call_register_worker info (SgxIas_legacy report signature cert)) \<and>
        wr_pubkey info = w \<and> attested cfg s (hash_info cfg info) (Some (SgxIas report signature cert))) \<or>
     (\<exists>who info a. i = In_call (Signed who) (Call_register_worker_v2 info a) \<and>
        w2_pubkey info = w \<and> w2_para_id info = ParachainId cfg \<and> attested cfg s (hash_info_v2 cfg info) a)"

lemma IasValidator_attests:
  assumes "IasValidator_validate sd ias (SgxIas_legacy report signature cert) h now vp allowed = Inr f"
  shows "attests sd ops ias vp allowed opt_out h now (Some (SgxIas report signature cert))"
proof -
  have "validate_ias_report sd ias h report signature cert now vp allowed =
      Inr \<lparr>cr_confidence_level = if_confidence_level f, cr_provider = Some Ias,
        cr_runtime_hash = IasFields_extend_mrenclave f\<rparr>"
    using assms validators_agree [of sd ias h report signature cert now vp allowed]
    by (simp del: IasValidator_validate.simps)
  then show ?thesis by (rule validate_ias_report_Inr)
qed

lemma dispatch_call_new_worker:
  assumes leg: "LegacyAttestationValidator cfg = IasValidator_validate (cfg_sd cfg) (cfg_ias cfg)"
    and r: "Registry_dispatch_call cfg o1 c s = Inr s'"
    and n: "rg_Workers s w = None" and w: "rg_Workers s' w = Some v"
  shows "admitted cfg s (In_call o1 c) w"
proof (cases c)
  case (Call_register_worker i a)
  obtain report signature cert where a: "a = SgxIas_legacy report signature cert" by (cases a)
  from register_worker_Inr [of cfg o1 i a s s'] r Call_register_worker obtain f who where
    f: "IasValidator_validate (cfg_sd cfg) (cfg_ias cfg) (SgxIas_legacy report signature cert) (hash_info cfg i)
       (now_secs s) (VerifyPRuntime cfg) (rg_PRuntimeAllowList s) = Inr f" and o1: "o1 = Signed who"
    and s': "s' = trigger_benchmark (wr_pubkey i) (upsert_worker (wr_pubkey i) (wr_ecdh_pubkey i) (wr_version i)
       (wr_operator i) (wr_features i) (Some Ias) (if_confidence_level f) (now_secs s) s)"
    by (auto simp: leg a simp del: IasValidator_validate.simps)
  have "w = wr_pubkey i"
    using upsert_worker_dom [of "wr_pubkey i" "wr_ecdh_pubkey i" "wr_version i" "wr_operator i" "wr_features i"
      "Some Ias" "if_confidence_level f" "now_secs s" s w] w n s' by auto
  then show ?thesis using IasValidator_attests [OF f] Call_register_worker a o1
    by (auto simp: admitted_def attested_def simp del: attests.simps)
next
  case (Call_register_worker_v2 i a)
  let ?s = "s\<lparr>rg_MaxKnownPRuntimeConsensusVersion := update_known_consensus_version
     (w2_max_consensus_version i) (rg_MaxKnownPRuntimeConsensusVersion s)\<rparr>"
  from register_worker_v2_Inr [of cfg o1 i a s s'] r Call_register_worker_v2 obtain t who where
    t: "attestation_validate (cfg_sd cfg) (cfg_sgx cfg) (cfg_ias cfg) a (hash_info_v2 cfg i)
       (now_secs s) (VerifyPRuntime cfg) (rg_PRuntimeAllowList s) (NoneAttestationEnabled cfg) = Inr t"
    and o1: "o1 = Signed who" "w2_para_id i = ParachainId cfg"
    and s': "s' = trigger_benchmark (w2_pubkey i) (upsert_worker (w2_pubkey i) (w2_ecdh_pubkey i) (w2_version i)
       (w2_operator i) (w2_features i) (cr_provider t) (cr_confidence_level t) (now_secs s) ?s)"
    by auto
  have "w = w2_pubkey i"
    using upsert_worker_dom [of "w2_pubkey i" "w2_ecdh_pubkey i" "w2_version i" "w2_operator i" "w2_features i"
      "cr_provider t" "cr_confidence_level t" "now_secs s" ?s w] w n s' by auto
  then show ?thesis using attestation_validate_Inr [OF t] Call_register_worker_v2 o1
    by (auto simp: admitted_def attested_def simp del: attests.simps)
next
  case (Call_register_gatekeeper g)
  with gatekeeper_calls_keep_workers(1) [of cfg o1 g s s'] r w n show ?thesis by simp
next
  case (Call_unregister_gatekeeper g)
  with gatekeeper_calls_keep_workers(2) [of cfg o1 g s s'] r w n show ?thesis by simp
next
  case Call_rotate_master_key
  with gatekeeper_calls_keep_workers(3) [of cfg o1 s s'] r w n show ?thesis by simp
next
  case (Call_force_register_worker p e op)
  then show ?thesis using r w n
    by (auto simp: force_register_worker_def registry_ensure_root_def admitted_def Let_def split: if_splits)
qed (use r w n in \<open>clarsimp simp: registry_call_defs Let_def\<close>)+

lemma handlers_keep_unknown:
  assumes "rg_Workers s w = None"
  shows "rg_Workers (snd (Registry_on_message_received m s)) w = None"
    "rg_Workers (snd (Registry_on_gk_message_received m' s)) w = None"
  using assms
  by (auto simp: Registry_on_message_received_def Registry_on_gk_message_received_def Let_def
    split: MessageOrigin.split RegistryEvent.split GatekeeperRegistryEvent.split option.split)

lemma registry_step_new_worker:
  assumes leg: "LegacyAttestationValidator cfg = IasValidator_validate (cfg_sd cfg) (cfg_ias cfg)"
    and n: "rg_Workers s w = None"
    and w: "rg_Workers (registry_step cfg s i) w = Some v"
  shows "admitted cfg s i w"
proof (cases i)
  case (In_call o1 c)
  then obtain s' where "Registry_dispatch_call cfg o1 c s = Inr s'" "rg_Workers s' w = Some v"
    using n w by (cases "Registry_dispatch_call cfg o1 c s") auto
  then show ?thesis using dispatch_call_new_worker [OF leg _ n] In_call by blast
qed (use n w in \<open>auto simp: keep_unless_panic_def handlers_keep_unknown split: if_splits\<close>)

lemma registry_run_new_worker:
  assumes leg: "LegacyAttestationValidator cfg = IasValidator_validate (cfg_sd cfg) (cfg_ias cfg)"
    and "rg_Workers s w = None" and "rg_Workers (registry_run cfg s ins) w \<noteq> None"
  shows "\<exists>before i later. ins = before @ i # later \<and> admitted cfg (registry_run cfg s before) i w"
  using assms(2,3)
proof (induction ins arbitrary: s)
  case (Cons i ins)
  show ?case
  proof (cases "rg_Workers (registry_step cfg s i) w")
    case None
    from Cons.IH [OF this] Cons.prems(2) obtain before j later where "ins = before @ j # later"
      "admitted cfg (registry_run cfg (registry_step cfg s i) before) j w" by auto
    then have "i # ins = (i # before) @ j # later" "admitted cfg (registry_run cfg s (i # before)) j w" by simp_all
    then show ?thesis by blast
  next
    case (Some v)
    with registry_step_new_worker [OF leg Cons.prems(1)] have "admitted cfg (registry_run cfg s []) i w" by simp
    then show ?thesis by (metis append_Nil)
  qed
qed simp

lemma genesis_build_workers:
  assumes b: "GenesisConfig_build key g registry_empty = Inr s" and "rg_Workers s w \<noteq> None"
  shows "w \<in> fst ` set (gen_workers g)"
proof -
  from b obtain t where t: "foldM_res (genesis_add_worker key (gen_benchmark_duration g)) registry_empty
      (gen_workers g) = Inr t"
    and s: "s = snd (fold genesis_add_gatekeeper (gen_gatekeepers g) ([], t))"
    by (auto simp: GenesisConfig_build_def)
  have "rg_Gatekeeper t = []" using genesis_workers_keep [OF t] by (simp add: gk_abs_def registry_empty_def)
  then have "rg_Workers s = rg_Workers t" using genesis_gatekeepers [of t "[]" "gen_gatekeepers g"] s by simp
  moreover have "rg_Workers t w \<noteq> None \<longrightarrow> w \<in> fst ` set (gen_workers g)"
  proof (rule foldM_res_invariant [OF t])
    show "rg_Workers registry_empty w \<noteq> None \<longrightarrow> w \<in> fst ` set (gen_workers g)" by (simp add: registry_empty_def)
  qed (force simp: genesis_add_worker_def Registry_queue_message_def Let_def split: if_splits prod.splits)
  ultimately show ?thesis using assms(2) by simp
qed

text \<open>
  C15: No worker without attestation, whatever the configuration. A worker that is in the registry
  after a run from genesis was listed at genesis, or some input of the run rightfully admitted it in
  the state of that moment: root forced it, or a signed registration of its key carried a report that
  verified at that time and commits to the submitted data (an IAS report with a valid signature and
  certificate, not older than two hours, or a DCAP quote that the verifier accepts), of an enclave on
  the allow list if the runtime's configuration verifies the enclave; only if the configuration makes
  attestation optional was there possibly no report. Hypothesis: the legacy validator is the IAS
  validator, as the runtime configures it.
\<close>

theorem registered_workers_attested:
  assumes "LegacyAttestationValidator cfg = IasValidator_validate (cfg_sd cfg) (cfg_ias cfg)"
    and "GenesisConfig_build key g registry_empty = Inr s" and "rg_Workers (registry_run cfg s ins) w \<noteq> None"
  shows "w \<in> fst ` set (gen_workers g) \<or>
    (\<exists>before i later. ins = before @ i # later \<and> admitted cfg (registry_run cfg s before) i w)"
  using genesis_build_workers [OF assms(2)] registry_run_new_worker [OF assms(1) _ assms(3)] by blast

definition ex_info :: WorkerRegistrationInfoV2 where
  "ex_info = \<lparr>w2_version = 1, w2_machine_id = [], w2_pubkey = 5, w2_ecdh_pubkey = 6, w2_genesis_block_hash = 0,
     w2_features = [], w2_operator = None, w2_para_id = 0, w2_max_consensus_version = 0\<rparr>"

definition ex_registration :: "registry_input list" where
  "ex_registration = [In_block 50000, In_call Root (Call_add_pruntime (replicate 68 0)),
     In_call (Signed 3) (Call_register_worker_v2 ex_info (Some (SgxDcap (ex_quote 32) (Some ex_coll))))]"

lemma ex_validate_dcap:
  "validate_dcap ex_sd ex_ops (ex_quote 32) ex_coll 50 (replicate 32 0) True [replicate 68 0] =
   Inr \<lparr>cr_confidence_level = 5, cr_provider = Some Dcap, cr_runtime_hash = replicate 68 0\<rparr>"
proof -
  have "confidence_of ''OutOfDate'' [] = Inr 5"
    by (simp add: confidence_of_def status_level_def filter_advisories_def status_lists)
  then show ?thesis by (simp add: validate_dcap_def ex_verify map_dcap_err_def lift_err_def)
qed

lemma ex_registration_run: "rg_Workers (registry_run ex_registry_config registry_empty ex_registration) 5 \<noteq> None"
proof -
  have "registry_step ex_registry_config (registry_empty\<lparr>rg_block := 1, rg_now_ms := 50000\<rparr>)
      (In_call Root (Call_add_pruntime (replicate 68 0))) =
    registry_empty\<lparr>rg_block := 1, rg_now_ms := 50000, rg_PRuntimeAllowList := [replicate 68 0],
      rg_PRuntimeAddedAt := [replicate 68 0 \<mapsto> 1]\<rparr>" (is "_ = ?s")
    by (simp add: add_pruntime_def ensure_gov_def ex_registry_config_def registry_empty_def)
  moreover have "registry_step ex_registry_config registry_empty (In_block 50000) =
      registry_empty\<lparr>rg_block := 1, rg_now_ms := 50000\<rparr>" by (simp add: registry_empty_def)
  moreover obtain t where "register_worker_v2 ex_registry_config (Signed 3) ex_info
      (Some (SgxDcap (ex_quote 32) (Some ex_coll))) ?s = Inr t" "rg_Workers t 5 \<noteq> None"
    by (simp add: register_worker_v2_def registry_ensure_signed_def ex_registry_config_def now_secs_def
      registry_empty_def ex_validate_dcap check_relaychain_genesis_def ex_info_def upsert_worker_def Let_def)
  ultimately show ?thesis by (simp add: ex_registration_def)
qed

theorem registered_workers_attested_witness:
  "\<exists>before i later. ex_registration = before @ i # later \<and>
     admitted ex_registry_config (registry_run ex_registry_config registry_empty before) i 5"
proof -
  have "LegacyAttestationValidator ex_registry_config =
      IasValidator_validate (cfg_sd ex_registry_config) (cfg_ias ex_registry_config)"
    by (simp add: ex_registry_config_def)
  moreover have "GenesisConfig_build first_key GenesisConfig_default registry_empty = Inr registry_empty" for first_key
    by (simp add: GenesisConfig_build_def GenesisConfig_default_def)
  ultimately show ?thesis
    using registered_workers_attested [OF _ _ ex_registration_run, of "\<lambda>_. 0" GenesisConfig_default]
    by (simp add: GenesisConfig_default_def)
qed

end
