(* ===== verification/Fixed_Point.thy ===== *)
theory Fixed_Point
  imports Prelude
begin

text \<open>
  Fixed-point numbers. The sources compute with the type \<open>U64F64\<close> of the crate \<open>fixed\<close>, 64 integer
  and 64 fractional bits; a number is its bits, and numbers compare as their bits do. The operations of
  the crate are an argument of the definitions that compute with them (\<open>u64f64_ops\<close>), and the locale
  \<open>u64f64\<close> states what the crate documents of them: sums and differences are exact, products and
  quotients are rounded down, division by zero panics; nothing is said of a result that does not fit.
\<close>

section \<open>Literals\<close>

text \<open>The literal \<open>n/d\<close> of the macro of \<open>fixed_macro\<close>: rounded to the nearest number.\<close>

definition fp_literal :: "nat \<Rightarrow> nat \<Rightarrow> u128" where
  "fp_literal n d = of_nat ((2 * n * 2 ^ 64 + d) div (2 * d))"

definition fp_div :: "u128 \<Rightarrow> u128 \<Rightarrow> u128" where
  "fp_div a b = of_nat ((unat a * 2 ^ 64) div unat b)"

section \<open>Operations\<close>

lemma mult_div_le: "b \<le> d \<Longrightarrow> a * b div d \<le> (a :: nat)"
  using div_le_mono [OF mult_le_mono2 [of b d a], of d] by (cases "d = 0") auto

lemma div_plus_div_le: "a div d + b div d \<le> (a + b) div (d :: nat)"
  using div_add1_eq [of a b d] by linarith

record u64f64_ops =
  gx_from_num :: "u64 \<Rightarrow> u128"
  gx_add :: "u128 \<Rightarrow> u128 \<Rightarrow> u128"
  gx_sub :: "u128 \<Rightarrow> u128 \<Rightarrow> u128"
  gx_mul :: "u128 \<Rightarrow> u128 \<Rightarrow> u128"
  gx_div :: "u128 \<Rightarrow> u128 \<Rightarrow> u128 option"
  gx_mul_int :: "u128 \<Rightarrow> u128 \<Rightarrow> u128"
  gx_div_int :: "u128 \<Rightarrow> u128 \<Rightarrow> u128 option"
  gx_sqrt :: "u128 \<Rightarrow> u128"

locale u64f64 =
  fixes gx :: u64f64_ops
  assumes from_num: "unat (gx_from_num gx n) = unat n * 2 ^ 64"
    and add: "unat a + unat b < 2 ^ 128 \<Longrightarrow> unat (gx_add gx a b) = unat a + unat b"
    and sub: "b \<le> a \<Longrightarrow> unat (gx_sub gx a b) = unat a - unat b"
    and mul: "unat a * unat b div 2 ^ 64 < 2 ^ 128 \<Longrightarrow>
      unat (gx_mul gx a b) = unat a * unat b div 2 ^ 64"
    and div: "b \<noteq> 0 \<Longrightarrow> unat a * 2 ^ 64 div unat b < 2 ^ 128 \<Longrightarrow>
      map_option unat (gx_div gx a b) = Some (unat a * 2 ^ 64 div unat b)"
    and div_panics: "gx_div gx a b = None \<longleftrightarrow> b = 0"
    and div_int: "m \<noteq> 0 \<Longrightarrow> map_option unat (gx_div_int gx a m) = Some (unat a div unat m)"
    and div_int_panics: "gx_div_int gx a m = None \<longleftrightarrow> m = 0"
begin

text \<open>A product with a number up to one does not exceed the other factor.\<close>

lemma mul_le_one:
  assumes "unat b \<le> 2 ^ 64"
  shows "unat (gx_mul gx a b) = unat a * unat b div 2 ^ 64" "unat (gx_mul gx a b) \<le> unat a"
proof -
  have le: "unat a * unat b div 2 ^ 64 \<le> unat a"
    using assms by (rule mult_div_le)
  also have "unat a < 2 ^ 128" using unat_less_word [of a] by simp
  finally show eq: "unat (gx_mul gx a b) = unat a * unat b div 2 ^ 64" by (rule mul)
  show "unat (gx_mul gx a b) \<le> unat a" unfolding eq by (rule le)
qed

text \<open>The two parts of a number split by a ratio and its complement never exceed the whole.\<close>

lemma mul_split_le:
  assumes "unat r + unat t \<le> 2 ^ 64"
  shows "unat (gx_mul gx a r) + unat (gx_mul gx a t) \<le> unat a"
proof -
  have "unat a * unat r div 2 ^ 64 + unat a * unat t div 2 ^ 64 \<le> (unat a * unat r + unat a * unat t) div 2 ^ 64"
    by (rule div_plus_div_le)
  also have "\<dots> \<le> unat a"
    using mult_div_le [OF assms] by (simp only: distrib_left)
  finally show ?thesis
    using mul_le_one(1) [of r a, OF add_leD1 [OF assms]] mul_le_one(1) [of t a, OF add_leD2 [OF assms]]
    by (simp only:)
qed

end

section \<open>The operations on bits\<close>

text \<open>The integer square root, bit by bit, of a number below \<open>2\<^sup>1\<^sup>9\<^sup>2\<close>.\<close>

definition isqrt :: "nat \<Rightarrow> nat" where
  "isqrt n = foldr (\<lambda>k acc. if (acc + 2 ^ k) * (acc + 2 ^ k) \<le> n then acc + 2 ^ k else acc) [0 ..< 96] 0"

lemma isqrt_bits:
  assumes "n < (2 :: nat) ^ 96" and "j \<le> 96"
  shows "foldr (\<lambda>k acc. if (acc + 2 ^ k) * (acc + 2 ^ k) \<le> n * n then acc + 2 ^ k else acc) [j ..< 96] 0
    = n div 2 ^ j * 2 ^ j"
  using assms(2)
proof (induction rule: inc_induct)
  case base
  then show ?case using assms(1) by simp
next
  case (step j)
  define a where "a = n div 2 ^ Suc j * 2 ^ Suc j"
  have d: "n div 2 ^ j * 2 ^ j = a + n div 2 ^ j mod 2 * 2 ^ j"
  proof -
    have "n div 2 ^ Suc j = n div 2 ^ j div 2" unfolding power_Suc2 by (rule div_mult2_eq)
    then have "a = n div 2 ^ j div 2 * 2 * 2 ^ j" by (simp add: a_def)
    then show ?thesis by (simp only: flip: distrib_right) (simp only: div_mult_mod_eq)
  qed
  have le: "a + n div 2 ^ j mod 2 * 2 ^ j \<le> n" unfolding d [symmetric] by (rule div_times_less_eq_dividend)
  have lt: "n < a + n div 2 ^ j mod 2 * 2 ^ j + 2 ^ j"
  proof -
    have "n mod 2 ^ j < 2 ^ j" by simp
    then show ?thesis unfolding d [symmetric] using div_mult_mod_eq [of n "2 ^ j"] by linarith
  qed
  have c: "(a + 2 ^ j) * (a + 2 ^ j) \<le> n * n \<longleftrightarrow> n div 2 ^ j mod 2 = 1"
    using le lt by (cases "n div 2 ^ j mod 2 = 1") (auto simp: mult_le_mono not_le mult_strict_mono)
  have "foldr (\<lambda>k acc. if (acc + 2 ^ k) * (acc + 2 ^ k) \<le> n * n then acc + 2 ^ k else acc) [j ..< 96] 0 =
      (if (a + 2 ^ j) * (a + 2 ^ j) \<le> n * n then a + 2 ^ j else a)"
    using step by (simp add: upt_conv_Cons a_def)
  also have "\<dots> = n div 2 ^ j * 2 ^ j"
    unfolding c d by (cases "n div 2 ^ j mod 2 = 1") simp_all
  finally show ?case .
qed

lemma isqrt_square: "n < 2 ^ 96 \<Longrightarrow> isqrt (n * n) = n"
  using isqrt_bits [of n 0] by (simp add: isqrt_def)

text \<open>An implementation of the documented operations: results that do not fit wrap around.\<close>

definition q64_ops :: u64f64_ops where
  "q64_ops = \<lparr>gx_from_num = \<lambda>n. of_nat (unat n * 2 ^ 64),
     gx_add = (+), gx_sub = (-),
     gx_mul = \<lambda>a b. of_nat (unat a * unat b div 2 ^ 64),
     gx_div = \<lambda>a b. if b = 0 then None else Some (of_nat (unat a * 2 ^ 64 div unat b)),
     gx_mul_int = (*),
     gx_div_int = \<lambda>a n. if n = 0 then None else Some (a div n),
     gx_sqrt = \<lambda>a. of_nat (isqrt (unat a * 2 ^ 64))\<rparr>"

lemma q64_evals:
  "gx_from_num q64_ops n = of_nat (unat n * 2 ^ 64)"
  "gx_add q64_ops a b = a + b" "gx_sub q64_ops a b = a - b"
  "gx_mul q64_ops a b = of_nat (unat a * unat b div 2 ^ 64)"
  "gx_div q64_ops a b = (if b = 0 then None else Some (of_nat (unat a * 2 ^ 64 div unat b)))"
  "gx_mul_int q64_ops a m = a * m"
  "gx_div_int q64_ops a m = (if m = 0 then None else Some (a div m))"
  by (simp_all add: q64_ops_def)

lemma unat_of_nat_u128: "n < 2 ^ 128 \<Longrightarrow> unat (of_nat n :: u128) = n"
  using unat_of_nat_word [of n, where 'a = 128] by simp

lemma q64_from_num: "unat (gx_from_num q64_ops n) = unat n * 2 ^ 64"
proof -
  have "unat n < 2 ^ 64" using unat_less_word [of n] by simp
  then have "unat n * 2 ^ 64 < 2 ^ 128" by simp
  then show ?thesis unfolding q64_ops_def by (simp only: u64f64_ops.simps unat_of_nat_u128)
qed

lemma q64_add: "unat a + unat b < 2 ^ 128 \<Longrightarrow> unat (gx_add q64_ops a b) = unat a + unat b"
  by (simp add: q64_ops_def unat_word_ariths)

lemma q64_sub: "b \<le> a \<Longrightarrow> unat (gx_sub q64_ops a b) = unat a - unat b"
  by (simp add: q64_ops_def unat_sub)

lemma q64_mul:
  "unat a * unat b div 2 ^ 64 < 2 ^ 128 \<Longrightarrow> unat (gx_mul q64_ops a b) = unat a * unat b div 2 ^ 64"
  unfolding q64_ops_def by (simp only: u64f64_ops.simps unat_of_nat_u128)

lemma q64_div:
  "b \<noteq> 0 \<Longrightarrow> unat a * 2 ^ 64 div unat b < 2 ^ 128 \<Longrightarrow>
      map_option unat (gx_div q64_ops a b) = Some (unat a * 2 ^ 64 div unat b)"
  unfolding q64_ops_def by (simp only: u64f64_ops.simps unat_of_nat_u128 if_False option.map)

lemma q64_div_int:
  "b \<noteq> 0 \<Longrightarrow> map_option unat (gx_div_int q64_ops a b) = Some (unat a div unat b)"
  unfolding q64_ops_def by (simp only: u64f64_ops.simps if_False option.map unat_div)

lemma q64_panics:
  "gx_div q64_ops a b = None \<longleftrightarrow> b = 0" "gx_div_int q64_ops a b = None \<longleftrightarrow> b = 0"
  by (simp_all add: q64_ops_def)

interpretation q64: u64f64 q64_ops
  by unfold_locales (fact q64_from_num q64_add q64_sub q64_mul q64_div q64_div_int q64_panics)+

end
