(* ===== verification/Pallet_Computation.thy ===== *)
theory Pallet_Computation
  imports Pallet_Registry Fixed_Point
begin

text \<open>
  Computing sessions: the pallet \<open>pallets/phala/src/compute/computation.rs\<close> with the conversions of
  \<open>pallets/phala/src/utils/balance_convert.rs\<close>. Sessions are identified by accounts; a session is bound
  to a worker of the registry, starts computing with a stake, may become unresponsive and recover,
  stops into a cool-down period and is reclaimed.

  A fixed-point number is its bits. Arguments of the model: \<open>fx\<close>, the operations of the crate \<open>fixed\<close>
  (an \<open>unwrapped\<close> operation that overflows panics, which is \<^term>\<open>None\<close>), and \<open>cc\<close>, the pallet's
  \<open>Config\<close>: origins, constants, randomness, the currency, and the handlers of the pallets that listen
  to events of this one. The state of all other pallets is the field \<open>cp_rest\<close>.
\<close>

section \<open>Conversions\<close>

record fixed_ops =
  fx_from_num :: "u32 \<Rightarrow> u128"
  fx_mul :: "u128 \<Rightarrow> u128 \<Rightarrow> u128"
  fx_add :: "u128 \<Rightarrow> u128 \<Rightarrow> u128"
  fx_sub :: "u128 \<Rightarrow> u128 \<Rightarrow> u128"
  fx_sqrt :: "u128 \<Rightarrow> u128"
  fx_le :: "u128 \<Rightarrow> u128 \<Rightarrow> bool"
  fx_1 :: u128
  fx_0_8 :: u128
  fx_0_7 :: u128
  u80_from_fixed :: "u128 \<Rightarrow> u128 option"
  u80_mul_int :: "u128 \<Rightarrow> u128 \<Rightarrow> u128 option"
  u80_to_num :: "u128 \<Rightarrow> u128"
  u80_from_num :: "u128 \<Rightarrow> u128 option"
  u80_div_int :: "u128 \<Rightarrow> u128 \<Rightarrow> u128 option"
  fx_from_u80 :: "u128 \<Rightarrow> u128 option"

definition PHA :: u128 where
  "PHA = 1000000000000"

definition u128_from_fixed :: "fixed_ops \<Rightarrow> u128 \<Rightarrow> 'e exn + u128" where
  "u128_from_fixed fx v =
     bind_res (ok_or (u80_from_fixed fx v) Panics) (\<lambda>u.
     bind_res (ok_or (u80_mul_int fx u PHA) Panics) (\<lambda>m. Inr (u80_to_num fx m)))"

definition u128_from_bits :: "fixed_ops \<Rightarrow> u128 \<Rightarrow> 'e exn + u128" where
  "u128_from_bits fx bits = u128_from_fixed fx bits"

definition u128_to_fixed :: "fixed_ops \<Rightarrow> u128 \<Rightarrow> 'e exn + u128" where
  "u128_to_fixed fx x =
     bind_res (ok_or (u80_from_num fx x) Panics) (\<lambda>v.
     bind_res (ok_or (u80_div_int fx v PHA) Panics) (\<lambda>q. ok_or (fx_from_u80 fx q) Panics))"

section \<open>Data\<close>

datatype WorkerState = Ready | WorkerIdle | Unused_state | WorkerUnresponsive | WorkerCoolingDown

definition WorkerState_can_unbind :: "WorkerState \<Rightarrow> bool" where
  "WorkerState_can_unbind st = (st = Ready \<or> st = WorkerCoolingDown)"

definition WorkerState_can_settle :: "WorkerState \<Rightarrow> bool" where
  "WorkerState_can_settle st = (st = WorkerIdle \<or> st = WorkerUnresponsive)"

definition WorkerState_is_computing :: "WorkerState \<Rightarrow> bool" where
  "WorkerState_is_computing st = (st = WorkerIdle \<or> st = WorkerUnresponsive)"

record Benchmark =
  p_init :: u32
  p_instant :: u32
  bm_iterations :: u64
  working_start_time :: u64
  challenge_time_last :: u64

definition Benchmark_update :: "u64 \<Rightarrow> u64 \<Rightarrow> u64 \<Rightarrow> Benchmark \<Rightarrow> Benchmark option" where
  "Benchmark_update now iterations challenge_time b =
     (if now \<le> challenge_time_last b then None
      else let b = (if iterations < bm_iterations b then b\<lparr>bm_iterations := iterations\<rparr> else b);
               delta_ts = now - challenge_time_last b;
               delta_iter = iterations - bm_iterations b;
               b = b\<lparr>challenge_time_last := challenge_time\<rparr>;
               b = b\<lparr>bm_iterations := iterations\<rparr>;
               p = (ucast (delta_iter * 6 div delta_ts) :: u32)
           in Some (b\<lparr>p_instant := min p (p_init b * 12 div 10)\<rparr>))"

record SessionInfo =
  si_state :: WorkerState
  si_ve :: u128
  si_v_bits :: u128
  si_v_updated_at :: u64
  si_benchmark :: Benchmark
  si_cool_down_start :: u64
  si_total_reward :: u128

text \<open>Slashing is disabled: \<open>calc_final_stake\<close> returns the whole stake.\<close>

definition SessionInfo_calc_final_stake :: "SessionInfo \<Rightarrow> u128 \<Rightarrow> u128 \<times> u128" where
  "SessionInfo_calc_final_stake info orig_stake = (orig_stake, 0)"

definition SessionStats_on_reward :: "fixed_ops \<Rightarrow> u128 \<Rightarrow> SessionInfo \<Rightarrow> 'e exn + SessionInfo" where
  "SessionStats_on_reward fx payout_bits info =
     bind_res (u128_from_bits fx payout_bits) (\<lambda>payout.
       Inr (info\<lparr>si_total_reward := si_total_reward info + payout\<rparr>))"

datatype Comp_Event =
    CoolDownExpirationChanged u64
  | WorkerStarted h256 u128 u32
  | WorkerStopped h256
  | WorkerReclaimed h256 u128 u128
  | SessionBound h256 h256
  | SessionUnbound h256 h256
  | WorkerEnterUnresponsive h256
  | WorkerExitUnresponsive h256
  | SessionSettled h256 u128 u128
  | InternalErrorWorkerSettleFailed h256
  | SubsidyBudgetHalved
  | InternalErrorWrongHalvingConfigured
  | TokenomicParametersChanged
  | SessionSettlementDropped h256 u128 u128
  | BenchmarkUpdated h256 u32
  | BudgetUpdated u64 u128

datatype Comp_message =
    Comp_system SystemEvent
  | Comp_tokenomic TokenomicParams

text \<open>
  The storage items, without \<open>ComputingStartBlock\<close> and \<open>ComputingHalvingInterval\<close>, which no code reads or
  writes; with the registry this pallet reads and the logs of events and messages.
\<close>

record 'w comp_state =
  cp_registry :: registry_state
  cp_TokenomicParameters :: "TokenomicParams option"
  cp_ScheduledTokenomicUpdate :: "TokenomicParams option"
  cp_OnlineWorkers :: u32
  cp_ExpectedHeartbeatCount :: "u32 option"
  cp_HeartbeatPaused :: bool
  cp_MaxBudgetLimit :: u128
  cp_BudgetUpdateNonce :: u64
  cp_LastBudgetUpdateBlock :: u32
  cp_ContractAccount :: h256
  cp_Sessions :: "h256 \<Rightarrow> SessionInfo option"
  cp_SessionBindings :: "h256 \<Rightarrow> h256 option"
  cp_WorkerBindings :: "h256 \<Rightarrow> h256 option"
  cp_CoolDownPeriod :: u64
  cp_NextSessionId :: u32
  cp_Stakes :: "h256 \<Rightarrow> u128 option"
  cp_events :: "Comp_Event list"
  cp_out :: "Comp_message list"
  cp_queued :: "Comp_message list"
  cp_rest :: 'w

datatype Comp_Error =
    CE_InvalidMessage | CE_GatekeeperNotRegistered | CE_NotMigrationRoot
  | CE_BadSender | CE_WorkerNotRegistered | CE_DuplicateBoundSession | CE_BenchmarkMissing
  | CE_SessionNotFound | CE_SessionNotBound | CE_WorkerNotReady | CE_WorkerNotComputing
  | CE_WorkerNotBound | CE_CoolDownNotReady | CE_InsufficientStake | CE_TooMuchStake
  | CE_InternalErrorBadTokenomicParameters | CE_DuplicateBoundWorker | CE_BenchmarkTooLow
  | CE_InternalErrorCannotStartWithExistingStake | CE_NonceIndexInvalid
  | CE_BudgetUpdateBlockInvalid | CE_BudgetExceedMaxLimit | CE_WorkerReregisterNeeded
  | CE_BadOrigin | CE_Currency

text \<open>
  The configuration. Handlers of other pallets work on the rest of the state and may panic
  (\<^term>\<open>None\<close>); \<open>withdraw\<close> gives the amount taken from the account.
\<close>

record 'w comp_config =
  ExpectedBlockTimeSec :: u32
  MinInitP :: u32
  CheckWorkerRegisterTime :: bool
  UpdateTokenomicOrigin :: "RawOrigin \<Rightarrow> bool"
  SetBudgetOrigins :: "RawOrigin \<Rightarrow> bool"
  SetContractRootOrigins :: "RawOrigin \<Rightarrow> bool"
  cc_GovernanceOrigin :: "RawOrigin \<Rightarrow> bool"
  cc_random :: "'w \<Rightarrow> h256"
  OnReward_on_reward :: "SettleInfo list \<Rightarrow> 'w \<Rightarrow> 'w option"
  OnUnbound_on_unbound :: "h256 \<Rightarrow> bool \<Rightarrow> 'w \<Rightarrow> 'w option"
  OnStopped_on_stopped :: "h256 \<Rightarrow> u128 \<Rightarrow> u128 \<Rightarrow> 'w \<Rightarrow> 'w option"
  OnTreasurySettled_on_unbalanced :: "u128 \<Rightarrow> 'w \<Rightarrow> 'w option"
  Currency_withdraw :: "h256 \<Rightarrow> u128 \<Rightarrow> 'w \<Rightarrow> (u128 \<times> 'w) option"
  Currency_transfer :: "h256 \<Rightarrow> h256 \<Rightarrow> u128 \<Rightarrow> 'w \<Rightarrow> 'w option"
  computing_account :: h256

type_synonym 'w comp_result = "Comp_Error exn + 'w comp_state"

section \<open>Helpers\<close>

definition comp_push_message :: "Comp_message \<Rightarrow> 'w comp_state \<Rightarrow> 'w comp_state" where
  "comp_push_message m s = s\<lparr>cp_out := cp_out s @ [m]\<rparr>"

definition comp_deposit_event :: "Comp_Event \<Rightarrow> 'w comp_state \<Rightarrow> 'w comp_state" where
  "comp_deposit_event e s = s\<lparr>cp_events := cp_events s @ [e]\<rparr>"

definition push_comp_worker_event :: "h256 \<Rightarrow> WorkerEvent \<Rightarrow> 'w comp_state \<Rightarrow> 'w comp_state" where
  "push_comp_worker_event w e = comp_push_message (Comp_system (SystemEvent_new_worker_event w e))"

definition comp_now_sec :: "'w comp_state \<Rightarrow> u64" where
  "comp_now_sec s = now_secs (cp_registry s)"

definition call_handler :: "('w \<Rightarrow> 'w option) \<Rightarrow> 'w comp_state \<Rightarrow> 'w comp_result" where
  "call_handler h s = (case h (cp_rest s) of None \<Rightarrow> Inl Panics | Some r \<Rightarrow> Inr (s\<lparr>cp_rest := r\<rparr>))"

definition ensure_worker_bound :: "h256 \<Rightarrow> 'w comp_state \<Rightarrow> Comp_Error exn + h256" where
  "ensure_worker_bound pubkey s = ok_or (cp_WorkerBindings s pubkey) (Fails CE_WorkerNotBound)"

definition ensure_session_bound :: "h256 \<Rightarrow> 'w comp_state \<Rightarrow> Comp_Error exn + h256" where
  "ensure_session_bound session s = ok_or (cp_SessionBindings s session) (Fails CE_SessionNotBound)"

definition update_tokenomic_parameters :: "TokenomicParams \<Rightarrow> 'w comp_state \<Rightarrow> 'w comp_state" where
  "update_tokenomic_parameters params s =
     (let s = s\<lparr>cp_TokenomicParameters := Some params\<rparr>;
          s = comp_push_message (Comp_tokenomic params) s
      in comp_deposit_event TokenomicParametersChanged s)"

definition withdraw_subsidy_pool :: "'w comp_config \<Rightarrow> h256 \<Rightarrow> u128 \<Rightarrow> 'w comp_state \<Rightarrow> 'w comp_result" where
  "withdraw_subsidy_pool cc target amount s =
     (let wallet = computing_account cc
      in case Currency_transfer cc wallet target amount (cp_rest s) of
           None \<Rightarrow> Inl (Fails CE_Currency)
         | Some r \<Rightarrow> Inr (s\<lparr>cp_rest := r\<rparr>))"

definition withdraw_imbalance_from_subsidy_pool ::
  "'w comp_config \<Rightarrow> u128 \<Rightarrow> 'w comp_state \<Rightarrow> Comp_Error exn + u128 \<times> 'w comp_state" where
  "withdraw_imbalance_from_subsidy_pool cc amount s =
     (let wallet = computing_account cc
      in case Currency_withdraw cc wallet amount (cp_rest s) of
           None \<Rightarrow> Inl (Fails CE_Currency)
         | Some (imbalance, r) \<Rightarrow> Inr (imbalance, s\<lparr>cp_rest := r\<rparr>))"

section \<open>Tokenomics\<close>

definition comp_tokenomic :: "'w comp_state \<Rightarrow> Comp_Error exn + TokenomicParams" where
  "comp_tokenomic s = ok_or (cp_TokenomicParameters s) (Fails CE_InternalErrorBadTokenomicParameters)"

definition Tokenomic_minimal_stake :: "fixed_ops \<Rightarrow> TokenomicParams \<Rightarrow> u32 \<Rightarrow> 'e exn + u128" where
  "Tokenomic_minimal_stake fx params p =
     (let p = fx_from_num fx p; k = tp_k params; min_stake = fx_mul fx k (fx_sqrt fx p)
      in u128_from_fixed fx min_stake)"

definition Tokenomic_confidence_score :: "fixed_ops \<Rightarrow> u8 \<Rightarrow> u128" where
  "Tokenomic_confidence_score fx confidence_level =
     (let scores = [fx_1 fx, fx_1 fx, fx_1 fx, fx_0_8 fx, fx_0_7 fx]
      in if 1 \<le> confidence_level \<and> confidence_level \<le> 5 then scores ! (unat confidence_level - 1)
         else scores ! 0)"

definition Tokenomic_rig_cost :: "fixed_ops \<Rightarrow> TokenomicParams \<Rightarrow> u32 \<Rightarrow> u128" where
  "Tokenomic_rig_cost fx params p =
     (let cost_k = tp_rig_k params; cost_b = tp_rig_b params; p = fx_from_num fx p
      in fx_add fx (fx_mul fx cost_k p) cost_b)"

definition Tokenomic_ve :: "fixed_ops \<Rightarrow> TokenomicParams \<Rightarrow> u128 \<Rightarrow> u32 \<Rightarrow> u8 \<Rightarrow> 'e exn + u128" where
  "Tokenomic_ve fx params stake p confidence_level =
     (let f1 = fx_from_num fx 1;
          score = Tokenomic_confidence_score fx confidence_level;
          re = tp_re params;
          tweaked_re = fx_add fx (fx_mul fx (fx_sub fx re f1) score) f1
      in bind_res (u128_to_fixed fx stake) (\<lambda>st.
           let c = Tokenomic_rig_cost fx params p in Inr (fx_mul fx tweaked_re (fx_add fx st c))))"

definition Tokenomic_v_max :: "TokenomicParams \<Rightarrow> u128" where
  "Tokenomic_v_max params = tp_v_max params"

text \<open>
  The target of the heartbeat lottery, over the operations of \<open>U32F32\<close> on 64 bits (\<open>q_div\<close> panics on
  zero, \<open>checked_shl\<close> fails on an excessive shift). Numbers compare as their bits.
\<close>

record u32f32_ops =
  q_from_num :: "u32 \<Rightarrow> u64"
  q_mul :: "u64 \<Rightarrow> u64 \<Rightarrow> u64"
  q_div :: "u64 \<Rightarrow> u64 \<Rightarrow> u64 option"
  q_checked_shl :: "u64 \<Rightarrow> u32 \<Rightarrow> u64 option"
  q_to_num :: "u64 \<Rightarrow> u32"

definition pow_target :: "u32f32_ops \<Rightarrow> u32 \<Rightarrow> u32 \<Rightarrow> u32 \<Rightarrow> 'e exn + h256" where
  "pow_target q num_tx num_workers secs_per_block =
     (if num_workers = 0 then Inr 0 else
      if secs_per_block = 0 then Inl Panics else
      let num_workers = q_from_num q num_workers; num_tx = q_from_num q num_tx in
      bind_res (ok_or (q_div q (q_mul q num_workers (q_from_num q 2)) (q_from_num q (3600 div secs_per_block)))
        Panics) (\<lambda>max_tx.
      let target_tx = min num_tx max_tx in
      bind_res (ok_or (q_div q target_tx num_workers) Panics) (\<lambda>ratio.
      bind_res (ok_or (q_checked_shl q ratio 24) Panics) (\<lambda>shifted.
      let frac = q_to_num q shifted in Inr (drop_bit 24 (- 1) * ucast frac)))))"

section \<open>Session lifecycle\<close>

definition can_reclaim :: "SessionInfo \<Rightarrow> bool \<Rightarrow> 'w comp_state \<Rightarrow> bool" where
  "can_reclaim session_info check_cooldown s =
     (if si_state session_info \<noteq> WorkerCoolingDown then False
      else if \<not> check_cooldown then True
      else let now = comp_now_sec s in now - si_cool_down_start session_info \<ge> cp_CoolDownPeriod s)"

definition reclaim :: "h256 \<Rightarrow> bool \<Rightarrow> 'w comp_state \<Rightarrow> Comp_Error exn + (u128 \<times> u128) \<times> 'w comp_state" where
  "reclaim session check_cooldown s =
     bind_res (ok_or (cp_Sessions s session) (Fails CE_SessionNotFound)) (\<lambda>session_info.
     bind_res (ensure (can_reclaim session_info check_cooldown s) (Fails CE_CoolDownNotReady)) (\<lambda>_.
     let session_info = session_info\<lparr>si_state := Ready, si_cool_down_start := 0\<rparr>;
         s = s\<lparr>cp_Sessions := (cp_Sessions s)(session \<mapsto> session_info)\<rparr>;
         orig_stake = unwrap_or (cp_Stakes s session) 0;
         s = s\<lparr>cp_Stakes := (cp_Stakes s)(session := None)\<rparr>;
         slashed = snd (SessionInfo_calc_final_stake session_info orig_stake)
     in Inr ((orig_stake, slashed), comp_deposit_event (WorkerReclaimed session orig_stake slashed) s)))"

definition Computation_bind :: "'w comp_config \<Rightarrow> h256 \<Rightarrow> h256 \<Rightarrow> 'w comp_state \<Rightarrow> 'w comp_result" where
  "Computation_bind cc session pubkey s =
     bind_res (ok_or (rg_Workers (cp_registry s) pubkey) (Fails CE_WorkerNotRegistered)) (\<lambda>worker.
     bind_res (if CheckWorkerRegisterTime cc
               then ensure (is_worker_registered_after_gk_launched pubkey (cp_registry s))
                      (Fails CE_WorkerReregisterNeeded)
               else Inr ()) (\<lambda>_.
     bind_res (ensure (wi_initial_score worker \<noteq> None) (Fails CE_BenchmarkMissing)) (\<lambda>_.
     bind_res (ensure (isl (ensure_session_bound session s)) (Fails CE_DuplicateBoundSession)) (\<lambda>_.
     bind_res (ensure (isl (ensure_worker_bound pubkey s)) (Fails CE_DuplicateBoundWorker)) (\<lambda>_.
     let can_bind = (case cp_Sessions s session of Some info \<Rightarrow> si_state info = Ready | None \<Rightarrow> True) in
     bind_res (ensure can_bind (Fails CE_WorkerNotReady)) (\<lambda>_.
     let now = comp_now_sec s;
         s = s\<lparr>cp_SessionBindings := (cp_SessionBindings s)(session \<mapsto> pubkey)\<rparr>;
         s = s\<lparr>cp_WorkerBindings := (cp_WorkerBindings s)(pubkey \<mapsto> session)\<rparr>;
         s = s\<lparr>cp_Sessions := (cp_Sessions s)(session \<mapsto> \<lparr>si_state = Ready, si_ve = 0, si_v_bits = 0,
               si_v_updated_at = now, si_benchmark = \<lparr>p_init = 0, p_instant = 0, bm_iterations = 0,
               working_start_time = now, challenge_time_last = 0\<rparr>, si_cool_down_start = 0,
               si_total_reward = 0\<rparr>)\<rparr>
     in Inr (comp_deposit_event (SessionBound session pubkey) s)))))))"

definition stop_computing :: "'w comp_config \<Rightarrow> h256 \<Rightarrow> 'w comp_state \<Rightarrow> 'w comp_result" where
  "stop_computing cc session s =
     bind_res (ok_or (cp_SessionBindings s session) (Fails CE_SessionNotBound)) (\<lambda>worker.
     bind_res (ok_or (cp_Sessions s session) (Fails CE_SessionNotFound)) (\<lambda>session_info.
     bind_res (ensure (si_state session_info \<noteq> Ready \<and> si_state session_info \<noteq> WorkerCoolingDown)
       (Fails CE_WorkerNotComputing)) (\<lambda>_.
     let now = comp_now_sec s;
         session_info = session_info\<lparr>si_state := WorkerCoolingDown, si_cool_down_start := now\<rparr>;
         s = s\<lparr>cp_Sessions := (cp_Sessions s)(session \<mapsto> session_info)\<rparr>;
         s = s\<lparr>cp_OnlineWorkers := cp_OnlineWorkers s - 1\<rparr>;
         orig_stake = unwrap_or (cp_Stakes s session) 0;
         slashed = snd (SessionInfo_calc_final_stake session_info orig_stake) in
     bind_res (call_handler (OnStopped_on_stopped cc worker orig_stake slashed) s) (\<lambda>s.
     let s = push_comp_worker_event worker Stopped s
     in Inr (comp_deposit_event (WorkerStopped session) s)))))"

definition unbind_session :: "'w comp_config \<Rightarrow> h256 \<Rightarrow> bool \<Rightarrow> 'w comp_state \<Rightarrow> 'w comp_result" where
  "unbind_session cc session notify s =
     bind_res (ensure_session_bound session s) (\<lambda>worker.
     bind_res (ok_or (cp_Sessions s session) Panics) (\<lambda>session_info.
     let force = (\<not> WorkerState_can_unbind (si_state session_info)) in
     bind_res (if force then stop_computing cc session s else Inr s) (\<lambda>s.
     let s = s\<lparr>cp_SessionBindings := (cp_SessionBindings s)(session := None)\<rparr>;
         s = s\<lparr>cp_WorkerBindings := (cp_WorkerBindings s)(worker := None)\<rparr>;
         s = comp_deposit_event (SessionUnbound session worker) s in
     if notify then call_handler (OnUnbound_on_unbound cc worker force) s else Inr s)))"

definition start_computing ::
  "fixed_ops \<Rightarrow> 'w comp_config \<Rightarrow> h256 \<Rightarrow> u128 \<Rightarrow> 'w comp_state \<Rightarrow> 'w comp_result" where
  "start_computing fx cc session stake s =
     bind_res (ok_or (cp_SessionBindings s session) (Fails CE_SessionNotFound)) (\<lambda>worker.
     bind_res (ok_or (cp_Sessions s session) Panics) (\<lambda>info.
     bind_res (ensure (si_state info = Ready) (Fails CE_WorkerNotReady)) (\<lambda>_.
     bind_res (ensure (cp_Stakes s session = None) (Fails CE_InternalErrorCannotStartWithExistingStake)) (\<lambda>_.
     bind_res (ok_or (rg_Workers (cp_registry s) worker) Panics) (\<lambda>worker_info.
     bind_res (ok_or (wi_initial_score worker_info) (Fails CE_BenchmarkMissing)) (\<lambda>p.
     bind_res (ensure (p \<ge> MinInitP cc) (Fails CE_BenchmarkTooLow)) (\<lambda>_.
     bind_res (comp_tokenomic s) (\<lambda>tokenomic.
     bind_res (Tokenomic_minimal_stake fx tokenomic p) (\<lambda>min_stake.
     bind_res (ensure (stake \<ge> min_stake) (Fails CE_InsufficientStake)) (\<lambda>_.
     bind_res (Tokenomic_ve fx tokenomic stake p (wi_confidence_level worker_info)) (\<lambda>ve.
     let v_max = Tokenomic_v_max tokenomic in
     bind_res (ensure (fx_le fx ve v_max) (Fails CE_TooMuchStake)) (\<lambda>_.
     let now = comp_now_sec s;
         s = s\<lparr>cp_Stakes := (cp_Stakes s)(session \<mapsto> stake)\<rparr>;
         info = info\<lparr>si_state := WorkerIdle, si_ve := ve, si_v_bits := ve, si_v_updated_at := now,
                  si_benchmark := (si_benchmark info)\<lparr>p_init := p\<rparr>\<rparr>;
         s = s\<lparr>cp_Sessions := (cp_Sessions s)(session \<mapsto> info)\<rparr>;
         s = s\<lparr>cp_OnlineWorkers := cp_OnlineWorkers s + 1\<rparr>;
         session_id = cp_NextSessionId s;
         s = s\<lparr>cp_NextSessionId := session_id + 1\<rparr>;
         s = push_comp_worker_event worker (Started session_id ve p) s
     in Inr (comp_deposit_event (WorkerStarted session ve p) s)))))))))))))"

section \<open>Messages\<close>

fun report_iterations :: "WorkingReportEvent \<Rightarrow> u64" where
  "report_iterations (Heartbeat _ _ _ iterations) = iterations"
| "report_iterations (HeartbeatV2 _ _ _ iterations _ _) = iterations"

fun report_challenge_time :: "WorkingReportEvent \<Rightarrow> u64" where
  "report_challenge_time (Heartbeat _ _ challenge_time _) = challenge_time"
| "report_challenge_time (HeartbeatV2 _ _ challenge_time _ _ _) = challenge_time"

definition on_working_message_received ::
  "WorkingReportEvent DecodedMessage \<Rightarrow> 'w comp_state \<Rightarrow> 'w comp_result" where
  "on_working_message_received message s =
     (case dm_sender message of
        Worker worker \<Rightarrow>
          bind_res (ensure_worker_bound worker s) (\<lambda>session.
          bind_res (ok_or (cp_Sessions s session) Panics) (\<lambda>session_info.
          bind_res (ok_or (rg_Workers (cp_registry s) worker) Panics) (\<lambda>_.
          let now = comp_now_sec s;
              challenge_time_sec = report_challenge_time (dm_payload message) div 1000 in
          bind_res (ok_or (Benchmark_update now (report_iterations (dm_payload message)) challenge_time_sec
            (si_benchmark session_info)) Panics) (\<lambda>benchmark.
          let session_info = session_info\<lparr>si_benchmark := benchmark\<rparr>;
              s = comp_deposit_event (BenchmarkUpdated session (p_instant benchmark)) s
          in Inr (s\<lparr>cp_Sessions := (cp_Sessions s)(session \<mapsto> session_info)\<rparr>)))))
      | _ \<Rightarrow> Inr s)"

text \<open>The bodies of the loops over offline and recovered workers.\<close>

definition set_session_state ::
  "WorkerState \<Rightarrow> (h256 \<Rightarrow> Comp_Event) \<Rightarrow> WorkerEvent \<Rightarrow> h256 \<Rightarrow> 'w comp_state \<Rightarrow> 'w comp_state" where
  "set_session_state st ev we worker s =
     (case cp_WorkerBindings s worker of
        None \<Rightarrow> s
      | Some account \<Rightarrow>
          (case cp_Sessions s account of
             None \<Rightarrow> s
           | Some session_info \<Rightarrow>
               if \<not> WorkerState_is_computing (si_state session_info) then s
               else let s = s\<lparr>cp_Sessions := (cp_Sessions s)(account \<mapsto> session_info\<lparr>si_state := st\<rparr>)\<rparr>;
                        s = comp_deposit_event (ev account) s
                    in push_comp_worker_event worker we s))"

definition handle_offline :: "h256 \<Rightarrow> 'w comp_state \<Rightarrow> 'w comp_state" where
  "handle_offline = set_session_state WorkerUnresponsive WorkerEnterUnresponsive EnterUnresponsive"

definition handle_recovered :: "h256 \<Rightarrow> 'w comp_state \<Rightarrow> 'w comp_state" where
  "handle_recovered = set_session_state WorkerIdle WorkerExitUnresponsive ExitUnresponsive"

text \<open>
  The settlement of one worker. \<open>debug_assert!\<close> is not part of a release build. On an error the
  changes so far stay, so the result has both.
\<close>

definition try_handle_settle ::
  "fixed_ops \<Rightarrow> 'w comp_config \<Rightarrow> SettleInfo \<Rightarrow> u64 \<Rightarrow> u64 \<Rightarrow> 'w comp_state \<Rightarrow>
   (Comp_Error exn + unit) \<times> 'w comp_state" where
  "try_handle_settle fx cc info now emit_ts s =
     (case cp_WorkerBindings s (si_pubkey info) of
        None \<Rightarrow> (Inr (), s)
      | Some account \<Rightarrow>
     (case cp_Sessions s account of
        None \<Rightarrow> (Inl (Fails CE_SessionNotFound), s)
      | Some session_info \<Rightarrow>
     if si_v_updated_at session_info \<ge> emit_ts
     then (Inr (), comp_deposit_event (SessionSettlementDropped account (si_v info) (si_payout info)) s)
     else
     (case SessionStats_on_reward fx (si_payout info)
        (session_info\<lparr>si_v_bits := si_v info, si_v_updated_at := now\<rparr>) of
        Inl e \<Rightarrow> (Inl e, s)
      | Inr session_info \<Rightarrow>
     let s = s\<lparr>cp_Sessions := (cp_Sessions s)(account \<mapsto> session_info)\<rparr> in
     (case u128_from_bits fx (si_treasury info) of
        Inl e \<Rightarrow> (Inl e, s)
      | Inr treasury_deposit \<Rightarrow>
     (case withdraw_imbalance_from_subsidy_pool cc treasury_deposit s of
        Inl e \<Rightarrow> (Inl e, s)
      | Inr (imbalance, s) \<Rightarrow>
     (case call_handler (OnTreasurySettled_on_unbalanced cc imbalance) s of
        Inl e \<Rightarrow> (Inl e, s)
      | Inr s \<Rightarrow> (Inr (), comp_deposit_event (SessionSettled account (si_v info) (si_payout info)) s)))))))"

definition settle_or_report ::
  "fixed_ops \<Rightarrow> 'w comp_config \<Rightarrow> u64 \<Rightarrow> u64 \<Rightarrow> 'w comp_state \<Rightarrow> SettleInfo \<Rightarrow> 'w comp_result" where
  "settle_or_report fx cc now emit_ts s info =
     (case try_handle_settle fx cc info now emit_ts s of
        (Inl Panics, _) \<Rightarrow> Inl Panics
      | (Inl (Fails _), s) \<Rightarrow> Inr (comp_deposit_event (InternalErrorWorkerSettleFailed (si_pubkey info)) s)
      | (Inr _, s) \<Rightarrow> Inr s)"

definition Comp_on_gk_message_received ::
  "fixed_ops \<Rightarrow> 'w comp_config \<Rightarrow> WorkingInfoUpdateEvent DecodedMessage \<Rightarrow> 'w comp_state \<Rightarrow> 'w comp_result" where
  "Comp_on_gk_message_received fx cc message s =
     (if \<not> MessageOrigin_is_gatekeeper (dm_sender message) then Inl (Fails CE_BadSender)
      else let event = dm_payload message in
        if WorkingInfoUpdateEvent_is_empty event then Inr s
        else let emit_ts = wi_timestamp_ms event div 1000;
                 now = comp_now_sec s;
                 s = fold handle_offline (wi_offline event) s;
                 s = fold handle_recovered (wi_recovered_to_online event) s in
             bind_res (foldM_res (settle_or_report fx cc now emit_ts) s (wi_settle event)) (\<lambda>s.
               call_handler (OnReward_on_reward cc (wi_settle event)) s))"

section \<open>Extrinsics\<close>

definition comp_ensure_root :: "RawOrigin \<Rightarrow> Comp_Error exn + unit" where
  "comp_ensure_root origin = ensure (origin = Root) (Fails CE_BadOrigin)"

fun comp_ensure_signed :: "RawOrigin \<Rightarrow> Comp_Error exn + h256" where
  "comp_ensure_signed (Signed who) = Inr who"
| "comp_ensure_signed _ = Inl (Fails CE_BadOrigin)"

definition set_cool_down_expiration :: "RawOrigin \<Rightarrow> u64 \<Rightarrow> 'w comp_state \<Rightarrow> 'w comp_result" where
  "set_cool_down_expiration origin period s =
     bind_res (comp_ensure_root origin) (\<lambda>_.
       Inr (comp_deposit_event (CoolDownExpirationChanged period) (s\<lparr>cp_CoolDownPeriod := period\<rparr>)))"

definition Computation_unbind :: "'w comp_config \<Rightarrow> RawOrigin \<Rightarrow> h256 \<Rightarrow> 'w comp_state \<Rightarrow> 'w comp_result" where
  "Computation_unbind cc origin session s =
     bind_res (comp_ensure_signed origin) (\<lambda>who.
     bind_res (ensure_session_bound session s) (\<lambda>pubkey.
     bind_res (ok_or (rg_Workers (cp_registry s) pubkey) (Fails CE_WorkerNotRegistered)) (\<lambda>worker.
     bind_res (ensure (wi_operator worker = Some who) (Fails CE_BadSender)) (\<lambda>_.
       unbind_session cc session True s))))"

definition force_heartbeat :: "RawOrigin \<Rightarrow> 'w comp_state \<Rightarrow> 'w comp_result" where
  "force_heartbeat origin s =
     bind_res (comp_ensure_root origin) (\<lambda>_.
       Inr (comp_push_message (Comp_system (HeartbeatChallenge_ev
         \<lparr>hc_seed = 0, hc_online_target = - 1\<rparr>)) s))"

definition force_start_computing ::
  "fixed_ops \<Rightarrow> 'w comp_config \<Rightarrow> RawOrigin \<Rightarrow> h256 \<Rightarrow> u128 \<Rightarrow> 'w comp_state \<Rightarrow> 'w comp_result" where
  "force_start_computing fx cc origin session stake s =
     bind_res (comp_ensure_root origin) (\<lambda>_. start_computing fx cc session stake s)"

definition force_stop_computing :: "'w comp_config \<Rightarrow> RawOrigin \<Rightarrow> h256 \<Rightarrow> 'w comp_state \<Rightarrow> 'w comp_result" where
  "force_stop_computing cc origin session s =
     bind_res (comp_ensure_root origin) (\<lambda>_. stop_computing cc session s)"

definition update_tokenomic ::
  "'w comp_config \<Rightarrow> RawOrigin \<Rightarrow> TokenomicParams \<Rightarrow> 'w comp_state \<Rightarrow> 'w comp_result" where
  "update_tokenomic cc origin new_params s =
     bind_res (ensure (UpdateTokenomicOrigin cc origin) (Fails CE_BadOrigin)) (\<lambda>_.
       Inr (s\<lparr>cp_ScheduledTokenomicUpdate := Some new_params\<rparr>))"

definition set_heartbeat_paused :: "'w comp_config \<Rightarrow> RawOrigin \<Rightarrow> bool \<Rightarrow> 'w comp_state \<Rightarrow> 'w comp_result" where
  "set_heartbeat_paused cc origin paused s =
     bind_res (ensure (cc_GovernanceOrigin cc origin) (Fails CE_BadOrigin)) (\<lambda>_.
       Inr (s\<lparr>cp_HeartbeatPaused := paused\<rparr>))"

definition BUDGET_SAFE_MULTIPLIER :: u128 where
  "BUDGET_SAFE_MULTIPLIER = 2"

definition set_budget_per_block ::
  "'w comp_config \<Rightarrow> RawOrigin \<Rightarrow> u64 \<Rightarrow> u32 \<Rightarrow> u128 \<Rightarrow> 'w comp_state \<Rightarrow> 'w comp_result" where
  "set_budget_per_block cc origin nonce block_number budget s =
     bind_res (ensure (SetBudgetOrigins cc origin) (Fails CE_BadOrigin)) (\<lambda>_.
     bind_res (ensure (nonce > cp_BudgetUpdateNonce s) (Fails CE_NonceIndexInvalid)) (\<lambda>_.
     bind_res (ensure (block_number > cp_LastBudgetUpdateBlock s) (Fails CE_BudgetUpdateBlockInvalid)) (\<lambda>_.
     bind_res (ensure (budget \<le> cp_MaxBudgetLimit s * BUDGET_SAFE_MULTIPLIER)
       (Fails CE_BudgetExceedMaxLimit)) (\<lambda>_.
     bind_res (ok_or (cp_TokenomicParameters s) (Fails CE_InternalErrorBadTokenomicParameters)) (\<lambda>tokenomic.
     let s = s\<lparr>cp_BudgetUpdateNonce := nonce\<rparr>;
         s = s\<lparr>cp_LastBudgetUpdateBlock := block_number\<rparr>;
         tokenomic = tokenomic\<lparr>tp_budget_per_block := budget\<rparr>;
         s = update_tokenomic_parameters tokenomic s
     in Inr (comp_deposit_event (BudgetUpdated nonce budget) s))))))"

definition update_contract_root ::
  "'w comp_config \<Rightarrow> RawOrigin \<Rightarrow> h256 \<Rightarrow> 'w comp_state \<Rightarrow> 'w comp_result" where
  "update_contract_root cc origin account_id s =
     bind_res (ensure (SetContractRootOrigins cc origin) (Fails CE_BadOrigin)) (\<lambda>_.
       Inr (s\<lparr>cp_ContractAccount := account_id\<rparr>))"

section \<open>Hooks and genesis\<close>

definition DEFAULT_EXPECTED_HEARTBEAT_COUNT :: u32 where
  "DEFAULT_EXPECTED_HEARTBEAT_COUNT = 20"

definition heartbeat_challenge :: "u32f32_ops \<Rightarrow> 'w comp_config \<Rightarrow> 'w comp_state \<Rightarrow> 'w comp_result" where
  "heartbeat_challenge q cc s =
     (if cp_HeartbeatPaused s then Inr s
      else let seed = cc_random cc (cp_rest s);
               online_workers = cp_OnlineWorkers s;
               num_tx = unwrap_or (cp_ExpectedHeartbeatCount s) DEFAULT_EXPECTED_HEARTBEAT_COUNT in
           bind_res (pow_target q num_tx online_workers (ExpectedBlockTimeSec cc)) (\<lambda>online_target.
             Inr (comp_push_message (Comp_system (HeartbeatChallenge_ev
               \<lparr>hc_seed = seed, hc_online_target = online_target\<rparr>)) s)))"

definition Computation_on_finalize :: "u32f32_ops \<Rightarrow> 'w comp_config \<Rightarrow> 'w comp_state \<Rightarrow> 'w comp_result" where
  "Computation_on_finalize q cc s =
     bind_res (heartbeat_challenge q cc s) (\<lambda>s.
       case cp_ScheduledTokenomicUpdate s of
         None \<Rightarrow> Inr s
       | Some tokenomic \<Rightarrow>
           Inr (update_tokenomic_parameters tokenomic (s\<lparr>cp_ScheduledTokenomicUpdate := None\<rparr>)))"

record comp_genesis =
  cool_down_period_sec :: u32
  tokenomic_parameters :: TokenomicParams

text \<open>
  The default parameters, in bits of \<open>U64F64\<close>: \<open>fp!\<close> rounds a decimal literal (here a quotient) to the
  nearest multiple of \<open>2\<^sup>-\<^sup>6\<^sup>4\<close>; a product or quotient with an integer works on the bits.
\<close>

definition Comp_GenesisConfig_default :: comp_genesis where
  "Comp_GenesisConfig_default =
     (let block_sec = 12;
          hour_sec = 3600;
          day_sec = 24 * hour_sec;
          year_sec = 365 * day_sec;
          pha_rate = fp_literal 1 1
      in \<lparr>cool_down_period_sec = 604800,
          tokenomic_parameters = \<lparr>
            tp_pha_rate = pha_rate,
            tp_rho = fp_literal 1000000666600231 (10 ^ 15),
            tp_budget_per_block = fp_literal 720000 1 * block_sec div day_sec,
            tp_v_max = fp_literal 30000 1,
            tp_cost_k = fp_div (fp_literal 415625 (10 ^ 7) * block_sec div year_sec) pha_rate,
            tp_cost_b = fp_div (fp_literal 8859375 (10 ^ 5) * block_sec div year_sec) pha_rate,
            tp_slash_rate = fp_literal 1 1000 * block_sec div hour_sec,
            tp_treasury_ratio = fp_literal 2 10,
            tp_heartbeat_window = 10,
            tp_rig_k = fp_div (fp_literal 3 10) pha_rate,
            tp_rig_b = fp_div (fp_literal 0 1) pha_rate,
            tp_re = fp_literal 13 10,
            tp_k = fp_literal 100 1,
            tp_kappa = fp_literal 1 1\<rparr>\<rparr>)"

definition Comp_GenesisConfig_build :: "comp_genesis \<Rightarrow> 'w comp_state \<Rightarrow> 'w comp_state" where
  "Comp_GenesisConfig_build g s =
     (let s = s\<lparr>cp_CoolDownPeriod := ucast (cool_down_period_sec g)\<rparr>;
          s = s\<lparr>cp_TokenomicParameters := Some (tokenomic_parameters g)\<rparr>
      in s\<lparr>cp_queued := cp_queued s @ [Comp_tokenomic (tokenomic_parameters g)]\<rparr>)"

definition DefaultContractAccount :: h256 where
  "DefaultContractAccount = 0x9e6399cd577e8ac536bdc017675f747b2d1893ad9cc8c69fd17eef73d4e6e51e"

text \<open>Storage before genesis: every item at its default, over a registry and the rest of the state.\<close>

definition comp_empty :: "registry_state \<Rightarrow> 'w \<Rightarrow> 'w comp_state" where
  "comp_empty r w = \<lparr>cp_registry = r, cp_TokenomicParameters = None, cp_ScheduledTokenomicUpdate = None,
     cp_OnlineWorkers = 0, cp_ExpectedHeartbeatCount = None, cp_HeartbeatPaused = True,
     cp_MaxBudgetLimit = 1729382256910270464000, cp_BudgetUpdateNonce = 0, cp_LastBudgetUpdateBlock = 0,
     cp_ContractAccount = DefaultContractAccount, cp_Sessions = Map.empty, cp_SessionBindings = Map.empty,
     cp_WorkerBindings = Map.empty, cp_CoolDownPeriod = 0, cp_NextSessionId = 0, cp_Stakes = Map.empty,
     cp_events = [], cp_out = [], cp_queued = [], cp_rest = w\<rparr>"

section \<open>Runs\<close>

datatype Comp_Call =
    Call_set_cool_down_expiration u64
  | Call_unbind h256
  | Call_force_heartbeat
  | Call_force_start_computing h256 u128
  | Call_force_stop_computing h256
  | Call_update_tokenomic TokenomicParams
  | Call_set_heartbeat_paused bool
  | Call_set_budget_per_block u64 u32 u128
  | Call_update_contract_root h256

text \<open>
  What can happen: an extrinsic, a call of the interface other pallets use, a message, the end of a
  block, a step of the registry (which includes a new block), or any change of the rest of the state.
\<close>

datatype ('w) comp_input =
    CI_call RawOrigin Comp_Call
  | CI_bind h256 h256
  | CI_unbind_session h256 bool
  | CI_start_computing h256 u128
  | CI_stop_computing h256
  | CI_reclaim h256 bool
  | CI_heartbeat "WorkingReportEvent DecodedMessage"
  | CI_gatekeeper "WorkingInfoUpdateEvent DecodedMessage"
  | CI_finalize
  | CI_registry registry_input
  | CI_rest 'w

record ('w, 'o) comp_env =
  ce_fx :: fixed_ops
  ce_q :: u32f32_ops
  ce_cc :: "'w comp_config"
  ce_registry :: "'o registry_config"

fun comp_dispatch_call ::
  "('w, 'o) comp_env \<Rightarrow> RawOrigin \<Rightarrow> Comp_Call \<Rightarrow> 'w comp_state \<Rightarrow> 'w comp_result" where
  "comp_dispatch_call e o1 (Call_set_cool_down_expiration p) s = set_cool_down_expiration o1 p s"
| "comp_dispatch_call e o1 (Call_unbind a) s = Computation_unbind (ce_cc e) o1 a s"
| "comp_dispatch_call e o1 Call_force_heartbeat s = force_heartbeat o1 s"
| "comp_dispatch_call e o1 (Call_force_start_computing a x) s =
     force_start_computing (ce_fx e) (ce_cc e) o1 a x s"
| "comp_dispatch_call e o1 (Call_force_stop_computing a) s = force_stop_computing (ce_cc e) o1 a s"
| "comp_dispatch_call e o1 (Call_update_tokenomic p) s = update_tokenomic (ce_cc e) o1 p s"
| "comp_dispatch_call e o1 (Call_set_heartbeat_paused b) s = set_heartbeat_paused (ce_cc e) o1 b s"
| "comp_dispatch_call e o1 (Call_set_budget_per_block n b v) s = set_budget_per_block (ce_cc e) o1 n b v s"
| "comp_dispatch_call e o1 (Call_update_contract_root a) s = update_contract_root (ce_cc e) o1 a s"

fun comp_apply :: "('w, 'o) comp_env \<Rightarrow> 'w comp_input \<Rightarrow> 'w comp_state \<Rightarrow> 'w comp_result" where
  "comp_apply e (CI_call o1 c) s = comp_dispatch_call e o1 c s"
| "comp_apply e (CI_bind a w) s = Computation_bind (ce_cc e) a w s"
| "comp_apply e (CI_unbind_session a n) s = unbind_session (ce_cc e) a n s"
| "comp_apply e (CI_start_computing a x) s = start_computing (ce_fx e) (ce_cc e) a x s"
| "comp_apply e (CI_stop_computing a) s = stop_computing (ce_cc e) a s"
| "comp_apply e (CI_reclaim a c) s = bind_res (reclaim a c s) (\<lambda>(_, s). Inr s)"
| "comp_apply e (CI_heartbeat m) s = on_working_message_received m s"
| "comp_apply e (CI_gatekeeper m) s = Comp_on_gk_message_received (ce_fx e) (ce_cc e) m s"
| "comp_apply e CI_finalize s = Computation_on_finalize (ce_q e) (ce_cc e) s"
| "comp_apply e (CI_registry i) s = Inr (s\<lparr>cp_registry := registry_step (ce_registry e) (cp_registry s) i\<rparr>)"
| "comp_apply e (CI_rest w) s = Inr (s\<lparr>cp_rest := w\<rparr>)"

text \<open>A failed input leaves the storage, as does one that panics (its block is not produced).\<close>

definition comp_step :: "('w, 'o) comp_env \<Rightarrow> 'w comp_state \<Rightarrow> 'w comp_input \<Rightarrow> 'w comp_state" where
  "comp_step e s i = (case comp_apply e i s of Inl _ \<Rightarrow> s | Inr s' \<Rightarrow> s')"

definition comp_run :: "('w, 'o) comp_env \<Rightarrow> 'w comp_state \<Rightarrow> 'w comp_input list \<Rightarrow> 'w comp_state" where
  "comp_run e s is = fold (\<lambda>i s. comp_step e s i) is s"

end
