(* ===== verification/Session_Lifecycle.thy ===== *)
theory Session_Lifecycle
  imports Pallet_Computation
begin

text \<open>
  The life of computing sessions. An abstract machine says what can happen to a session (bind, start,
  become unresponsive, recover, stop, be reclaimed, unbind), with its guards; every input of the pallet
  \<open>computation.rs\<close> refines a sequence of steps of that machine whose labels the input determines.
  Invariants are proved on the machine, by rule induction, and transferred.
\<close>

section \<open>The abstract machine\<close>

record life =
  lf_worker :: "h256 \<Rightarrow> h256 option"
  lf_session :: "h256 \<Rightarrow> h256 option"
  lf_phase :: "h256 \<Rightarrow> (WorkerState \<times> u64) option"
  lf_stake :: "h256 \<Rightarrow> u128 option"
  lf_online :: u32
  lf_next :: u32
  lf_started :: "u32 list"
  lf_registered :: "h256 set"
  lf_now :: u64
  lf_period :: u64

datatype life_label =
    L_bind h256 h256
  | L_unbind h256
  | L_start h256 u128
  | L_stop h256
  | L_offline h256
  | L_recover h256
  | L_reclaim h256 bool
  | L_registry
  | L_period u64

inductive life_step :: "life_label \<Rightarrow> life \<Rightarrow> life \<Rightarrow> bool" where
  ls_bind: "w \<in> lf_registered p \<Longrightarrow> lf_worker p a = None \<Longrightarrow> lf_session p w = None \<Longrightarrow>
    \<forall>ph. lf_phase p a = Some ph \<longrightarrow> fst ph = Ready \<Longrightarrow>
    life_step (L_bind a w) p (p\<lparr>lf_worker := (lf_worker p)(a \<mapsto> w), lf_session := (lf_session p)(w \<mapsto> a),
      lf_phase := (lf_phase p)(a \<mapsto> (Ready, 0))\<rparr>)"
| ls_unbind: "lf_worker p a = Some w \<Longrightarrow> lf_phase p a = Some (st, t) \<Longrightarrow> st = Ready \<or> st = WorkerCoolingDown \<Longrightarrow>
    life_step (L_unbind a) p (p\<lparr>lf_worker := (lf_worker p)(a := None), lf_session := (lf_session p)(w := None)\<rparr>)"
| ls_start: "lf_worker p a = Some w \<Longrightarrow> lf_phase p a = Some (Ready, t) \<Longrightarrow> lf_stake p a = None \<Longrightarrow>
    life_step (L_start a x) p (p\<lparr>lf_phase := (lf_phase p)(a \<mapsto> (WorkerIdle, t)),
      lf_stake := (lf_stake p)(a \<mapsto> x), lf_online := lf_online p + 1, lf_next := lf_next p + 1,
      lf_started := lf_started p @ [lf_next p]\<rparr>)"
| ls_stop: "lf_worker p a = Some w \<Longrightarrow> lf_phase p a = Some (st, t) \<Longrightarrow> st \<noteq> Ready \<Longrightarrow> st \<noteq> WorkerCoolingDown \<Longrightarrow>
    life_step (L_stop a) p (p\<lparr>lf_phase := (lf_phase p)(a \<mapsto> (WorkerCoolingDown, lf_now p)),
      lf_online := lf_online p - 1\<rparr>)"
| ls_offline: "lf_session p w = Some a \<Longrightarrow> lf_phase p a = Some (st, t) \<Longrightarrow> st = WorkerIdle \<or> st = WorkerUnresponsive \<Longrightarrow>
    life_step (L_offline w) p (p\<lparr>lf_phase := (lf_phase p)(a \<mapsto> (WorkerUnresponsive, t))\<rparr>)"
| ls_recover: "lf_session p w = Some a \<Longrightarrow> lf_phase p a = Some (st, t) \<Longrightarrow> st = WorkerIdle \<or> st = WorkerUnresponsive \<Longrightarrow>
    life_step (L_recover w) p (p\<lparr>lf_phase := (lf_phase p)(a \<mapsto> (WorkerIdle, t))\<rparr>)"
| ls_reclaim: "lf_phase p a = Some (WorkerCoolingDown, t) \<Longrightarrow> c \<longrightarrow> lf_period p \<le> lf_now p - t \<Longrightarrow>
    life_step (L_reclaim a c) p (p\<lparr>lf_phase := (lf_phase p)(a \<mapsto> (Ready, 0)), lf_stake := (lf_stake p)(a := None)\<rparr>)"
| ls_registry: "lf_registered p \<subseteq> W \<Longrightarrow> life_step L_registry p (p\<lparr>lf_registered := W, lf_now := t\<rparr>)"
| ls_period: "life_step (L_period d) p (p\<lparr>lf_period := d\<rparr>)"

inductive_simps life_step_bind: "life_step (L_bind a w) p q"
inductive_simps life_step_unbind: "life_step (L_unbind a) p q"
inductive_simps life_step_start: "life_step (L_start a x) p q"
inductive_simps life_step_stop: "life_step (L_stop a) p q"
inductive_simps life_step_offline: "life_step (L_offline w) p q"
inductive_simps life_step_recover: "life_step (L_recover w) p q"
inductive_simps life_step_reclaim: "life_step (L_reclaim a c) p q"
inductive_simps life_step_registry: "life_step L_registry p q"
inductive_simps life_step_period: "life_step (L_period d) p q"

definition life_reach :: "life_label set \<Rightarrow> life \<Rightarrow> life \<Rightarrow> bool" where
  "life_reach L = (\<lambda>p q. \<exists>l \<in> L. life_step l p q)\<^sup>*\<^sup>*"

lemma life_reach_refl [simp, intro]: "life_reach L p p"
  by (simp add: life_reach_def)

lemma life_reach_step: "life_step l p q \<Longrightarrow> l \<in> L \<Longrightarrow> life_reach L p q"
  unfolding life_reach_def by blast

lemma life_reach_trans [trans]: "life_reach L p q \<Longrightarrow> life_reach L q r \<Longrightarrow> life_reach L p r"
  unfolding life_reach_def by simp

lemma life_reach_mono: "life_reach L p q \<Longrightarrow> L \<subseteq> M \<Longrightarrow> life_reach M p q"
  unfolding life_reach_def by (erule rtranclp_mono [THEN predicate2D, rotated]) blast

text \<open>An invariant of the steps with labels in a set holds along the paths with these labels.\<close>

lemma life_reach_induct [consumes 1, case_names step]:
  assumes "life_reach L p q" and "\<And>l p q. l \<in> L \<Longrightarrow> life_step l p q \<Longrightarrow> P p \<Longrightarrow> P q" and "P p"
  shows "P q"
  using assms(1) unfolding life_reach_def by (induction rule: rtranclp_induct) (auto intro: assms)

section \<open>The abstraction\<close>

fun started_id :: "Comp_message \<Rightarrow> u32 list" where
  "started_id (Comp_system (WorkerEvent_ev _ (Started session_id _ _))) = [session_id]"
| "started_id _ = []"

definition life_abs :: "'w comp_state \<Rightarrow> life" where
  "life_abs s = \<lparr>lf_worker = cp_SessionBindings s, lf_session = cp_WorkerBindings s,
     lf_phase = (\<lambda>a. map_option (\<lambda>i. (si_state i, si_cool_down_start i)) (cp_Sessions s a)),
     lf_stake = cp_Stakes s, lf_online = cp_OnlineWorkers s, lf_next = cp_NextSessionId s,
     lf_started = concat (map started_id (cp_out s)), lf_registered = dom (rg_Workers (cp_registry s)),
     lf_now = comp_now_sec s, lf_period = cp_CoolDownPeriod s\<rparr>"

lemma life_abs_sel [simp]:
  "lf_worker (life_abs s) = cp_SessionBindings s"
  "lf_session (life_abs s) = cp_WorkerBindings s"
  "lf_phase (life_abs s) a = map_option (\<lambda>i. (si_state i, si_cool_down_start i)) (cp_Sessions s a)"
  "lf_stake (life_abs s) = cp_Stakes s"
  "lf_online (life_abs s) = cp_OnlineWorkers s"
  "lf_next (life_abs s) = cp_NextSessionId s"
  "lf_started (life_abs s) = concat (map started_id (cp_out s))"
  "lf_registered (life_abs s) = dom (rg_Workers (cp_registry s))"
  "lf_now (life_abs s) = comp_now_sec s"
  "lf_period (life_abs s) = cp_CoolDownPeriod s"
  by (simp_all add: life_abs_def)

text \<open>The steps an input may take.\<close>

fun input_labels :: "'w comp_input \<Rightarrow> life_label set" where
  "input_labels (CI_call _ (Call_set_cool_down_expiration d)) = {L_period d}"
| "input_labels (CI_call _ (Call_unbind a)) = {L_stop a, L_unbind a}"
| "input_labels (CI_call _ (Call_force_start_computing a x)) = {L_start a x}"
| "input_labels (CI_call _ (Call_force_stop_computing a)) = {L_stop a}"
| "input_labels (CI_call _ _) = {}"
| "input_labels (CI_bind a w) = {L_bind a w}"
| "input_labels (CI_unbind_session a _) = {L_stop a, L_unbind a}"
| "input_labels (CI_start_computing a x) = {L_start a x}"
| "input_labels (CI_stop_computing a) = {L_stop a}"
| "input_labels (CI_reclaim a c) = {L_reclaim a c}"
| "input_labels (CI_gatekeeper m) = L_offline ` set (wi_offline (dm_payload m)) \<union>
     L_recover ` set (wi_recovered_to_online (dm_payload m))"
| "input_labels (CI_registry _) = {L_registry}"
| "input_labels _ = {}"

section \<open>Simulation\<close>

lemma life_abs_frame [simp]:
  "life_abs (comp_deposit_event ev s) = life_abs s"
  "life_abs (s\<lparr>cp_rest := r\<rparr>) = life_abs s"
  "life_abs (s\<lparr>cp_TokenomicParameters := t\<rparr>) = life_abs s"
  "life_abs (s\<lparr>cp_ScheduledTokenomicUpdate := t\<rparr>) = life_abs s"
  "life_abs (s\<lparr>cp_HeartbeatPaused := b\<rparr>) = life_abs s"
  "life_abs (s\<lparr>cp_BudgetUpdateNonce := n\<rparr>) = life_abs s"
  "life_abs (s\<lparr>cp_LastBudgetUpdateBlock := bn\<rparr>) = life_abs s"
  "life_abs (s\<lparr>cp_ContractAccount := ca\<rparr>) = life_abs s"
  "life_abs (comp_push_message m s) = (life_abs s)\<lparr>lf_started := lf_started (life_abs s) @ started_id m\<rparr>"
  "life_abs (push_comp_worker_event w we s) =
     (life_abs s)\<lparr>lf_started := lf_started (life_abs s) @ started_id (Comp_system (WorkerEvent_ev w we))\<rparr>"
  by (simp_all add: life_abs_def comp_deposit_event_def comp_push_message_def comp_now_sec_def
    push_comp_worker_event_def SystemEvent_new_worker_event_def)

lemma life_abs_started [simp]: "(life_abs s)\<lparr>lf_started := concat (map started_id (cp_out s))\<rparr> = life_abs s"
  by (simp add: life_abs_def)

lemma comp_deposit_event_sel [simp]: "cp_Sessions (comp_deposit_event ev s) = cp_Sessions s"
  by (simp add: comp_deposit_event_def)

lemma life_abs_upd [simp]:
  "life_abs (s\<lparr>cp_SessionBindings := b\<rparr>) = (life_abs s)\<lparr>lf_worker := b\<rparr>"
  "life_abs (s\<lparr>cp_WorkerBindings := b\<rparr>) = (life_abs s)\<lparr>lf_session := b\<rparr>"
  "life_abs (s\<lparr>cp_Stakes := st\<rparr>) = (life_abs s)\<lparr>lf_stake := st\<rparr>"
  "life_abs (s\<lparr>cp_OnlineWorkers := n\<rparr>) = (life_abs s)\<lparr>lf_online := n\<rparr>"
  "life_abs (s\<lparr>cp_NextSessionId := n\<rparr>) = (life_abs s)\<lparr>lf_next := n\<rparr>"
  "life_abs (s\<lparr>cp_CoolDownPeriod := d\<rparr>) = (life_abs s)\<lparr>lf_period := d\<rparr>"
  "life_abs (s\<lparr>cp_Sessions := f\<rparr>) =
     (life_abs s)\<lparr>lf_phase := (\<lambda>a. map_option (\<lambda>i. (si_state i, si_cool_down_start i)) (f a))\<rparr>"
  by (simp_all add: life_abs_def comp_now_sec_def fun_eq_iff)

lemma call_handler_abs: "call_handler h s = Inr s' \<Longrightarrow> life_abs s' = life_abs s"
  by (auto simp: call_handler_def split: option.splits)

lemma isl_ok_or [simp]: "isl (ok_or m e) \<longleftrightarrow> m = None"
  by (cases m) simp_all

lemma bind_sim: "Computation_bind cc a w s = Inr s' \<Longrightarrow> life_step (L_bind a w) (life_abs s) (life_abs s')"
  unfolding Computation_bind_def life_step_bind
  by (auto simp: Let_def ensure_session_bound_def ensure_worker_bound_def fun_eq_iff
    split: option.splits intro!: life.equality)

lemma stop_sim: "stop_computing cc a s = Inr s' \<Longrightarrow> life_step (L_stop a) (life_abs s) (life_abs s')"
  unfolding stop_computing_def life_step_stop
  by (auto simp: Let_def fun_eq_iff intro!: life.equality dest!: call_handler_abs)

lemma start_sim: "start_computing fx cc a x s = Inr s' \<Longrightarrow> life_step (L_start a x) (life_abs s) (life_abs s')"
  unfolding start_computing_def life_step_start
  by (auto simp: Let_def fun_eq_iff intro!: life.equality)

lemma reclaim_sim:
  "reclaim a c s = Inr (r, s') \<Longrightarrow> life_step (L_reclaim a c) (life_abs s) (life_abs s')"
  unfolding reclaim_def life_step_reclaim can_reclaim_def
  by (auto simp: Let_def fun_eq_iff intro!: life.equality split: if_splits)

lemma offline_sim: "life_reach {L_offline w} (life_abs s) (life_abs (handle_offline w s))"
  by (auto simp: handle_offline_def set_session_state_def WorkerState_is_computing_def Let_def fun_eq_iff
    life_step_offline intro!: life_reach_step life.equality split: option.split)

lemma recovered_sim: "life_reach {L_recover w} (life_abs s) (life_abs (handle_recovered w s))"
  by (auto simp: handle_recovered_def set_session_state_def WorkerState_is_computing_def Let_def fun_eq_iff
    life_step_recover intro!: life_reach_step life.equality split: option.split)

lemma fold_sim:
  assumes "\<And>w s. life_reach {l w} (life_abs s) (life_abs (f w s))"
  shows "life_reach (l ` set ws) (life_abs s) (life_abs (fold f ws s))"
proof (induction ws arbitrary: s)
  case (Cons w ws)
  have "life_reach (l ` set (w # ws)) (life_abs s) (life_abs (f w s))"
    by (rule life_reach_mono [OF assms]) simp
  also have "life_reach (l ` set (w # ws)) (life_abs (f w s)) (life_abs (fold f ws (f w s)))"
    by (rule life_reach_mono [OF Cons.IH]) auto
  finally show ?case by simp
qed simp

lemma unbind_session_InrE:
  assumes "unbind_session cc a n s = Inr s'"
  obtains w i s1 r where "cp_SessionBindings s a = Some w" and "cp_Sessions s a = Some i"
    and "(if \<not> WorkerState_can_unbind (si_state i) then stop_computing cc a s else Inr s) = Inr s1"
    and "s' = comp_deposit_event (SessionUnbound a w) (s1\<lparr>cp_SessionBindings := (cp_SessionBindings s1)(a := None),
      cp_WorkerBindings := (cp_WorkerBindings s1)(w := None)\<rparr>)\<lparr>cp_rest := r\<rparr>"
proof -
  from assms obtain w i s1 where w: "cp_SessionBindings s a = Some w" "cp_Sessions s a = Some i"
    and s1: "(if \<not> WorkerState_can_unbind (si_state i) then stop_computing cc a s else Inr s) = Inr s1"
    and n: "(if n then call_handler (OnUnbound_on_unbound cc w (\<not> WorkerState_can_unbind (si_state i)))
        (comp_deposit_event (SessionUnbound a w) (s1\<lparr>cp_SessionBindings := (cp_SessionBindings s1)(a := None),
          cp_WorkerBindings := (cp_WorkerBindings s1)(w := None)\<rparr>))
      else Inr (comp_deposit_event (SessionUnbound a w) (s1\<lparr>cp_SessionBindings := (cp_SessionBindings s1)(a := None),
          cp_WorkerBindings := (cp_WorkerBindings s1)(w := None)\<rparr>))) = Inr s'"
    unfolding unbind_session_def ensure_session_bound_def Let_def bind_res_eq_Inr ok_or_eq_Inr
    by (auto cong: if_cong)
  have "\<exists>r. s' = comp_deposit_event (SessionUnbound a w) (s1\<lparr>cp_SessionBindings := (cp_SessionBindings s1)(a := None),
      cp_WorkerBindings := (cp_WorkerBindings s1)(w := None)\<rparr>)\<lparr>cp_rest := r\<rparr>"
  proof (cases n)
    case False
    then show ?thesis using n
      by (intro exI [of _ "cp_rest s1"]) (auto simp: comp_deposit_event_def intro!: comp_state.equality)
  qed (use n in \<open>auto simp: call_handler_def split: option.splits\<close>)
  then show thesis using that w s1 by blast
qed

lemma unbind_sim:
  assumes "unbind_session cc a n s = Inr s'"
  shows "life_reach {L_stop a, L_unbind a} (life_abs s) (life_abs s')"
proof -
  from unbind_session_InrE [OF assms] obtain w i s1 r
    where w: "cp_SessionBindings s a = Some w" and i: "cp_Sessions s a = Some i"
    and s1: "(if \<not> WorkerState_can_unbind (si_state i) then stop_computing cc a s else Inr s) = Inr s1"
    and n: "s' = comp_deposit_event (SessionUnbound a w) (s1\<lparr>cp_SessionBindings := (cp_SessionBindings s1)(a := None),
      cp_WorkerBindings := (cp_WorkerBindings s1)(w := None)\<rparr>)\<lparr>cp_rest := r\<rparr>" .
  have s': "life_abs s' = (life_abs s1)\<lparr>lf_worker := (cp_SessionBindings s1)(a := None),
      lf_session := (cp_WorkerBindings s1)(w := None)\<rparr>"
    by (simp add: n)
  have r: "life_reach {L_stop a, L_unbind a} (life_abs s) (life_abs s1)"
    using s1 by (auto intro: life_reach_step stop_sim split: if_splits)
  have "cp_SessionBindings s1 a = Some w \<and> (\<exists>st t. lf_phase (life_abs s1) a = Some (st, t) \<and>
    (st = Ready \<or> st = WorkerCoolingDown))"
  proof (cases "WorkerState_can_unbind (si_state i)")
    case True
    then show ?thesis using s1 w i by (simp add: WorkerState_can_unbind_def)
  next
    case False
    then have "life_step (L_stop a) (life_abs s) (life_abs s1)" using s1 by (simp add: stop_sim)
    then show ?thesis using w
      by (auto simp: life_step_stop simp del: life_abs_sel simp flip: life_abs_sel(1))
  qed
  then have "life_step (L_unbind a) (life_abs s1) (life_abs s')"
    unfolding s' life_step_unbind by (auto simp del: life_abs_sel(3))
  then show ?thesis by (intro life_reach_trans [OF r] life_reach_step) auto
qed

lemma heartbeat_sim: "on_working_message_received m s = Inr s' \<Longrightarrow> life_abs s' = life_abs s"
  unfolding on_working_message_received_def ensure_worker_bound_def
  by (auto simp: Let_def fun_eq_iff intro!: life.equality split: MessageOrigin.splits)

lemma same_phase_abs:
  assumes "cp_Sessions s a = Some i" and "si_state i' = si_state i" and "si_cool_down_start i' = si_cool_down_start i"
  shows "life_abs (s\<lparr>cp_Sessions := (cp_Sessions s)(a \<mapsto> i')\<rparr>) = life_abs s"
  using assms by (intro life.equality) (auto simp: fun_eq_iff)

lemma treasury_sim:
  "life_abs (snd (case u128_from_bits fx tr of
     Inl e \<Rightarrow> (Inl e, s)
   | Inr d \<Rightarrow> (case withdraw_imbalance_from_subsidy_pool cc d s of
       Inl e \<Rightarrow> (Inl e, s)
     | Inr (imb, s) \<Rightarrow> (case call_handler (OnTreasurySettled_on_unbalanced cc imb) s of
         Inl e \<Rightarrow> (Inl e, s)
       | Inr s \<Rightarrow> (Inr (), comp_deposit_event ev s))))) = life_abs s"
  by (auto simp: withdraw_imbalance_from_subsidy_pool_def Let_def dest!: call_handler_abs
    split: sum.split option.split)

lemma settle_sim: "life_abs (snd (try_handle_settle fx cc info now ts s)) = life_abs s"
proof (cases "cp_WorkerBindings s (si_pubkey info)")
  case (Some a)
  show ?thesis
  proof (cases "cp_Sessions s a")
    case (Some i)
    then show ?thesis using \<open>cp_WorkerBindings s (si_pubkey info) = Some a\<close>
      by (cases "u128_from_bits fx (si_payout info) :: Comp_Error exn + u128")
        (simp_all add: try_handle_settle_def SessionStats_on_reward_def treasury_sim Let_def
          same_phase_abs [where i = i] del: life_abs_upd)
  qed (simp add: try_handle_settle_def \<open>cp_WorkerBindings s (si_pubkey info) = Some a\<close>)
qed (simp add: try_handle_settle_def)

lemma settle_or_report_Inr:
  assumes "settle_or_report fx cc now ts s info = Inr s'" and "try_handle_settle fx cc info now ts s = (res, t)"
  shows "s' = t \<or> s' = comp_deposit_event (InternalErrorWorkerSettleFailed (si_pubkey info)) t"
proof (cases res)
  case (Inl err)
  then show ?thesis using assms by (cases err) (auto simp: settle_or_report_def)
qed (use assms in \<open>simp add: settle_or_report_def\<close>)

lemma settle_or_report_sim:
  assumes "settle_or_report fx cc now ts s info = Inr s'"
  shows "life_abs s' = life_abs s"
proof (cases "try_handle_settle fx cc info now ts s")
  case (Pair res t)
  then have "life_abs t = life_abs s" using settle_sim [of fx cc info now ts s] by simp
  with settle_or_report_Inr [OF assms Pair] show ?thesis by (elim disjE) simp_all
qed

lemma gk_message_sim:
  assumes "Comp_on_gk_message_received fx cc m s = Inr s'"
  shows "life_reach (input_labels (CI_gatekeeper m)) (life_abs s) (life_abs s')"
proof (cases "WorkingInfoUpdateEvent_is_empty (dm_payload m)")
  case True
  then show ?thesis using assms by (auto simp: Comp_on_gk_message_received_def Let_def split: if_splits)
next
  case False
  define s1 where "s1 = fold handle_offline (wi_offline (dm_payload m)) s"
  define s2 where "s2 = fold handle_recovered (wi_recovered_to_online (dm_payload m)) s1"
  from assms False obtain s3 where s3: "foldM_res (settle_or_report fx cc (comp_now_sec s)
      (wi_timestamp_ms (dm_payload m) div 1000)) s2 (wi_settle (dm_payload m)) = Inr s3"
    and s': "life_abs s' = life_abs s3"
    by (auto simp: Comp_on_gk_message_received_def Let_def s1_def s2_def split: if_splits dest!: call_handler_abs)
  have "life_abs s3 = life_abs s2"
    by (rule foldM_res_invariant [OF s3]) (auto dest: settle_or_report_sim)
  moreover have "life_reach (input_labels (CI_gatekeeper m)) (life_abs s) (life_abs s1)"
    unfolding s1_def by (rule life_reach_mono [OF fold_sim [OF offline_sim]]) simp
  moreover have "life_reach (input_labels (CI_gatekeeper m)) (life_abs s1) (life_abs s2)"
    unfolding s2_def by (rule life_reach_mono [OF fold_sim [OF recovered_sim]]) simp
  ultimately show ?thesis using s' by (metis life_reach_trans)
qed

lemma finalize_sim: "Computation_on_finalize q cc s = Inr s' \<Longrightarrow> life_abs s' = life_abs s"
  unfolding Computation_on_finalize_def heartbeat_challenge_def update_tokenomic_parameters_def
  by (auto simp: Let_def split: if_splits option.splits)

lemma registry_sim:
  "life_step L_registry (life_abs s) (life_abs (s\<lparr>cp_registry := registry_step cfg (cp_registry s) i\<rparr>))"
  using registry_step_keeps_workers [of "cp_registry s" _ cfg i]
  by (auto simp: life_step_registry life_abs_def comp_now_sec_def)

lemma call_sim:
  assumes "comp_dispatch_call e o1 c s = Inr s'"
  shows "life_reach (input_labels (CI_call o1 c)) (life_abs s) (life_abs s')"
  using assms
  by (cases c) (auto simp: set_cool_down_expiration_def Computation_unbind_def force_heartbeat_def
    force_start_computing_def force_stop_computing_def update_tokenomic_def set_heartbeat_paused_def
    set_budget_per_block_def update_tokenomic_parameters_def update_contract_root_def Let_def
    life_step_period intro: life_reach_step [of "L_period _"] life_reach_step start_sim stop_sim unbind_sim)

lemma comp_apply_sim:
  assumes "comp_apply e i s = Inr s'"
  shows "life_reach (input_labels i) (life_abs s) (life_abs s')"
proof (cases i)
  case (CI_call o1 c)
  then show ?thesis using assms call_sim by fastforce
next
  case (CI_unbind_session a n)
  then show ?thesis using assms unbind_sim by fastforce
next
  case (CI_gatekeeper m)
  then show ?thesis using assms gk_message_sim by fastforce
qed (use assms in \<open>auto intro!: life_reach_step dest: bind_sim start_sim stop_sim reclaim_sim heartbeat_sim
  finalize_sim intro: registry_sim simp: life_reach_def\<close>)

lemma comp_step_sim: "life_reach (input_labels i) (life_abs s) (life_abs (comp_step e s i))"
  by (auto simp: comp_step_def split: sum.split intro: comp_apply_sim)

lemma comp_run_simps [simp]:
  "comp_run e s [] = s"
  "comp_run e s (i # ins) = comp_run e (comp_step e s i) ins"
  by (simp_all add: comp_run_def)

lemma comp_run_sim: "life_reach (\<Union>i \<in> set ins. input_labels i) (life_abs s) (life_abs (comp_run e s ins))"
proof (induction ins arbitrary: s)
  case (Cons i ins)
  have "life_reach (\<Union>i \<in> set (i # ins). input_labels i) (life_abs s) (life_abs (comp_step e s i))"
    by (rule life_reach_mono [OF comp_step_sim]) auto
  also have "life_reach (\<Union>i \<in> set (i # ins). input_labels i) \<dots> (life_abs (comp_run e (comp_step e s i) ins))"
    by (rule life_reach_mono [OF Cons.IH]) auto
  finally show ?case by simp
qed simp

section \<open>Invariants of the machine\<close>

text \<open>A property every step keeps is kept by every run of the pallet.\<close>

locale life_invariant =
  fixes I :: "life \<Rightarrow> bool"
  assumes step_keeps: "life_step l p q \<Longrightarrow> I p \<Longrightarrow> I q"
begin

lemma reach_keeps: "life_reach L p q \<Longrightarrow> I p \<Longrightarrow> I q"
  by (induction rule: life_reach_induct) (auto intro: step_keeps)

lemma run_keeps: "I (life_abs s) \<Longrightarrow> I (life_abs (comp_run e s ins))"
  by (rule reach_keeps [OF comp_run_sim])

end

definition life_computing :: "life \<Rightarrow> h256 set" where
  "life_computing p = {a. \<exists>t. lf_phase p a = Some (WorkerIdle, t) \<or> lf_phase p a = Some (WorkerUnresponsive, t)}"

definition life_bound :: "life \<Rightarrow> bool" where
  "life_bound p \<longleftrightarrow> (\<forall>a w. lf_worker p a = Some w \<longleftrightarrow> lf_session p w = Some a) \<and>
     (\<forall>a w. lf_worker p a = Some w \<longrightarrow> w \<in> lf_registered p \<and> lf_phase p a \<noteq> None)"

text \<open>What holds of one session: its worker, its phase and its stake.\<close>

fun phase_ok :: "h256 option \<Rightarrow> (WorkerState \<times> u64) option \<Rightarrow> u128 option \<Rightarrow> bool" where
  "phase_ok wk None stk \<longleftrightarrow> stk = None"
| "phase_ok wk (Some (st, t)) stk \<longleftrightarrow> st \<noteq> Unused_state \<and> (stk = None \<longleftrightarrow> st = Ready) \<and>
     (st = WorkerIdle \<or> st = WorkerUnresponsive \<longrightarrow> wk \<noteq> None)"

definition life_phases :: "life \<Rightarrow> bool" where
  "life_phases p \<longleftrightarrow> (\<forall>a. phase_ok (lf_worker p a) (lf_phase p a) (lf_stake p a))"

definition life_online :: "life \<Rightarrow> bool" where
  "life_online p \<longleftrightarrow> lf_online p = of_nat (card (life_computing p))"

definition life_ids :: "life \<Rightarrow> bool" where
  "life_ids p \<longleftrightarrow> lf_started p = map of_nat [0..<length (lf_started p)] \<and> lf_next p = of_nat (length (lf_started p))"

lemma phase_ok_step:
  "life_step l p q \<Longrightarrow> phase_ok (lf_worker p a) (lf_phase p a) (lf_stake p a) \<Longrightarrow>
   phase_ok (lf_worker q a) (lf_phase q a) (lf_stake q a)"
proof (induction rule: life_step.induct)
  case (ls_bind w p b)
  then show ?case by (cases "lf_phase p a") auto
qed (auto split: if_splits)

lemma life_phases_step: "life_step l p q \<Longrightarrow> life_phases p \<Longrightarrow> life_phases q"
  by (simp add: life_phases_def phase_ok_step)

lemma life_bound_step: "life_step l p q \<Longrightarrow> life_bound p \<Longrightarrow> life_bound q"
proof (induction rule: life_step.induct)
  case (ls_unbind p a w st t)
  have "lf_worker p b = Some w \<longleftrightarrow> b = a" for b
    using ls_unbind unfolding life_bound_def by (metis option.inject)
  moreover have "lf_session p v = Some a \<longleftrightarrow> v = w" for v
    using ls_unbind unfolding life_bound_def by (metis option.inject)
  ultimately show ?case using ls_unbind unfolding life_bound_def by (auto split: if_splits)
next
  case (ls_bind w p a)
  moreover have "lf_session p v \<noteq> Some a" for v
    using ls_bind unfolding life_bound_def by (metis option.distinct(1))
  ultimately show ?case unfolding life_bound_def by (auto split: if_splits)
qed (auto simp: life_bound_def split: if_splits)

lemma life_ids_step: "life_step l p q \<Longrightarrow> life_ids p \<Longrightarrow> life_ids q"
  by (induction rule: life_step.induct) (auto simp: life_ids_def)

text \<open>Starting adds one computing session, stopping removes one, nothing else changes the set.\<close>

lemma life_computing_step:
  "life_step l p q \<Longrightarrow> life_phases p \<Longrightarrow>
   life_computing q = (case l of L_start a x \<Rightarrow> insert a (life_computing p)
     | L_stop a \<Rightarrow> life_computing p - {a} | _ \<Rightarrow> life_computing p) \<and>
   (case l of L_start a x \<Rightarrow> a \<notin> life_computing p \<and> lf_online q = lf_online p + 1
     | L_stop a \<Rightarrow> a \<in> life_computing p \<and> lf_online q = lf_online p - 1 | _ \<Rightarrow> lf_online q = lf_online p)"
proof (induction rule: life_step.induct)
  case (ls_stop p a w st t)
  then have "phase_ok (lf_worker p a) (lf_phase p a) (lf_stake p a)"
    unfolding life_phases_def by blast
  then have "st = WorkerIdle \<or> st = WorkerUnresponsive" using ls_stop by (cases st) auto
  then show ?case using ls_stop by (auto simp: life_computing_def split: if_splits)
qed (auto simp: life_computing_def split: if_splits)

lemma life_online_step:
  assumes st: "life_step l p q" and ph: "life_phases p" and on: "life_online p"
  shows "life_online q"
proof (cases "(\<exists>a x. l = L_start a x) \<or> (\<exists>a. l = L_stop a)")
  case True
  have "card S = Suc (card (S - {a}))" if "a \<in> S" for a and S :: "h256 set"
    using that by (metis card_Suc_Diff1 finite)
  with True show ?thesis using life_computing_step [OF st ph] on
    by (auto simp: life_online_def simp del: card_Diff_insert)
next
  case False
  then show ?thesis using life_computing_step [OF st ph] on by (cases l) (auto simp: life_online_def)
qed

definition life_inv :: "life \<Rightarrow> bool" where
  "life_inv p \<longleftrightarrow> life_bound p \<and> life_phases p \<and> life_online p"

interpretation inv: life_invariant life_inv
  by unfold_locales (auto simp: life_inv_def intro: life_bound_step life_phases_step life_online_step)

interpretation ids: life_invariant life_ids
  by unfold_locales (rule life_ids_step)

section \<open>From genesis\<close>

abbreviation comp_genesis_state :: "comp_genesis \<Rightarrow> registry_state \<Rightarrow> 'w \<Rightarrow> 'w comp_state" where
  "comp_genesis_state g r w \<equiv> Comp_GenesisConfig_build g (comp_empty r w)"

lemma genesis_abs:
  "life_abs (comp_genesis_state g r w) = \<lparr>lf_worker = Map.empty, lf_session = Map.empty, lf_phase = Map.empty,
     lf_stake = Map.empty, lf_online = 0, lf_next = 0, lf_started = [], lf_registered = dom (rg_Workers r),
     lf_now = now_secs r, lf_period = ucast (cool_down_period_sec g)\<rparr>"
  by (simp add: life_abs_def Comp_GenesisConfig_build_def comp_empty_def comp_now_sec_def fun_eq_iff)

lemma genesis_inv: "life_inv (life_abs (comp_genesis_state g r w))"
  by (simp add: genesis_abs life_inv_def life_bound_def life_phases_def life_online_def life_computing_def)

lemma genesis_ids: "life_ids (life_abs (comp_genesis_state g r w))"
  by (simp add: genesis_abs life_ids_def)

lemmas run_inv = inv.run_keeps [OF genesis_inv]
lemmas run_ids = ids.run_keeps [OF genesis_ids]

text \<open>The invariant, read on the storage.\<close>

definition comp_inv :: "'w comp_state \<Rightarrow> bool" where
  "comp_inv s \<longleftrightarrow>
     (\<forall>a w. cp_SessionBindings s a = Some w \<longleftrightarrow> cp_WorkerBindings s w = Some a) \<and>
     (\<forall>a w. cp_SessionBindings s a = Some w \<longrightarrow>
        cp_Sessions s a \<noteq> None \<and> rg_Workers (cp_registry s) w \<noteq> None) \<and>
     (\<forall>a i. cp_Sessions s a = Some i \<longrightarrow> (cp_Stakes s a = None \<longleftrightarrow> si_state i = Ready) \<and>
        (WorkerState_is_computing (si_state i) \<longrightarrow> cp_SessionBindings s a \<noteq> None)) \<and>
     (\<forall>a. cp_Sessions s a = None \<longrightarrow> cp_Stakes s a = None) \<and>
     cp_OnlineWorkers s =
       of_nat (card {a. \<exists>i. cp_Sessions s a = Some i \<and> WorkerState_is_computing (si_state i)})"

lemma life_computing_abs:
  "life_computing (life_abs s) = {a. \<exists>i. cp_Sessions s a = Some i \<and> WorkerState_is_computing (si_state i)}"
  by (auto simp: life_computing_def WorkerState_is_computing_def)

lemma phase_ok_abs:
  assumes "life_phases (life_abs s)"
  shows "case cp_Sessions s a of None \<Rightarrow> cp_Stakes s a = None
    | Some i \<Rightarrow> (cp_Stakes s a = None \<longleftrightarrow> si_state i = Ready) \<and>
        (WorkerState_is_computing (si_state i) \<longrightarrow> cp_SessionBindings s a \<noteq> None)"
proof -
  have "phase_ok (lf_worker (life_abs s) a) (lf_phase (life_abs s) a) (lf_stake (life_abs s) a)"
    using assms unfolding life_phases_def by blast
  then show ?thesis by (auto simp: WorkerState_is_computing_def split: option.split)
qed

lemma life_inv_comp_inv:
  assumes "life_inv (life_abs s)"
  shows "comp_inv s"
proof -
  have b: "life_bound (life_abs s)" and p: "life_phases (life_abs s)" and c: "life_online (life_abs s)"
    using assms by (simp_all add: life_inv_def)
  show ?thesis unfolding comp_inv_def
  proof (intro conjI allI impI)
    fix a w
    show "cp_SessionBindings s a = Some w \<longleftrightarrow> cp_WorkerBindings s w = Some a"
      using b by (simp add: life_bound_def)
    assume "cp_SessionBindings s a = Some w"
    then show "cp_Sessions s a \<noteq> None" "rg_Workers (cp_registry s) w \<noteq> None"
      using b by (auto simp: life_bound_def dom_def)
  next
    show "cp_OnlineWorkers s = of_nat (card {a. \<exists>i. cp_Sessions s a = Some i \<and>
      WorkerState_is_computing (si_state i)})"
      using c by (simp add: life_online_def life_computing_abs)
  qed (use phase_ok_abs [OF p] in \<open>force split: option.splits\<close>)+
qed

lemma comp_inv_run: "comp_inv (comp_run e (comp_genesis_state g r w) ins)"
  by (rule life_inv_comp_inv [OF run_inv])

section \<open>Properties\<close>

text \<open>
  C10: Refinement of the life cycle. Whatever an input of the pallet does to sessions is a sequence of
  steps of the abstract machine, and only of the steps that input stands for: binding, starting,
  stopping, unbinding and reclaiming of the session it names, and the state changes of the workers a
  gatekeeper's message names.
\<close>

theorem sessions_refine_lifecycle:
  "life_reach (input_labels i) (life_abs s) (life_abs (comp_step e s i))"
  by (rule comp_step_sim)

text \<open>
  C11: In every run from genesis the two binding maps are inverse to each other, a bound session has
  its information and a registered worker, a session holds a stake exactly when it is not \<open>Ready\<close>,
  computing sessions are bound, and \<open>OnlineWorkers\<close> counts the computing sessions (as a 32-bit number).
\<close>

theorem sessions_invariant: "comp_inv (comp_run e (Comp_GenesisConfig_build g (comp_empty r w)) ins)"
  by (rule comp_inv_run)

text \<open>Between a start and the next reclaim of a session its stake stays, and after a stop its cool-down start.\<close>

lemma stake_step:
  "life_step l p q \<Longrightarrow> (\<And>c. l \<noteq> L_reclaim a c) \<Longrightarrow>
   lf_stake p a = Some x \<and> (\<exists>st t. lf_phase p a = Some (st, t) \<and> st \<noteq> Ready) \<Longrightarrow>
   lf_stake q a = Some x \<and> (\<exists>st t. lf_phase q a = Some (st, t) \<and> st \<noteq> Ready)"
  by (induction rule: life_step.induct) (auto split: if_splits)

lemma cool_down_step:
  "life_step l p q \<Longrightarrow> (\<And>c. l \<noteq> L_reclaim a c) \<Longrightarrow> lf_phase p a = Some (WorkerCoolingDown, t) \<Longrightarrow>
   lf_phase q a = Some (WorkerCoolingDown, t)"
  by (induction rule: life_step.induct) (auto split: if_splits)

lemma stake_kept:
  assumes "life_reach L p q" and "\<And>c. L_reclaim a c \<notin> L"
    and "lf_stake p a = Some x \<and> (\<exists>st t. lf_phase p a = Some (st, t) \<and> st \<noteq> Ready)"
  shows "lf_stake q a = Some x \<and> (\<exists>st t. lf_phase q a = Some (st, t) \<and> st \<noteq> Ready)"
  by (rule life_reach_induct [OF assms(1), where P = "\<lambda>p. lf_stake p a = Some x \<and>
    (\<exists>st t. lf_phase p a = Some (st, t) \<and> st \<noteq> Ready)"], erule stake_step) (use assms(2,3) in auto)

lemma cool_down_kept:
  assumes "life_reach L p q" and "\<And>c. L_reclaim a c \<notin> L"
    and "lf_phase p a = Some (WorkerCoolingDown, t)"
  shows "lf_phase q a = Some (WorkerCoolingDown, t)"
  by (rule life_reach_induct [OF assms(1), where P = "\<lambda>p. lf_phase p a = Some (WorkerCoolingDown, t)"],
    erule cool_down_step) (use assms(2,3) in auto)

lemma reclaim_label: "L_reclaim a c \<in> input_labels i \<longleftrightarrow> i = CI_reclaim a c"
  by (induction i rule: input_labels.induct) auto

lemma no_reclaim_label: "(\<forall>c. CI_reclaim a c \<notin> set ins) \<Longrightarrow> L_reclaim a c \<notin> (\<Union>i \<in> set ins. input_labels i)"
  by (auto simp: reclaim_label)

text \<open>
  C12: The stake of a session is neither lost, changed nor replaced. After a start with stake \<open>x\<close>, whatever
  happens short of a reclaim of that session (stops, forced unbinding, rebinding, settlements, further
  attempts to start), reclaiming it returns exactly \<open>x\<close> with nothing slashed, and clears it.
\<close>

theorem stake_returned_in_full:
  assumes start: "start_computing fx cc a x s = Inr s1"
    and none: "\<forall>c. CI_reclaim a c \<notin> set ins"
    and rec: "reclaim a c (comp_run e s1 ins) = Inr (res, s2)"
  shows "res = (x, 0) \<and> cp_Stakes s2 a = None \<and> map_option si_state (cp_Sessions s2 a) = Some Ready"
proof -
  have "lf_stake (life_abs s1) a = Some x \<and> (\<exists>st t. lf_phase (life_abs s1) a = Some (st, t) \<and> st \<noteq> Ready)"
    using start_sim [OF start] by (auto simp: life_step_start simp del: life_abs_sel)
  then have "cp_Stakes (comp_run e s1 ins) a = Some x"
    using stake_kept [OF comp_run_sim no_reclaim_label [OF none]] by (metis life_abs_sel(4))
  then show ?thesis using rec
    by (auto simp: reclaim_def Let_def SessionInfo_calc_final_stake_def comp_deposit_event_def)
qed

text \<open>
  C25: The cool-down period is enforced, and nothing else delays a reclaim. After a session stops, and
  until it is reclaimed, a reclaim that checks the cool-down succeeds exactly when the current time is
  at least the period in force past the time of the stop.
\<close>

theorem cool_down_enforced:
  assumes stop: "stop_computing cc a s = Inr s1"
    and none: "\<forall>c. CI_reclaim a c \<notin> set ins"
  shows "(\<exists>res. reclaim a True (comp_run e s1 ins) = Inr res) \<longleftrightarrow>
    cp_CoolDownPeriod (comp_run e s1 ins) \<le> comp_now_sec (comp_run e s1 ins) - comp_now_sec s"
proof -
  have "lf_phase (life_abs s1) a = Some (WorkerCoolingDown, comp_now_sec s)"
    using stop_sim [OF stop] by (auto simp: life_step_stop simp del: life_abs_sel(3))
  then have "lf_phase (life_abs (comp_run e s1 ins)) a = Some (WorkerCoolingDown, comp_now_sec s)"
    by (rule cool_down_kept [OF comp_run_sim no_reclaim_label [OF none]])
  then show ?thesis by (auto simp: reclaim_def can_reclaim_def Let_def)
qed

text \<open>
  Session identifiers. The identifiers in the \<open>Started\<close> messages sent since genesis are \<open>0, 1, 2, \<dots>\<close> in
  order, as 32-bit numbers, and so are pairwise different for the first \<open>2\<^sup>3\<^sup>2\<close> starts.
\<close>

theorem session_ids_consecutive:
  fixes s :: "'w comp_state"
  assumes s: "s = comp_run e (Comp_GenesisConfig_build g (comp_empty r w)) ins"
    and n: "n = length (concat (map started_id (cp_out s)))"
  shows "concat (map started_id (cp_out s)) = map of_nat [0..<n] \<and> cp_NextSessionId s = of_nat n \<and>
    (n \<le> 2 ^ 32 \<longrightarrow> distinct (concat (map started_id (cp_out s))))"
proof -
  have i: "concat (map started_id (cp_out s)) = map of_nat [0..<n]" "cp_NextSessionId s = of_nat n"
    using run_ids [where e = e and g = g and r = r and w = w and ins = ins]
    unfolding n s by (simp_all add: life_ids_def)
  have "distinct (map of_nat [0..<n] :: u32 list)" if "n \<le> 2 ^ 32"
  proof -
    have "inj_on (of_nat :: nat \<Rightarrow> u32) {0..<n}"
      using that by (intro inj_onI) (auto dest!: arg_cong [where f = unat] simp: unat_of_nat)
    then show ?thesis by (simp add: distinct_map)
  qed
  then show ?thesis using i by simp
qed

section \<open>A concrete pallet\<close>

text \<open>Numbers without fractional part, listeners that do nothing, one worker with a score, bound to a session.\<close>

definition ex_fx :: fixed_ops where
  "ex_fx = \<lparr>fx_from_num = ucast, fx_mul = (*), fx_add = (+), fx_sub = (-), fx_sqrt = (\<lambda>x. x), fx_le = (\<le>),
     fx_1 = 1, fx_0_8 = 1, fx_0_7 = 1, u80_from_fixed = Some, u80_mul_int = (\<lambda>a b. Some (a * b)),
     u80_to_num = (\<lambda>x. x), u80_from_num = Some, u80_div_int = (\<lambda>a b. Some (a div b)), fx_from_u80 = Some\<rparr>"

definition ex_cc :: "unit comp_config" where
  "ex_cc = \<lparr>ExpectedBlockTimeSec = 12, MinInitP = 1, CheckWorkerRegisterTime = False,
     UpdateTokenomicOrigin = (\<lambda>o1. o1 = Root), SetBudgetOrigins = (\<lambda>o1. o1 = Root),
     SetContractRootOrigins = (\<lambda>o1. o1 = Root), cc_GovernanceOrigin = (\<lambda>o1. o1 = Root), cc_random = (\<lambda>_. 0),
     OnReward_on_reward = (\<lambda>_. Some), OnUnbound_on_unbound = (\<lambda>_ _. Some), OnStopped_on_stopped = (\<lambda>_ _ _. Some),
     OnTreasurySettled_on_unbalanced = (\<lambda>_. Some), Currency_withdraw = (\<lambda>_ x r. Some (x, r)),
     Currency_transfer = (\<lambda>_ _ _. Some), computing_account = 0\<rparr>"

definition ex_q32 :: u32f32_ops where
  "ex_q32 = \<lparr>q_from_num = ucast, q_mul = (*), q_div = (\<lambda>a b. if b = 0 then None else Some (a div b)),
     q_checked_shl = (\<lambda>a n. Some a), q_to_num = ucast\<rparr>"

definition ex_env :: "(unit, nat) comp_env" where
  "ex_env = \<lparr>ce_fx = ex_fx, ce_q = ex_q32, ce_cc = ex_cc, ce_registry = ex_registry_config\<rparr>"

definition ex_worker :: WorkerInfoV2 where
  "ex_worker = \<lparr>wi_pubkey = 1, wi_ecdh_pubkey = 0, wi_runtime_version = 0, wi_last_updated = 0,
     wi_operator = Some 9, wi_attestation_provider = Some Root_provider, wi_confidence_level = 1,
     wi_initial_score = Some 60, wi_features = []\<rparr>"

definition ex_reg :: registry_state where
  "ex_reg = registry_empty\<lparr>rg_Workers := [1 \<mapsto> ex_worker], rg_now_ms := 5000\<rparr>"

definition ex_tokenomics :: TokenomicParams where
  "ex_tokenomics = \<lparr>tp_pha_rate = 1, tp_rho = 1, tp_budget_per_block = 1, tp_v_max = 1000, tp_cost_k = 0,
     tp_cost_b = 0, tp_slash_rate = 0, tp_treasury_ratio = 0, tp_heartbeat_window = 10, tp_rig_k = 0,
     tp_rig_b = 0, tp_re = 1, tp_k = 0, tp_kappa = 1\<rparr>"

definition ex_comp_genesis :: comp_genesis where
  "ex_comp_genesis = \<lparr>cool_down_period_sec = 10, tokenomic_parameters = ex_tokenomics\<rparr>"

definition ex_comp :: "unit comp_state" where
  "ex_comp = comp_run ex_env (Comp_GenesisConfig_build ex_comp_genesis (comp_empty ex_reg ())) [CI_bind 7 1]"

lemmas ex_comp_defs =
  ex_fx_def ex_cc_def ex_q32_def ex_env_def ex_worker_def ex_reg_def ex_tokenomics_def ex_comp_genesis_def

lemma ex_comp_eval:
  "cp_SessionBindings ex_comp = [7 \<mapsto> 1]" "cp_WorkerBindings ex_comp = [1 \<mapsto> 7]"
  "map_option si_state (cp_Sessions ex_comp 7) = Some Ready" "cp_Stakes ex_comp = Map.empty"
  "cp_registry ex_comp = ex_reg" "cp_TokenomicParameters ex_comp = Some ex_tokenomics"
  "cp_rest ex_comp = ()" "cp_CoolDownPeriod ex_comp = 10" "cp_out ex_comp = []" "cp_events ex_comp = [SessionBound 7 1]"
  by (simp_all add: ex_comp_def comp_step_def Computation_bind_def Comp_GenesisConfig_build_def comp_empty_def
    ensure_session_bound_def ensure_worker_bound_def comp_deposit_event_def Let_def ex_comp_defs
    registry_empty_def del: bind_res_eq_Inr)

definition ex_started :: "unit comp_state" where
  "ex_started = (case start_computing ex_fx ex_cc 7 100 ex_comp of Inr s \<Rightarrow> s | Inl _ \<Rightarrow> ex_comp)"

lemma ex_start: "start_computing ex_fx ex_cc 7 100 ex_comp = Inr ex_started"
proof -
  obtain i where "cp_Sessions ex_comp 7 = Some i" "si_state i = Ready"
    using ex_comp_eval(3) by auto
  then have "\<exists>s. start_computing ex_fx ex_cc 7 100 ex_comp = Inr s"
    by (simp add: start_computing_def ex_comp_eval ex_reg_def ex_worker_def ex_cc_def ex_tokenomics_def
      comp_tokenomic_def Tokenomic_minimal_stake_def Tokenomic_ve_def Tokenomic_confidence_score_def
      Tokenomic_rig_cost_def Tokenomic_v_max_def u128_from_fixed_def u128_to_fixed_def ex_fx_def PHA_def Let_def)
  then show ?thesis by (auto simp: ex_started_def)
qed

lemma ex_comp_abs:
  "lf_worker (life_abs ex_comp) 7 = Some 1" "lf_session (life_abs ex_comp) 1 = Some 7"
  "lf_started (life_abs ex_comp) = []" "lf_now (life_abs ex_comp) = 5" "lf_period (life_abs ex_comp) = 10"
  by (simp_all add: ex_comp_eval comp_now_sec_def now_secs_def ex_reg_def)

lemma ex_started_abs:
  "lf_worker (life_abs ex_started) 7 = Some 1" "lf_session (life_abs ex_started) 1 = Some 7"
  "\<exists>t. lf_phase (life_abs ex_started) 7 = Some (WorkerIdle, t)" "length (lf_started (life_abs ex_started)) = 1"
  "lf_now (life_abs ex_started) = 5" "lf_period (life_abs ex_started) = 10"
  using start_sim [OF ex_start] ex_comp_abs by (auto simp: life_step_start simp del: life_abs_sel)

definition ex_stopped :: "unit comp_state" where
  "ex_stopped = (case stop_computing ex_cc 7 ex_started of Inr s \<Rightarrow> s | Inl _ \<Rightarrow> ex_started)"

lemma ex_stop: "stop_computing ex_cc 7 ex_started = Inr ex_stopped"
proof -
  have "cp_SessionBindings ex_started 7 = Some 1" using ex_started_abs(1) by simp
  moreover obtain i where "cp_Sessions ex_started 7 = Some i" "si_state i = WorkerIdle"
    using ex_started_abs(3) by auto
  ultimately have "\<exists>s. stop_computing ex_cc 7 ex_started = Inr s"
    by (simp add: stop_computing_def call_handler_def ex_cc_def Let_def)
  then show ?thesis by (auto simp: ex_stopped_def)
qed

lemma ex_stopped_abs:
  "lf_phase (life_abs ex_stopped) 7 = Some (WorkerCoolingDown, 5)" "lf_period (life_abs ex_stopped) = 10"
  using stop_sim [OF ex_stop] ex_started_abs by (auto simp: life_step_stop simp del: life_abs_sel)

lemma ex_run_stop: "comp_run ex_env ex_started [CI_stop_computing 7] = ex_stopped"
  by (simp add: comp_step_def ex_stop ex_env_def)

lemma ex_reclaim: "\<exists>res s. reclaim 7 False ex_stopped = Inr (res, s)"
  using ex_stopped_abs(1) by (auto simp: reclaim_def can_reclaim_def Let_def)

text \<open>The example started with stake 100, stopped, and reclaimed without waiting.\<close>

theorem stake_returned_in_full_witness:
  "\<exists>s1 s2. start_computing ex_fx ex_cc 7 100 ex_comp = Inr s1 \<and>
     reclaim 7 False (comp_run ex_env s1 [CI_stop_computing 7]) = Inr ((100, 0), s2) \<and> cp_Stakes s2 7 = None"
proof -
  obtain res s2 where rec: "reclaim 7 False (comp_run ex_env ex_started [CI_stop_computing 7]) = Inr (res, s2)"
    unfolding ex_run_stop using ex_reclaim by blast
  have "\<forall>c. CI_reclaim 7 c \<notin> set [CI_stop_computing 7 :: unit comp_input]" by simp
  from stake_returned_in_full [OF ex_start this rec] show ?thesis using ex_start rec by blast
qed

text \<open>The example fifteen seconds after its stop, with a period of ten.\<close>

theorem cool_down_enforced_witness:
  "\<exists>s1. stop_computing ex_cc 7 ex_started = Inr s1 \<and>
     (\<exists>res. reclaim 7 True (comp_run ex_env s1 [CI_registry (In_block 20000)]) = Inr res)"
proof -
  have "\<forall>c. CI_reclaim 7 c \<notin> set [CI_registry (In_block 20000) :: unit comp_input]" by simp
  note iff = cool_down_enforced [OF ex_stop this, of ex_env]
  have "comp_now_sec (comp_run ex_env ex_stopped [CI_registry (In_block 20000)]) = 20"
    "cp_CoolDownPeriod (comp_run ex_env ex_stopped [CI_registry (In_block 20000)]) = 10"
    "comp_now_sec ex_started = 5"
    using ex_stopped_abs(2) ex_started_abs(5) by (simp_all add: comp_step_def comp_now_sec_def now_secs_def)
  then show ?thesis using iff ex_stop by auto
qed

theorem session_ids_consecutive_witness:
  "\<exists>s. s = comp_run ex_env (Comp_GenesisConfig_build ex_comp_genesis (comp_empty ex_reg ()))
       [CI_bind 7 1, CI_start_computing 7 100] \<and>
     concat (map started_id (cp_out s)) = [0] \<and> cp_NextSessionId s = 1 \<and>
     distinct (concat (map started_id (cp_out s)))"
proof -
  have e: "comp_run ex_env (Comp_GenesisConfig_build ex_comp_genesis (comp_empty ex_reg ()))
      [CI_bind 7 1, CI_start_computing 7 100] = ex_started"
    using ex_start by (simp add: ex_comp_def comp_step_def ex_env_def)
  have "1 = length (concat (map started_id (cp_out ex_started)))" using ex_started_abs(4) by simp
  from session_ids_consecutive [OF e [symmetric] this] show ?thesis using e by auto
qed

end
