(* ===== verification/Session_Safety.thy ===== *)
theory Session_Safety
  imports Session_Lifecycle
begin

text \<open>
  Further properties of the computation pallet: which of its internal assertions can fail, what a
  heartbeat does to the performance score, settlements, and budget updates.
\<close>

section \<open>Assertions\<close>

lemma comp_invD:
  assumes "comp_inv s"
  shows "cp_SessionBindings s a = Some w \<Longrightarrow> \<exists>i wi. cp_Sessions s a = Some i \<and> rg_Workers (cp_registry s) w = Some wi"
    and "cp_WorkerBindings s w = Some a \<Longrightarrow> cp_SessionBindings s a = Some w"
    and "cp_Sessions s a = Some i \<Longrightarrow> cp_Stakes s a = None \<longleftrightarrow> si_state i = Ready"
  using assms unfolding comp_inv_def by blast+

lemma call_handler_Panics: "call_handler h s = Inl e \<longleftrightarrow> e = Panics \<and> h (cp_rest s) = None"
  by (auto simp: call_handler_def split: option.splits)

text \<open>What makes stopping and unbinding panic.\<close>

lemma stop_panics:
  assumes "stop_computing cc a s = Inl Panics"
  shows "\<exists>w y. cp_SessionBindings s a = Some w \<and>
    OnStopped_on_stopped cc w (unwrap_or (cp_Stakes s a) 0) y (cp_rest s) = None"
  using assms by (auto simp: stop_computing_def res_simps Let_def call_handler_Panics)

lemma unbind_panics:
  assumes "comp_inv s" and p: "unbind_session cc a n s = Inl Panics"
  shows "\<exists>w. cp_SessionBindings s a = Some w \<and>
    ((\<exists>y. OnStopped_on_stopped cc w (unwrap_or (cp_Stakes s a) 0) y (cp_rest s) = None) \<or>
     (n \<and> (\<exists>f r. OnUnbound_on_unbound cc w f r = None)))"
proof (cases "cp_SessionBindings s a")
  case (Some w)
  then obtain i where i: "cp_Sessions s a = Some i" using comp_invD(1) [OF assms(1)] by blast
  from p Some i have "stop_computing cc a s = Inl Panics \<or> (n \<and> (\<exists>f r. OnUnbound_on_unbound cc w f r = None))"
    by (auto simp: unbind_session_def ensure_session_bound_def res_simps Let_def call_handler_Panics split: if_splits)
  with Some show ?thesis using stop_panics [of cc a s] by auto
qed (use p in \<open>simp add: unbind_session_def ensure_session_bound_def\<close>)

lemma start_no_existing_stake:
  assumes "comp_inv s"
  shows "start_computing fx cc a x s \<noteq> Inl (Fails CE_InternalErrorCannotStartWithExistingStake)"
proof
  assume e: "start_computing fx cc a x s = Inl (Fails CE_InternalErrorCannotStartWithExistingStake)"
  have f: "u128_from_fixed fx v \<noteq> Inl (Fails err)" "u128_to_fixed fx v \<noteq> Inl (Fails err)" for v and err :: Comp_Error
    by (auto simp: u128_from_fixed_def u128_to_fixed_def res_simps)
  from e obtain i where "cp_Sessions s a = Some i" "si_state i = Ready" "cp_Stakes s a \<noteq> None"
    by (auto simp: start_computing_def comp_tokenomic_def Tokenomic_minimal_stake_def Tokenomic_ve_def
      res_simps Let_def f)
  then show False using comp_invD(3) [OF assms, of a i] by simp
qed

text \<open>
  C26: Internal assertions of the session operations. In every run from genesis, the error that stands
  for a stake left over from an earlier session is never returned; stopping a session panics only if
  the handler of stopped workers panics on the worker and the stake of that session; and unbinding (by
  the internal function or the extrinsic) panics only if one of the two configured handlers does. So
  the internal lookups that would panic always succeed.
\<close>

theorem session_assertions_hold:
  assumes s: "s = comp_run e (Comp_GenesisConfig_build g (comp_empty r w)) ins"
  shows "start_computing fx cc a x s \<noteq> Inl (Fails CE_InternalErrorCannotStartWithExistingStake) \<and>
    (stop_computing cc a s = Inl Panics \<longrightarrow> (\<exists>wk y. cp_SessionBindings s a = Some wk \<and>
       OnStopped_on_stopped cc wk (unwrap_or (cp_Stakes s a) 0) y (cp_rest s) = None)) \<and>
    (unbind_session cc a n s = Inl Panics \<or> n \<and> Computation_unbind cc o1 a s = Inl Panics \<longrightarrow>
       (\<exists>wk. cp_SessionBindings s a = Some wk \<and>
          ((\<exists>y. OnStopped_on_stopped cc wk (unwrap_or (cp_Stakes s a) 0) y (cp_rest s) = None) \<or>
           (n \<and> (\<exists>f r'. OnUnbound_on_unbound cc wk f r' = None)))))"
proof -
  have i: "comp_inv s" unfolding s by (rule comp_inv_run)
  have "comp_ensure_signed o1 \<noteq> Inl Panics" by (cases o1) auto
  then have "unbind_session cc a True s = Inl Panics" if "Computation_unbind cc o1 a s = Inl Panics"
    using that by (auto simp: Computation_unbind_def ensure_session_bound_def res_simps)
  then show ?thesis
    using start_no_existing_stake [OF i] stop_panics unbind_panics [OF i] by (intro conjI impI) blast+
qed

theorem session_assertions_hold_witness:
  "unbind_session ex_cc 7 True ex_comp \<noteq> Inl Panics"
proof -
  have "OnStopped_on_stopped ex_cc wk x y q \<noteq> None" "OnUnbound_on_unbound ex_cc wk f q \<noteq> None" for wk x y f q
    by (simp_all add: ex_cc_def)
  then show ?thesis using session_assertions_hold [OF ex_comp_def, where cc = ex_cc and a = 7 and n = True] by blast
qed

section \<open>Heartbeats\<close>

text \<open>
  C27: When a heartbeat stops the chain. In every run from genesis a heartbeat message panics exactly
  when it comes from a bound worker and the current time has not passed the challenge time stored in
  its session. Binding stores zero there, and an accepted heartbeat the challenge time the worker sent,
  so a worker that reports a challenge time in the future makes each of its heartbeats until then
  panic.
\<close>

theorem heartbeat_panics_iff:
  assumes s: "s = comp_run e (Comp_GenesisConfig_build g (comp_empty r w)) ins"
  shows "(on_working_message_received m s = Inl Panics \<longleftrightarrow>
      (\<exists>wk a i. dm_sender m = Worker wk \<and> cp_WorkerBindings s wk = Some a \<and> cp_Sessions s a = Some i \<and>
        comp_now_sec s \<le> challenge_time_last (si_benchmark i))) \<and>
    (\<forall>wk a s'. dm_sender m = Worker wk \<and> cp_WorkerBindings s wk = Some a \<and>
      on_working_message_received m s = Inr s' \<longrightarrow>
      (\<exists>i. cp_Sessions s' a = Some i \<and>
        challenge_time_last (si_benchmark i) = report_challenge_time (dm_payload m) div 1000))"
proof (cases "\<exists>wk a. dm_sender m = Worker wk \<and> cp_WorkerBindings s wk = Some a")
  case True
  then obtain wk a where m: "dm_sender m = Worker wk" "cp_WorkerBindings s wk = Some a" by blast
  have inv: "comp_inv s" unfolding s by (rule comp_inv_run)
  from comp_invD(1) [OF inv comp_invD(2) [OF inv m(2)]] obtain i wi where
    i: "cp_Sessions s a = Some i" "rg_Workers (cp_registry s) wk = Some wi" by blast
  show ?thesis using m i
    by (auto simp: on_working_message_received_def ensure_worker_bound_def Benchmark_update_def res_simps Let_def
      comp_deposit_event_def)
next
  case False
  then show ?thesis
    by (cases "dm_sender m") (auto simp: on_working_message_received_def ensure_worker_bound_def res_simps)
qed

lemma ex_comp_session: "cp_Sessions ex_comp 7 = Some \<lparr>si_state = Ready, si_ve = 0, si_v_bits = 0, si_v_updated_at = 5,
    si_benchmark = \<lparr>p_init = 0, p_instant = 0, bm_iterations = 0, working_start_time = 5,
      challenge_time_last = 0\<rparr>, si_cool_down_start = 0, si_total_reward = 0\<rparr>"
  by (simp add: ex_comp_def comp_step_def Computation_bind_def Comp_GenesisConfig_build_def comp_empty_def
    ensure_session_bound_def ensure_worker_bound_def comp_deposit_event_def Let_def ex_comp_defs
    registry_empty_def comp_now_sec_def now_secs_def del: bind_res_eq_Inr)

text \<open>The example after a heartbeat that claims a challenge at second 100, at second 5.\<close>

theorem heartbeat_panics_iff_witness:
  "\<exists>s. s = comp_run ex_env (Comp_GenesisConfig_build ex_comp_genesis (comp_empty ex_reg ()))
      [CI_bind 7 1, CI_heartbeat \<lparr>dm_sender = Worker 1, dm_destination = Topic [], dm_payload = Heartbeat 0 0 100000 5\<rparr>] \<and>
    on_working_message_received \<lparr>dm_sender = Worker 1, dm_destination = Topic [], dm_payload = Heartbeat 0 0 200000 6\<rparr> s
      = Inl Panics"
proof -
  let ?m = "\<lparr>dm_sender = Worker 1, dm_destination = Topic [], dm_payload = Heartbeat 0 0 100000 5\<rparr>"
  let ?m2 = "\<lparr>dm_sender = Worker 1, dm_destination = Topic [], dm_payload = Heartbeat 0 0 200000 6\<rparr>"
  let ?s = "comp_run ex_env (Comp_GenesisConfig_build ex_comp_genesis (comp_empty ex_reg ())) [CI_bind 7 1, CI_heartbeat ?m]"
  have s: "?s = comp_step ex_env ex_comp (CI_heartbeat ?m)" by (simp add: ex_comp_def)
  note ex_comp_session
  then have "comp_now_sec ?s \<le> challenge_time_last (si_benchmark (the (cp_Sessions ?s 7))) \<and>
    cp_WorkerBindings ?s 1 = Some 7 \<and> cp_Sessions ?s 7 \<noteq> None"
    unfolding s
    by (simp add: comp_step_def on_working_message_received_def ensure_worker_bound_def Benchmark_update_def
      ex_comp_eval ex_reg_def comp_now_sec_def now_secs_def Let_def comp_deposit_event_def del: bind_res_eq_Inr)
  then have "on_working_message_received ?m2 ?s = Inl Panics"
    using heartbeat_panics_iff [OF refl, of ?m2 ex_env ex_comp_genesis ex_reg "()" "[CI_bind 7 1, CI_heartbeat ?m]"]
    by auto
  then show ?thesis by blast
qed

end
