(* ===== verification/Session_Scores.thy ===== *)
theory Session_Scores
  imports Session_Safety
begin

text \<open>
  Performance scores across the two pallets that handle them: the registry caps the score of a
  benchmark, the computation pallet copies it when a session starts and bounds every later score by it.
\<close>

section \<open>Scores in the registry\<close>

definition score_ok :: "WorkerInfoV2 \<Rightarrow> bool" where
  "score_ok v \<longleftrightarrow> (\<forall>p. wi_initial_score v = Some p \<longrightarrow> p \<le> 6000)"

definition scores_ok :: "(h256 \<Rightarrow> WorkerInfoV2 option) \<Rightarrow> bool" where
  "scores_ok ws \<longleftrightarrow> (\<forall>w v. ws w = Some v \<longrightarrow> score_ok v)"

lemma scores_ok_upd [intro!]: "scores_ok ws \<Longrightarrow> score_ok v \<Longrightarrow> scores_ok (ws(w \<mapsto> v))"
  by (simp add: scores_ok_def)

lemma scores_okD: "scores_ok ws \<Longrightarrow> ws w = Some v \<Longrightarrow> score_ok v"
  by (simp add: scores_ok_def)

lemma upsert_worker_scores: "scores_ok (rg_Workers s) \<Longrightarrow> scores_ok (rg_Workers (upsert_worker p e v op f pr c now s))"
  using scores_okD [of "rg_Workers s" p]
  by (auto simp: upsert_worker_def Let_def score_ok_def split: option.split)

lemma dispatch_call_scores:
  assumes r: "Registry_dispatch_call cfg o1 c s = Inr s'" and ok: "scores_ok (rg_Workers s)"
  shows "scores_ok (rg_Workers s')"
proof (cases c)
  case (Call_register_worker i a)
  then show ?thesis using r ok register_worker_Inr [of cfg o1 i a s s'] upsert_worker_scores [OF ok] by auto
next
  case (Call_register_worker_v2 i a)
  have "scores_ok (rg_Workers (s\<lparr>rg_MaxKnownPRuntimeConsensusVersion := k\<rparr>))" for k using ok by simp
  with Call_register_worker_v2 show ?thesis
    using r register_worker_v2_Inr [of cfg o1 i a s s'] upsert_worker_scores by auto
next
  case (Call_register_gatekeeper g)
  with gatekeeper_calls_keep_workers(1) [of cfg o1 g s s'] r ok show ?thesis by simp
next
  case (Call_unregister_gatekeeper g)
  with gatekeeper_calls_keep_workers(2) [of cfg o1 g s s'] r ok show ?thesis by simp
next
  case Call_rotate_master_key
  with gatekeeper_calls_keep_workers(3) [of cfg o1 s s'] r ok show ?thesis by simp
qed (use r ok in \<open>auto simp: registry_call_defs Let_def score_ok_def\<close>)

lemma bench_score_ok: "bench_score now t n = Some p \<Longrightarrow> p \<le> 6000"
  by (auto simp: bench_score_def MAX_SCORE_def Let_def split: if_splits)

lemma registry_step_scores:
  assumes ok: "scores_ok (rg_Workers s)"
  shows "scores_ok (rg_Workers (registry_step cfg s i))"
proof (cases i)
  case (In_call o1 c)
  then show ?thesis using ok dispatch_call_scores [of cfg o1 c s]
    by (cases "Registry_dispatch_call cfg o1 c s") auto
next
  case (In_worker p e)
  then show ?thesis using ok
    by (auto simp: keep_unless_panic_def Registry_on_message_received_def Let_def score_ok_def
      dest: bench_score_ok split: RegistryEvent.split option.split)
next
  case (In_gatekeeper e)
  then show ?thesis using ok
    by (auto simp: keep_unless_panic_def Registry_on_gk_message_received_def Let_def
      split: GatekeeperRegistryEvent.split)
qed (use ok in simp)

section \<open>Invariants of the storage\<close>

text \<open>What the helpers leave unchanged.\<close>

lemma comp_helpers_frame [simp]:
  "cp_Sessions (comp_push_message m s) = cp_Sessions s" "cp_registry (comp_push_message m s) = cp_registry s"
  "cp_events (comp_push_message m s) = cp_events s"
  "cp_BudgetUpdateNonce (comp_push_message m s) = cp_BudgetUpdateNonce s"
  "cp_MaxBudgetLimit (comp_push_message m s) = cp_MaxBudgetLimit s"
  "cp_Sessions (push_comp_worker_event w we s) = cp_Sessions s"
  "cp_registry (push_comp_worker_event w we s) = cp_registry s"
  "cp_events (push_comp_worker_event w we s) = cp_events s"
  "cp_BudgetUpdateNonce (push_comp_worker_event w we s) = cp_BudgetUpdateNonce s"
  "cp_MaxBudgetLimit (push_comp_worker_event w we s) = cp_MaxBudgetLimit s"
  "cp_registry (comp_deposit_event ev s) = cp_registry s"
  "cp_events (comp_deposit_event ev s) = cp_events s @ [ev]"
  "cp_BudgetUpdateNonce (comp_deposit_event ev s) = cp_BudgetUpdateNonce s"
  "cp_MaxBudgetLimit (comp_deposit_event ev s) = cp_MaxBudgetLimit s"
  by (simp_all add: comp_push_message_def push_comp_worker_event_def comp_deposit_event_def)

lemma call_handler_rest: "call_handler h s = Inr s' \<Longrightarrow> \<exists>r. s' = s\<lparr>cp_rest := r\<rparr>"
  by (auto simp: call_handler_def split: option.splits)

text \<open>A property of the storage that every accepted input keeps holds along every run.\<close>

locale comp_invariant =
  fixes J :: "'w comp_state \<Rightarrow> bool" and e :: "('w, 'o) comp_env"
  assumes apply_keeps: "comp_apply e i s = Inr s' \<Longrightarrow> J s \<Longrightarrow> J s'"
begin

lemma comp_step_keeps: "J s \<Longrightarrow> J (comp_step e s i)"
  by (auto simp: comp_step_def split: sum.split intro: apply_keeps)

lemma comp_run_keeps: "J s \<Longrightarrow> J (comp_run e s ins)"
  by (induction ins arbitrary: s) (simp_all add: comp_step_keeps)

end

section \<open>Scores of sessions\<close>

definition bench_ok :: "SessionInfo \<Rightarrow> bool" where
  "bench_ok i \<longleftrightarrow> p_init (si_benchmark i) \<le> 6000 \<and> p_instant (si_benchmark i) \<le> 7200"

definition sessions_ok :: "(h256 \<Rightarrow> SessionInfo option) \<Rightarrow> bool" where
  "sessions_ok ss \<longleftrightarrow> (\<forall>a i. ss a = Some i \<longrightarrow> bench_ok i)"

lemma sessions_ok_upd: "sessions_ok ss \<Longrightarrow> bench_ok i \<Longrightarrow> sessions_ok (ss(a \<mapsto> i))"
  by (simp add: sessions_ok_def)

lemma sessions_okD: "sessions_ok (cp_Sessions s) \<Longrightarrow> cp_Sessions s a = Some i \<Longrightarrow> bench_ok i"
  by (simp add: sessions_ok_def)

lemma Benchmark_update_ok:
  assumes "Benchmark_update now n t b = Some b'" and "p_init b \<le> 6000"
  shows "p_init b' = p_init b \<and> p_instant b' \<le> 7200"
proof -
  have "p_init b * 12 div 10 \<le> 7200"
  proof -
    have u: "unat (p_init b) \<le> 6000" using assms(2) by (simp add: word_le_nat_alt)
    then have "unat (p_init b * 12) = unat (p_init b) * 12"
      by (subst unat_mult_lem [THEN iffD1]) auto
    then have "unat (p_init b * 12 div 10) \<le> 7200" using u by (simp add: unat_div)
    then show ?thesis by (simp add: word_le_nat_alt)
  qed
  moreover have "p_init b' = p_init b" "p_instant b' \<le> p_init b * 12 div 10"
    using assms(1) by (auto simp: Benchmark_update_def Let_def split: if_splits)
  ultimately show ?thesis by (meson order_trans)
qed

definition score_inv :: "'w comp_state \<Rightarrow> bool" where
  "score_inv s \<longleftrightarrow> sessions_ok (cp_Sessions s) \<and> scores_ok (rg_Workers (cp_registry s))"

lemma bench_ok_upd [simp]:
  "bench_ok (i\<lparr>si_state := st\<rparr>) = bench_ok i" "bench_ok (i\<lparr>si_cool_down_start := t\<rparr>) = bench_ok i"
  "bench_ok (i\<lparr>si_ve := v\<rparr>) = bench_ok i" "bench_ok (i\<lparr>si_v_bits := v\<rparr>) = bench_ok i"
  "bench_ok (i\<lparr>si_v_updated_at := t\<rparr>) = bench_ok i" "bench_ok (i\<lparr>si_total_reward := v\<rparr>) = bench_ok i"
  "bench_ok (i\<lparr>si_benchmark := b\<rparr>) \<longleftrightarrow> p_init b \<le> 6000 \<and> p_instant b \<le> 7200"
  by (simp_all add: bench_ok_def)

lemma initial_score_le: 
  "scores_ok (rg_Workers r) \<Longrightarrow> rg_Workers r w = Some v \<Longrightarrow> wi_initial_score v = Some p \<Longrightarrow> p \<le> 6000"
  by (simp add: scores_ok_def score_ok_def)

lemma instant_le: "sessions_ok (cp_Sessions s) \<Longrightarrow> cp_Sessions s a = Some i \<Longrightarrow> p_instant (si_benchmark i) \<le> 7200"
  by (simp add: sessions_ok_def bench_ok_def)

lemma bind_scores: "Computation_bind cc a w s = Inr s' \<Longrightarrow> score_inv s \<Longrightarrow> score_inv s'"
  by (auto simp: Computation_bind_def score_inv_def bench_ok_def Let_def intro!: sessions_ok_upd)

lemma stop_scores: "stop_computing cc a s = Inr s' \<Longrightarrow> score_inv s \<Longrightarrow> score_inv s'"
  by (auto simp: stop_computing_def score_inv_def Let_def dest!: call_handler_rest
    intro!: sessions_ok_upd) (erule (1) sessions_okD)

lemma start_scores: "start_computing fx cc a x s = Inr s' \<Longrightarrow> score_inv s \<Longrightarrow> score_inv s'"
  by (auto simp: start_computing_def score_inv_def Let_def intro!: sessions_ok_upd)
    (erule (2) initial_score_le, erule (1) instant_le)

lemma reclaim_scores: "reclaim a c s = Inr (r, s') \<Longrightarrow> score_inv s \<Longrightarrow> score_inv s'"
  by (auto simp: reclaim_def score_inv_def Let_def intro!: sessions_ok_upd) (erule (1) sessions_okD)

lemma unbind_scores:
  assumes "unbind_session cc a n s = Inr s'" and "score_inv s"
  shows "score_inv s'"
  using assms by (elim unbind_session_InrE) (auto simp: score_inv_def dest: stop_scores [unfolded score_inv_def]
    split: if_splits)

lemma heartbeat_scores:
  assumes "on_working_message_received m s = Inr s'" and ok: "score_inv s"
  shows "score_inv s'"
proof (cases "s' = s")
  case False
  with assms(1) obtain a i b where i: "cp_Sessions s a = Some i"
    and b: "Benchmark_update (comp_now_sec s) (report_iterations (dm_payload m))
      (report_challenge_time (dm_payload m) div 1000) (si_benchmark i) = Some b"
    and s': "cp_Sessions s' = (cp_Sessions s)(a \<mapsto> i\<lparr>si_benchmark := b\<rparr>)" "cp_registry s' = cp_registry s"
    by (auto simp: on_working_message_received_def Let_def split: MessageOrigin.splits)
  have "bench_ok i" using ok i unfolding score_inv_def sessions_ok_def by blast
  then have "bench_ok (i\<lparr>si_benchmark := b\<rparr>)" using Benchmark_update_ok [OF b] by (auto simp: bench_ok_def)
  then show ?thesis using ok s' by (auto simp: score_inv_def intro: sessions_ok_upd)
qed (use ok in simp)

lemma set_state_scores: "score_inv s \<Longrightarrow> score_inv (set_session_state st ev we w s)"
  by (auto simp: set_session_state_def score_inv_def Let_def split: option.split
    intro!: sessions_ok_upd) (erule (1) sessions_okD)

lemma fold_keeps: "(\<And>x s. P s \<Longrightarrow> P (f x s)) \<Longrightarrow> P s \<Longrightarrow> P (fold f xs s)"
  by (induction xs arbitrary: s) auto

lemma treasury_frame:
  "(case u128_from_bits fx tr of
     Inl e \<Rightarrow> (Inl e, s)
   | Inr d \<Rightarrow> (case withdraw_imbalance_from_subsidy_pool cc d s of
       Inl e \<Rightarrow> (Inl e, s)
     | Inr (imb, s) \<Rightarrow> (case call_handler (OnTreasurySettled_on_unbalanced cc imb) s of
         Inl e \<Rightarrow> (Inl e, s)
       | Inr s \<Rightarrow> (Inr (), comp_deposit_event ev s)))) = (res, s') \<Longrightarrow>
   cp_Sessions s' = cp_Sessions s \<and> cp_registry s' = cp_registry s \<and>
   cp_BudgetUpdateNonce s' = cp_BudgetUpdateNonce s \<and> cp_MaxBudgetLimit s' = cp_MaxBudgetLimit s \<and>
   (cp_events s' = cp_events s \<or> cp_events s' = cp_events s @ [ev])"
  by (auto simp: withdraw_imbalance_from_subsidy_pool_def Let_def dest!: call_handler_rest
    split: sum.splits option.splits)

text \<open>What a settlement may change: one session, keeping its benchmark, and the events.\<close>

lemma settle_frame:
  assumes "try_handle_settle fx cc info now ts s = (res, s')"
  shows "cp_registry s' = cp_registry s \<and> cp_BudgetUpdateNonce s' = cp_BudgetUpdateNonce s \<and>
    cp_MaxBudgetLimit s' = cp_MaxBudgetLimit s \<and>
    (cp_Sessions s' = cp_Sessions s \<or> (\<exists>a i j. cp_Sessions s a = Some i \<and> cp_Sessions s' = (cp_Sessions s)(a \<mapsto> j) \<and>
      si_benchmark j = si_benchmark i)) \<and>
    (cp_events s' = cp_events s \<or> (\<exists>a. cp_events s' = cp_events s @ [SessionSettled a (si_v info) (si_payout info)] \<or>
      cp_events s' = cp_events s @ [SessionSettlementDropped a (si_v info) (si_payout info)]))"
proof (cases "cp_WorkerBindings s (si_pubkey info)")
  case (Some a)
  show ?thesis
  proof (cases "cp_Sessions s a")
    case i: (Some i)
    show ?thesis
    proof (cases "ts \<le> si_v_updated_at i")
      case True
      then show ?thesis using assms Some i by (auto simp: try_handle_settle_def)
    next
      case False
      show ?thesis
      proof (cases "u128_from_bits fx (si_payout info) :: Comp_Error exn + u128")
        case (Inl err)
        then show ?thesis using assms Some i False by (auto simp: try_handle_settle_def SessionStats_on_reward_def)
      next
        case (Inr p)
        let ?j = "i\<lparr>si_v_bits := si_v info, si_v_updated_at := now, si_total_reward := si_total_reward i + p\<rparr>"
        let ?s = "s\<lparr>cp_Sessions := (cp_Sessions s)(a \<mapsto> ?j)\<rparr>"
        from assms Some i False Inr have "(case u128_from_bits fx (si_treasury info) of
           Inl e \<Rightarrow> (Inl e, ?s)
         | Inr d \<Rightarrow> (case withdraw_imbalance_from_subsidy_pool cc d ?s of
             Inl e \<Rightarrow> (Inl e, ?s)
           | Inr (imb, s) \<Rightarrow> (case call_handler (OnTreasurySettled_on_unbalanced cc imb) s of
               Inl e \<Rightarrow> (Inl e, s)
             | Inr s \<Rightarrow> (Inr (), comp_deposit_event (SessionSettled a (si_v info) (si_payout info)) s)))) = (res, s')"
          by (simp add: try_handle_settle_def SessionStats_on_reward_def Let_def)
        note f = treasury_frame [OF this]
        have "\<exists>a i j. cp_Sessions s a = Some i \<and> cp_Sessions s' = (cp_Sessions s)(a \<mapsto> j) \<and>
          si_benchmark j = si_benchmark i"
          by (rule exI [of _ a], rule exI [of _ i], rule exI [of _ ?j]) (use f i in simp)
        then show ?thesis using f by auto
      qed
    qed
  qed (use assms Some in \<open>auto simp: try_handle_settle_def\<close>)
qed (use assms in \<open>auto simp: try_handle_settle_def\<close>)

lemma settle_scores:
  assumes "settle_or_report fx cc now ts s info = Inr s'" and ok: "score_inv s"
  shows "score_inv s'"
proof (cases "try_handle_settle fx cc info now ts s")
  case (Pair res t)
  note f = settle_frame [OF Pair]
  have "sessions_ok (cp_Sessions t)"
    using conjunct1 [OF conjunct2 [OF conjunct2 [OF conjunct2 [OF f]]]]
  proof (elim disjE exE conjE)
    fix a i j
    assume t: "cp_Sessions t = (cp_Sessions s)(a \<mapsto> j)" and i: "cp_Sessions s a = Some i"
      and b: "si_benchmark j = si_benchmark i"
    have "bench_ok j" using sessions_okD [OF _ i] ok b by (simp add: score_inv_def bench_ok_def)
    then show ?thesis unfolding t using ok by (simp add: score_inv_def sessions_ok_upd)
  qed (use ok in \<open>simp add: score_inv_def\<close>)
  then have "score_inv t" using f ok by (simp add: score_inv_def)
  with settle_or_report_Inr [OF assms(1) Pair] show ?thesis by (elim disjE) (simp_all add: score_inv_def)
qed

lemma gk_message_scores:
  assumes "Comp_on_gk_message_received fx cc m s = Inr s'" and ok: "score_inv s"
  shows "score_inv s'"
proof (cases "WorkingInfoUpdateEvent_is_empty (dm_payload m)")
  case True
  then show ?thesis using assms by (auto simp: Comp_on_gk_message_received_def Let_def split: if_splits)
next
  case False
  define s2 where "s2 = fold handle_recovered (wi_recovered_to_online (dm_payload m))
    (fold handle_offline (wi_offline (dm_payload m)) s)"
  have s2: "score_inv s2" unfolding s2_def handle_recovered_def handle_offline_def
    by (simp add: fold_keeps [where P = score_inv] set_state_scores ok)
  from assms False obtain s3 r where s3: "foldM_res (settle_or_report fx cc (comp_now_sec s)
      (wi_timestamp_ms (dm_payload m) div 1000)) s2 (wi_settle (dm_payload m)) = Inr s3"
    and s': "s' = s3\<lparr>cp_rest := r\<rparr>"
    by (auto simp: Comp_on_gk_message_received_def Let_def s2_def split: if_splits dest!: call_handler_rest)
  have "score_inv s3"
    by (rule foldM_res_invariant [OF s3, where P = score_inv]) (rule s2, erule (1) settle_scores)
  then show ?thesis by (simp add: s' score_inv_def)
qed

lemma finalize_scores: "Computation_on_finalize q cc s = Inr s' \<Longrightarrow> score_inv s \<Longrightarrow> score_inv s'"
  by (auto simp: Computation_on_finalize_def heartbeat_challenge_def update_tokenomic_parameters_def score_inv_def
    Let_def split: if_splits option.splits)

lemmas comp_call_defs = set_cool_down_expiration_def Computation_unbind_def force_heartbeat_def
  force_start_computing_def force_stop_computing_def update_tokenomic_def set_heartbeat_paused_def
  set_budget_per_block_def update_tokenomic_parameters_def update_contract_root_def

lemma call_scores:
  assumes "comp_dispatch_call e o1 c s = Inr s'" and "score_inv s"
  shows "score_inv s'"
proof -
  note lifted = start_scores stop_scores unbind_scores
  show ?thesis using assms
    by (cases c) (auto simp: comp_call_defs Let_def intro: lifted, auto simp: score_inv_def)
qed

lemma score_inv_frame [simp]: "score_inv (s\<lparr>cp_rest := x\<rparr>) = score_inv s"
  by (simp add: score_inv_def)

lemma registry_scores: "score_inv s \<Longrightarrow> score_inv (s\<lparr>cp_registry := registry_step cfg (cp_registry s) i\<rparr>)"
  by (simp add: score_inv_def registry_step_scores)

interpretation scores: comp_invariant score_inv e for e :: "('w, 'o) comp_env"
proof
  fix i and s s' :: "'w comp_state"
  assume "comp_apply e i s = Inr s'" "score_inv s"
  then show "score_inv s'"
    by (cases i) (auto intro: call_scores bind_scores unbind_scores start_scores stop_scores reclaim_scores
      heartbeat_scores gk_message_scores finalize_scores registry_scores)
qed

lemma genesis_scores:
  assumes "GenesisConfig_build key g registry_empty = Inr r"
  shows "scores_ok (rg_Workers r)"
proof -
  from assms obtain t where t: "foldM_res (genesis_add_worker key (gen_benchmark_duration g)) registry_empty
      (gen_workers g) = Inr t"
    and r: "r = snd (fold genesis_add_gatekeeper (gen_gatekeepers g) ([], t))"
    by (auto simp: GenesisConfig_build_def)
  have "gk_abs t = gk_abs registry_empty" by (rule genesis_workers_keep [OF t])
  then have "rg_Gatekeeper t = []" by (simp add: gk_abs_def registry_empty_def)
  then have "rg_Workers r = rg_Workers t" using genesis_gatekeepers [of t "[]" "gen_gatekeepers g"] r by simp
  moreover have "scores_ok (rg_Workers t)"
  proof (rule foldM_res_invariant [OF t, where P = "\<lambda>s. scores_ok (rg_Workers s)"])
    show "scores_ok (rg_Workers registry_empty)" by (simp add: scores_ok_def registry_empty_def)
    fix s x s'
    assume "scores_ok (rg_Workers s)" "genesis_add_worker key (gen_benchmark_duration g) s x = Inr s'"
    then show "scores_ok (rg_Workers s')"
      by (cases x) (auto simp: genesis_add_worker_def Registry_queue_message_def Let_def score_ok_def split: if_splits)
  qed
  ultimately show ?thesis by simp
qed

text \<open>
  C28: Bounds on performance scores, across registry and computation. Whatever benchmark reports and
  heartbeats say, from genesis on the initial score of a session is at most 6000 and its instant
  score at most 7200, so the product of the initial score with twelve in the update
  does not wrap in 32 bits.
\<close>

theorem performance_bounded:
  assumes r: "GenesisConfig_build key gr registry_empty = Inr r"
    and i: "cp_Sessions (comp_run e (Comp_GenesisConfig_build g (comp_empty r w)) ins) a = Some i"
  shows "p_init (si_benchmark i) \<le> MAX_SCORE \<and> unat (p_instant (si_benchmark i)) \<le> 7200 \<and>
    unat (p_init (si_benchmark i) * 12) = unat (p_init (si_benchmark i)) * 12"
proof -
  have "score_inv (comp_run e (Comp_GenesisConfig_build g (comp_empty r w)) ins)"
    by (rule scores.comp_run_keeps)
      (simp add: score_inv_def Comp_GenesisConfig_build_def comp_empty_def sessions_ok_def genesis_scores [OF r])
  then have b: "p_init (si_benchmark i) \<le> 6000" "p_instant (si_benchmark i) \<le> 7200"
    using i unfolding score_inv_def sessions_ok_def bench_ok_def by blast+
  then have "unat (p_init (si_benchmark i)) \<le> 6000" by (simp add: word_le_nat_alt)
  then have "unat (p_init (si_benchmark i) * 12) = unat (p_init (si_benchmark i)) * 12"
    by (subst unat_mult_lem [THEN iffD1]) auto
  then show ?thesis using b by (simp add: MAX_SCORE_def word_le_nat_alt)
qed

theorem performance_bounded_witness:
  "\<exists>i. cp_Sessions (comp_run ex_env (Comp_GenesisConfig_build ex_comp_genesis (comp_empty ex_registry ()))
      [CI_registry (In_block 9000), CI_registry (In_worker 1 (BenchReport 1000 80000)), CI_bind 7 1]) 7 = Some i \<and>
    p_init (si_benchmark i) \<le> MAX_SCORE"
proof -
  let ?s = "comp_run ex_env (Comp_GenesisConfig_build ex_comp_genesis (comp_empty ex_registry ()))
      [CI_registry (In_block 9000), CI_registry (In_worker 1 (BenchReport 1000 80000)), CI_bind 7 1]"
  have w: "\<exists>v. rg_Workers ex_registry 1 = Some v"
    by (simp add: ex_registry_def GenesisConfig_build_def ex_genesis_def genesis_add_worker_def
      genesis_add_gatekeeper_def registry_empty_def Registry_queue_message_def Let_def)
  then have "cp_Sessions ?s 7 \<noteq> None"
    by (auto simp: comp_step_def Computation_bind_def Comp_GenesisConfig_build_def comp_empty_def
      ensure_session_bound_def ensure_worker_bound_def comp_deposit_event_def Let_def ex_comp_genesis_def ex_env_def
      ex_cc_def keep_unless_panic_def Registry_on_message_received_def bench_score_def registry_helpers
      simp del: bind_res_eq_Inr)
  then obtain i where "cp_Sessions ?s 7 = Some i" by blast
  with performance_bounded [OF ex_registry_build this] show ?thesis by blast
qed

end
