(* ===== verification/Session_Budget.thy ===== *)
theory Session_Budget
  imports Session_Scores
begin

text \<open>
  Budget updates and settlements of the computation pallet: the budget the off-chain contract sets is
  updated with increasing nonces and stays below twice the limit; a settlement does not look at the
  state of the session.
\<close>

section \<open>Budget updates\<close>

fun budget_of :: "Comp_Event \<Rightarrow> (u64 \<times> u128) list" where
  "budget_of (BudgetUpdated nonce budget) = [(nonce, budget)]"
| "budget_of _ = []"

definition budget_log :: "'w comp_state \<Rightarrow> (u64 \<times> u128) list" where
  "budget_log s = concat (map budget_of (cp_events s))"

definition same_budget :: "'w comp_state \<Rightarrow> 'w comp_state \<Rightarrow> bool" where
  "same_budget s s' \<longleftrightarrow> budget_log s' = budget_log s \<and> cp_BudgetUpdateNonce s' = cp_BudgetUpdateNonce s \<and>
     cp_MaxBudgetLimit s' = cp_MaxBudgetLimit s"

lemma same_budget_refl [simp]: "same_budget s s"
  by (simp add: same_budget_def)

lemma same_budget_trans [trans]: "same_budget s t \<Longrightarrow> same_budget t u \<Longrightarrow> same_budget s u"
  by (simp add: same_budget_def)

lemmas budget_simps = same_budget_def budget_log_def Let_def

lemma bind_budget: "Computation_bind cc a w s = Inr s' \<Longrightarrow> same_budget s s'"
  by (auto simp: Computation_bind_def budget_simps)

lemma stop_budget: "stop_computing cc a s = Inr s' \<Longrightarrow> same_budget s s'"
  by (auto simp: stop_computing_def budget_simps dest!: call_handler_rest)

lemma start_budget: "start_computing fx cc a x s = Inr s' \<Longrightarrow> same_budget s s'"
  by (auto simp: start_computing_def budget_simps)

lemma reclaim_budget: "reclaim a c s = Inr (r, s') \<Longrightarrow> same_budget s s'"
  by (auto simp: reclaim_def budget_simps)

lemma unbind_budget:
  assumes "unbind_session cc a n s = Inr s'"
  shows "same_budget s s'"
  using assms by (elim unbind_session_InrE) (auto simp: budget_simps dest: stop_budget [unfolded budget_simps]
    split: if_splits)

lemma heartbeat_budget: "on_working_message_received m s = Inr s' \<Longrightarrow> same_budget s s'"
  by (auto simp: on_working_message_received_def budget_simps split: MessageOrigin.splits)

lemma offline_budget: "same_budget s (handle_offline w s)"
  by (auto simp: handle_offline_def set_session_state_def budget_simps split: option.split)

lemma recovered_budget: "same_budget s (handle_recovered w s)"
  by (auto simp: handle_recovered_def set_session_state_def budget_simps split: option.split)

lemma settle_budget:
  assumes "settle_or_report fx cc now ts s info = Inr s'"
  shows "same_budget s s'"
proof (cases "try_handle_settle fx cc info now ts s")
  case (Pair res t)
  have "same_budget s t" using settle_frame [OF Pair] by (auto simp: budget_simps)
  with settle_or_report_Inr [OF assms Pair] show ?thesis by (elim disjE) (simp_all add: budget_simps)
qed

lemma gk_message_budget:
  assumes "Comp_on_gk_message_received fx cc m s = Inr s'"
  shows "same_budget s s'"
proof (cases "WorkingInfoUpdateEvent_is_empty (dm_payload m)")
  case True
  then show ?thesis using assms by (auto simp: Comp_on_gk_message_received_def Let_def split: if_splits)
next
  case False
  define s1 where "s1 = fold handle_offline (wi_offline (dm_payload m)) s"
  define s2 where "s2 = fold handle_recovered (wi_recovered_to_online (dm_payload m)) s1"
  have s1: "same_budget s s1" unfolding s1_def
    by (rule fold_keeps [where P = "same_budget s"]) (auto intro: same_budget_trans offline_budget)
  have s2: "same_budget s s2" unfolding s2_def
    by (rule fold_keeps [where P = "same_budget s"]) (auto intro: same_budget_trans recovered_budget s1)
  from assms False obtain s3 r where s3: "foldM_res (settle_or_report fx cc (comp_now_sec s)
      (wi_timestamp_ms (dm_payload m) div 1000)) s2 (wi_settle (dm_payload m)) = Inr s3"
    and s': "s' = s3\<lparr>cp_rest := r\<rparr>"
    by (auto simp: Comp_on_gk_message_received_def Let_def s1_def s2_def split: if_splits dest!: call_handler_rest)
  have "same_budget s s3"
    by (rule foldM_res_invariant [OF s3, where P = "same_budget s"])
      (auto intro: s2 same_budget_trans settle_budget)
  then show ?thesis by (simp add: s' budget_simps)
qed

lemma finalize_budget: "Computation_on_finalize q cc s = Inr s' \<Longrightarrow> same_budget s s'"
  by (auto simp: Computation_on_finalize_def heartbeat_challenge_def update_tokenomic_parameters_def budget_simps
    split: if_splits option.splits)

definition budget_inv :: "'w comp_state \<Rightarrow> bool" where
  "budget_inv s \<longleftrightarrow> sorted_wrt (<) (map fst (budget_log s)) \<and> cp_MaxBudgetLimit s = 1729382256910270464000 \<and>
     (\<forall>(n, b) \<in> set (budget_log s). n \<le> cp_BudgetUpdateNonce s \<and> unat b \<le> 2 * 1729382256910270464000)"

lemma same_budget_inv: "same_budget s s' \<Longrightarrow> budget_inv s \<Longrightarrow> budget_inv s'"
  by (simp add: same_budget_def budget_inv_def)

lemma set_budget_inv:
  assumes "set_budget_per_block cc o1 n b v s = Inr s'" and inv: "budget_inv s"
  shows "budget_inv s'"
proof -
  from assms(1) have n: "cp_BudgetUpdateNonce s < n" and v: "v \<le> cp_MaxBudgetLimit s * 2"
    and s': "budget_log s' = budget_log s @ [(n, v)]" "cp_BudgetUpdateNonce s' = n"
      "cp_MaxBudgetLimit s' = cp_MaxBudgetLimit s"
    by (auto simp: set_budget_per_block_def update_tokenomic_parameters_def budget_log_def BUDGET_SAFE_MULTIPLIER_def
      Let_def)
  have "v \<le> 3458764513820540928000" using v inv by (simp add: budget_inv_def)
  then have "unat v \<le> 2 * 1729382256910270464000" by (simp add: word_le_nat_alt)
  then show ?thesis using inv n s' by (fastforce simp: budget_inv_def sorted_wrt_append)
qed

lemma call_budget:
  assumes "comp_dispatch_call e o1 c s = Inr s'" and inv: "budget_inv s"
  shows "budget_inv s'"
proof (cases "\<exists>n b v. c = Call_set_budget_per_block n b v")
  case True
  then show ?thesis using assms set_budget_inv by fastforce
next
  case False
  then have "same_budget s s'" using assms(1)
    by (cases c) (auto simp: set_cool_down_expiration_def Computation_unbind_def force_heartbeat_def
      force_start_computing_def force_stop_computing_def update_tokenomic_def set_heartbeat_paused_def
      update_contract_root_def intro: start_budget stop_budget unbind_budget, auto simp: budget_simps)
  then show ?thesis using inv by (rule same_budget_inv)
qed

lemma other_budget:
  "same_budget s (s\<lparr>cp_rest := x\<rparr>)" "same_budget s (s\<lparr>cp_registry := r\<rparr>)"
  by (simp_all add: budget_simps)

interpretation budgets: comp_invariant budget_inv e for e :: "('w, 'o) comp_env"
proof
  fix i and s s' :: "'w comp_state"
  assume "comp_apply e i s = Inr s'" "budget_inv s"
  then show "budget_inv s'"
    by (cases i) (auto intro: call_budget same_budget_inv [OF bind_budget] same_budget_inv [OF unbind_budget]
      same_budget_inv [OF start_budget] same_budget_inv [OF stop_budget] same_budget_inv [OF reclaim_budget]
      same_budget_inv [OF heartbeat_budget] same_budget_inv [OF gk_message_budget]
      same_budget_inv [OF finalize_budget] same_budget_inv [OF other_budget(1)] same_budget_inv [OF other_budget(2)])
qed

text \<open>
  Budget updates since genesis carry strictly increasing nonces, none above the stored nonce, and
  every budget set is at most twice the limit of storage (with no wrap-around in that product).
\<close>

theorem budget_updates_ordered:
  "sorted_wrt (<) (map fst (budget_log (comp_run e (Comp_GenesisConfig_build g (comp_empty r w)) ins))) \<and>
   list_all (\<lambda>(n, b). n \<le> cp_BudgetUpdateNonce (comp_run e (Comp_GenesisConfig_build g (comp_empty r w)) ins) \<and>
       unat b \<le> 2 * unat (cp_MaxBudgetLimit (comp_run e (Comp_GenesisConfig_build g (comp_empty r w)) ins)))
     (budget_log (comp_run e (Comp_GenesisConfig_build g (comp_empty r w)) ins))"
proof -
  have "budget_inv (comp_run e (Comp_GenesisConfig_build g (comp_empty r w)) ins)"
    by (rule budgets.comp_run_keeps)
      (simp add: budget_inv_def budget_log_def Comp_GenesisConfig_build_def comp_empty_def)
  then show ?thesis unfolding budget_inv_def list_all_iff by auto
qed

section \<open>Settlements\<close>

text \<open>
  C35: A settlement does not depend on the state of the session. For a bound session that may not be
  settled (\<open>Ready\<close> or cooling down), a settlement newer than its last update still replaces its \<open>V\<close> and
  adds the payout, since only a debug assertion looks at the state.
\<close>

theorem settlement_ignores_state:
  assumes "cp_WorkerBindings s (si_pubkey info) = Some a" and "cp_Sessions s a = Some i"
    and "\<not> WorkerState_can_settle (si_state i)" and "si_v_updated_at i < emit_ts"
    and "u128_from_bits fx (si_payout info) = (Inr pay :: Comp_Error exn + u128)"
  shows "\<exists>j. cp_Sessions (snd (try_handle_settle fx cc info now emit_ts s)) a = Some j \<and>
    si_state j = si_state i \<and> si_v_bits j = si_v info \<and> si_v_updated_at j = now \<and>
    si_total_reward j = si_total_reward i + pay"
proof -
  let ?j = "i\<lparr>si_v_bits := si_v info, si_v_updated_at := now, si_total_reward := si_total_reward i + pay\<rparr>"
  let ?s = "s\<lparr>cp_Sessions := (cp_Sessions s)(a \<mapsto> ?j)\<rparr>"
  obtain res s' where r: "try_handle_settle fx cc info now emit_ts s = (res, s')" by fastforce
  then have "(case u128_from_bits fx (si_treasury info) of
      Inl e \<Rightarrow> (Inl e, ?s)
    | Inr d \<Rightarrow> (case withdraw_imbalance_from_subsidy_pool cc d ?s of
        Inl e \<Rightarrow> (Inl e, ?s)
      | Inr (imb, s) \<Rightarrow> (case call_handler (OnTreasurySettled_on_unbalanced cc imb) s of
          Inl e \<Rightarrow> (Inl e, s)
        | Inr s \<Rightarrow> (Inr (), comp_deposit_event (SessionSettled a (si_v info) (si_payout info)) s)))) = (res, s')"
    using assms(1,2,5) not_le [THEN iffD2, OF assms(4)]
    by (simp add: try_handle_settle_def SessionStats_on_reward_def Let_def)
  from treasury_frame [OF this] show ?thesis by (simp add: r)
qed

text \<open>The example, bound and never started, settled with a \<open>V\<close> of 42 and a payout of 3.\<close>

theorem settlement_ignores_state_witness:
  "\<exists>i j. cp_Sessions ex_comp 7 = Some i \<and> si_state i = Ready \<and>
    cp_Sessions (snd (try_handle_settle ex_fx ex_cc \<lparr>si_pubkey = 1, si_v = 42, si_payout = 3, si_treasury = 0\<rparr> 9 8
      ex_comp)) 7 = Some j \<and> si_v_bits j = 42"
proof -
  have i: "cp_Sessions ex_comp 7 = Some \<lparr>si_state = Ready, si_ve = 0, si_v_bits = 0, si_v_updated_at = 5,
    si_benchmark = \<lparr>p_init = 0, p_instant = 0, bm_iterations = 0, working_start_time = 5,
      challenge_time_last = 0\<rparr>, si_cool_down_start = 0, si_total_reward = 0\<rparr>" (is "_ = Some ?i")
    by (rule ex_comp_session)
  let ?info = "\<lparr>si_pubkey = 1, si_v = 42, si_payout = 3, si_treasury = 0\<rparr>"
  have "cp_WorkerBindings ex_comp (si_pubkey ?info) = Some 7" "\<not> WorkerState_can_settle (si_state ?i)"
    "si_v_updated_at ?i < 8"
    "u128_from_bits ex_fx (si_payout ?info) = (Inr (3 * PHA) :: Comp_Error exn + u128)"
    by (simp_all add: ex_comp_eval WorkerState_can_settle_def u128_from_bits_def u128_from_fixed_def ex_fx_def)
  from settlement_ignores_state [OF this(1) i this(2-4), of ex_cc 9] i show ?thesis by auto
qed

end
