(* ===== verification/Worker_Benchmark.thy ===== *)
theory Worker_Benchmark
  imports Prelude
begin

text \<open>
  The benchmark of a worker, \<open>crates/phactory/src/benchmark.rs\<close>: a thread that counts primes in a loop,
  the global counters it advances, and the flags that pause it. The statics \<open>ITERATION_COUNTER\<close>,
  \<open>SCORE\<close> and \<open>FLAGS\<close> are the fields of a record, with whether the mutex of the flags is poisoned.
  \<open>black_box\<close> is the identity. A reading of the wall clock is an argument: \<^term>\<open>None\<close> is a clock before
  the epoch, on which \<open>now\<close> panics. In all operations \<^term>\<open>None\<close> as the result is a panic.
\<close>

unbundle bit_operations_syntax

section \<open>Flags\<close>

type_synonym Flags = u32

definition BENCH_PAUSED :: Flags where
  "BENCH_PAUSED = 1"

definition SYNCING :: Flags where
  "SYNCING = 2"

definition CONTRACT_RUNNING :: Flags where
  "CONTRACT_RUNNING = 4"

record Benchmark_Statics =
  bs_counter :: u64
  bs_score :: u64
  bs_flags :: Flags
  bs_poisoned :: bool

text \<open>The initial values of the statics.\<close>

definition benchmark_statics :: Benchmark_Statics where
  "benchmark_statics = \<lparr>bs_counter = 0, bs_score = 0, bs_flags = BENCH_PAUSED, bs_poisoned = False\<rparr>"

text \<open>\<open>State\<close>, in which the statics are saved and restored.\<close>

record Benchmark_State =
  st_counter :: u64
  st_score :: u64
  st_flags :: Flags

text \<open>\<open>FLAGS.lock().unwrap()\<close>.\<close>

definition benchmark_lock :: "Benchmark_Statics \<Rightarrow> Flags option" where
  "benchmark_lock s = (if bs_poisoned s then None else Some (bs_flags s))"

definition benchmark_dump_state :: "Benchmark_Statics \<Rightarrow> Benchmark_State option" where
  "benchmark_dump_state s = (case benchmark_lock s of None \<Rightarrow> None
     | Some flags \<Rightarrow> Some \<lparr>st_counter = bs_counter s, st_score = bs_score s, st_flags = flags\<rparr>)"

definition benchmark_restore_state :: "Benchmark_State \<Rightarrow> Benchmark_Statics \<Rightarrow> Benchmark_Statics option" where
  "benchmark_restore_state state s =
     (let s = s\<lparr>bs_counter := st_counter state, bs_score := st_score state\<rparr>
      in case benchmark_lock s of None \<Rightarrow> None | Some _ \<Rightarrow> Some (s\<lparr>bs_flags := st_flags state\<rparr>))"

definition benchmark_set_flag :: "Flags \<Rightarrow> bool \<Rightarrow> Benchmark_Statics \<Rightarrow> Benchmark_Statics option" where
  "benchmark_set_flag flag on s = (case benchmark_lock s of None \<Rightarrow> None
     | Some guard \<Rightarrow> Some (s\<lparr>bs_flags := (if on then guard OR flag else guard AND NOT flag)\<rparr>))"

definition benchmark_check_flag :: "Flags \<Rightarrow> Benchmark_Statics \<Rightarrow> bool option" where
  "benchmark_check_flag flag s = (case benchmark_lock s of None \<Rightarrow> None
     | Some guard \<Rightarrow> Some (guard AND flag = flag))"

definition benchmark_pause :: "Benchmark_Statics \<Rightarrow> Benchmark_Statics option" where
  "benchmark_pause s = benchmark_set_flag BENCH_PAUSED True s"

definition benchmark_resume :: "Benchmark_Statics \<Rightarrow> Benchmark_Statics option" where
  "benchmark_resume s = benchmark_set_flag BENCH_PAUSED False s"

definition benchmark_paused :: "Benchmark_Statics \<Rightarrow> bool option" where
  "benchmark_paused s = (case benchmark_lock s of None \<Rightarrow> None | Some guard \<Rightarrow> Some (guard \<noteq> 0))"

definition benchmark_syncing :: "Benchmark_Statics \<Rightarrow> bool option" where
  "benchmark_syncing s = benchmark_check_flag SYNCING s"

definition benchmark_iteration_counter :: "Benchmark_Statics \<Rightarrow> u64" where
  "benchmark_iteration_counter s = bs_counter s"

definition benchmark_reset_iteration_counter :: "Benchmark_Statics \<Rightarrow> Benchmark_Statics" where
  "benchmark_reset_iteration_counter s = s\<lparr>bs_counter := 0\<rparr>"

definition benchmark_get_score :: "Benchmark_Statics \<Rightarrow> u64" where
  "benchmark_get_score s = bs_score s"

section \<open>The workload\<close>

definition UNIT :: nat where
  "UNIT = 1"

definition MAX_NUM :: u128 where
  "MAX_NUM = 65536 * 128"

text \<open>The loop of \<open>is_prime\<close> over a range; a remainder by zero panics.\<close>

fun is_prime_loop :: "u128 \<Rightarrow> u128 list \<Rightarrow> bool option" where
  "is_prime_loop num [] = Some True"
| "is_prime_loop num (i # rest) =
     (if i = 0 then None else if num mod i = 0 then Some False else is_prime_loop num rest)"

text \<open>The values of the range \<open>a..b\<close>.\<close>

definition u128_range :: "u128 \<Rightarrow> nat \<Rightarrow> u128 list" where
  "u128_range a b = map of_nat [unat a ..< b]"

definition is_prime :: "u128 \<Rightarrow> bool option" where
  "is_prime num = (let tmp = num - 1 in is_prime_loop num (u128_range tmp (Suc 2)))"

fun count_prime_loop :: "usize \<Rightarrow> u128 list \<Rightarrow> usize option" where
  "count_prime_loop count [] = Some count"
| "count_prime_loop count (i # rest) = (case is_prime i of None \<Rightarrow> None
     | Some b \<Rightarrow> count_prime_loop (if b then count + 1 else count) rest)"

definition count_prime :: "u128 \<Rightarrow> usize option" where
  "count_prime max_num = count_prime_loop 0 (u128_range 2 (unat max_num))"

definition est_score :: "u64 \<Rightarrow> u64 \<Rightarrow> u64 option \<Rightarrow> Benchmark_Statics \<Rightarrow> u64 option" where
  "est_score since start clock s = (case clock of None \<Rightarrow> None
     | Some now \<Rightarrow> Some (if now \<le> since then 0 else (bs_counter s - start) * 6 div (now - since)))"

text \<open>The inner loop of \<open>run\<close>; the counts are thrown away.\<close>

fun benchmark_work :: "nat \<Rightarrow> unit option" where
  "benchmark_work 0 = Some ()"
| "benchmark_work (Suc n) = (case count_prime MAX_NUM of None \<Rightarrow> None | Some _ \<Rightarrow> benchmark_work n)"

text \<open>
  One pass of the loop of \<open>run\<close>: the work, the counters, and whether the thread goes on. \<open>clock\<close> is the
  reading of the clock, if the pass takes one, and \<open>lock\<close> is what the other threads have left in the
  mutex of the flags when the pass locks it (\<^term>\<open>None\<close>: poisoned).
\<close>

definition benchmark_pass ::
  "u64 \<Rightarrow> u64 \<Rightarrow> u64 option \<Rightarrow> Flags option \<Rightarrow> Benchmark_Statics \<Rightarrow> (Benchmark_Statics \<times> bool) option" where
  "benchmark_pass since start clock lock s =
     (case benchmark_work UNIT of None \<Rightarrow> None
      | Some _ \<Rightarrow>
     let count = bs_counter s; s = s\<lparr>bs_counter := bs_counter s + 1\<rparr> in
     case (if count mod 100 = 0
           then map_option (\<lambda>score. s\<lparr>bs_score := score\<rparr>) (est_score since start clock s)
           else Some s) of None \<Rightarrow> None
      | Some s \<Rightarrow>
     let s = (case lock of None \<Rightarrow> s\<lparr>bs_poisoned := True\<rparr>
              | Some flags \<Rightarrow> s\<lparr>bs_flags := flags, bs_poisoned := False\<rparr>) in
     map_option (\<lambda>paused. (s, \<not> paused)) (benchmark_paused s))"

text \<open>\<open>run\<close> over what its passes read; the flag says whether it still runs.\<close>

fun benchmark_run_loop ::
  "u64 \<Rightarrow> u64 \<Rightarrow> (u64 option \<times> Flags option) list \<Rightarrow> Benchmark_Statics \<Rightarrow>
   (Benchmark_Statics \<times> bool) option" where
  "benchmark_run_loop since start [] s = Some (s, True)"
| "benchmark_run_loop since start ((clock, lock) # rest) s =
     (case benchmark_pass since start clock lock s of None \<Rightarrow> None
      | Some (s, go_on) \<Rightarrow> if go_on then benchmark_run_loop since start rest s else Some (s, False))"

definition benchmark_run ::
  "u64 option \<Rightarrow> (u64 option \<times> Flags option) list \<Rightarrow> Benchmark_Statics \<Rightarrow>
   (Benchmark_Statics \<times> bool) option" where
  "benchmark_run clock seen s = (case clock of None \<Rightarrow> None
     | Some since \<Rightarrow> benchmark_run_loop since (benchmark_iteration_counter s) seen s)"

section \<open>What the workload counts\<close>

lemma u128_range_empty: "b \<le> unat a \<Longrightarrow> u128_range a b = []"
  by (simp add: u128_range_def)

lemma unat_pred: "(w :: u128) \<noteq> 0 \<Longrightarrow> unat (w - 1) = unat w - 1"
  by (metis unat_minus_one)

lemma is_prime_above: "3 < num \<Longrightarrow> is_prime num = Some True"
proof -
  assume *: "3 < num"
  then have "3 < unat num" by (simp add: word_less_nat_alt)
  moreover have "num \<noteq> 0" using * by auto
  ultimately have "3 \<le> unat (num - 1)" by (simp add: unat_pred)
  then show ?thesis by (simp add: is_prime_def u128_range_empty)
qed

lemma is_prime_0: "is_prime 0 = Some True"
proof -
  have "3 \<le> (- 1 :: u128)" by simp
  then have "Suc 2 \<le> unat (- 1 :: u128)" by (simp only: word_le_nat_alt) simp
  then show ?thesis by (simp add: is_prime_def u128_range_empty)
qed

lemma is_prime_small: "is_prime 1 = None" "is_prime 2 = Some False" "is_prime 3 = Some True"
  by (simp_all add: is_prime_def u128_range_def upt_rec)

lemma unat_eq_iff_word: "unat (a :: u128) = unat b \<longleftrightarrow> a = b"
  by (simp add: word_unat_eq_iff)

lemma u128_le_3: "num \<le> (3 :: u128) \<Longrightarrow> num = 0 \<or> num = 1 \<or> num = 2 \<or> num = 3"
proof -
  assume "num \<le> 3"
  then have "unat num \<le> 3" by (simp add: word_le_nat_alt)
  then have "unat num = unat (0 :: u128) \<or> unat num = unat (1 :: u128) \<or>
      unat num = unat (2 :: u128) \<or> unat num = unat (3 :: u128)" by auto
  then show ?thesis by (simp only: unat_eq_iff_word)
qed

lemma is_prime_value: "is_prime num = (if num = 1 then None else Some (num \<noteq> 2))"
proof (cases "3 < num")
  case True
  then show ?thesis using is_prime_above [of num] by auto
next
  case False
  then show ?thesis using u128_le_3 [of num, OF leI] by (auto simp: is_prime_0 is_prime_small)
qed

lemma count_prime_loop_above:
  assumes "\<forall>i \<in> set xs. i \<noteq> 1 \<and> i \<noteq> 2"
  shows "count_prime_loop c xs = Some (c + of_nat (length xs))"
  using assms by (induction xs arbitrary: c) (auto simp: is_prime_value algebra_simps)

lemma of_nat_neq_12:
  assumes "3 \<le> i" and "i < unat (n :: u128)"
  shows "(of_nat i :: u128) \<noteq> 1 \<and> (of_nat i :: u128) \<noteq> 2"
proof -
  have "i < 2 ^ LENGTH(128)" using assms(2) unat_less_word [of n] by (rule less_trans)
  then have "unat (of_nat i :: u128) = i" by (rule unat_of_nat_word)
  with assms(1) show ?thesis by fastforce
qed

lemma count_prime_value: "count_prime n = Some (of_nat (unat n - 3))"
proof (cases "unat n \<le> 2")
  case True
  then show ?thesis by (simp add: count_prime_def u128_range_empty)
next
  case False
  have "\<forall>i \<in> set (u128_range 3 (unat n)). i \<noteq> 1 \<and> i \<noteq> 2"
    using of_nat_neq_12 [of _ n] by (force simp: u128_range_def)
  then have "count_prime_loop 0 (u128_range 3 (unat n)) = Some (of_nat (unat n - 3))"
    by (simp add: count_prime_loop_above) (simp add: u128_range_def)
  moreover have "u128_range 2 (unat n) = 2 # u128_range 3 (unat n)"
    using False by (simp add: u128_range_def upt_conv_Cons)
  ultimately show ?thesis by (simp add: count_prime_def is_prime_value)
qed

lemma benchmark_work_returns [simp]: "benchmark_work n = Some ()"
  by (induction n) (auto simp: count_prime_value)

text \<open>
  What a pass reads is usable: the mutex is not poisoned, and the clock is not before the epoch in the
  one pass of a hundred that reads it.
\<close>

definition pass_reads :: "u64 \<Rightarrow> u64 option \<times> Flags option \<Rightarrow> bool" where
  "pass_reads count x \<longleftrightarrow> snd x \<noteq> None \<and> (count mod 100 = 0 \<longrightarrow> fst x \<noteq> None)"

lemma benchmark_pass_None:
  "\<not> pass_reads (bs_counter s) (clock, lock) \<Longrightarrow> benchmark_pass since start clock lock s = None"
  by (cases lock; cases clock)
    (auto simp: benchmark_pass_def pass_reads_def est_score_def benchmark_paused_def benchmark_lock_def Let_def)

lemma benchmark_pass_Some:
  assumes "pass_reads (bs_counter s) (clock, lock)"
  shows "\<exists>s'. benchmark_pass since start clock lock s = Some (s', lock = Some 0) \<and>
    bs_counter s' = bs_counter s + 1"
  using assms by (cases lock; cases clock)
    (auto simp: benchmark_pass_def pass_reads_def est_score_def benchmark_paused_def benchmark_lock_def Let_def)

text \<open>The passes of a run before the one that does not find the flags clear.\<close>

abbreviation clear_passes :: "(u64 option \<times> Flags option) list \<Rightarrow> nat" where
  "clear_passes seen \<equiv> length (takeWhile (\<lambda>x. snd x = Some 0) seen)"

lemma if_weak_imp: "(if b then P else Q) \<Longrightarrow> (Q \<Longrightarrow> R) \<Longrightarrow> (if b then P else R)"
  by (simp split: if_splits)

lemma benchmark_run_loop_value:
  "(if \<exists>i < length seen. i \<le> clear_passes seen \<and> \<not> pass_reads (bs_counter s + of_nat i) (seen ! i)
    then benchmark_run_loop since start seen s = None
    else \<exists>s'. benchmark_run_loop since start seen s = Some (s', clear_passes seen = length seen) \<and>
      bs_counter s' = bs_counter s + of_nat (min (Suc (clear_passes seen)) (length seen)))"
proof (induction seen arbitrary: s)
  case (Cons x seen)
  obtain clock lock where x: "x = (clock, lock)" by (cases x)
  show ?case
  proof (cases "pass_reads (bs_counter s) (clock, lock)")
    case False
    then have "benchmark_run_loop since start (x # seen) s = None" by (simp add: x benchmark_pass_None)
    moreover have "\<exists>i < length (x # seen). i \<le> clear_passes (x # seen) \<and>
        \<not> pass_reads (bs_counter s + of_nat i) ((x # seen) ! i)"
      using False x by (intro exI [of _ 0]) simp
    ultimately show ?thesis by simp
  next
    case True
    from benchmark_pass_Some [OF True] obtain s1 where
      s1: "benchmark_pass since start clock lock s = Some (s1, lock = Some 0)" "bs_counter s1 = bs_counter s + 1"
      by blast
    show ?thesis
    proof (cases "lock = Some 0")
      case False
      then have "clear_passes (x # seen) = 0" by (simp add: x)
      moreover have "benchmark_run_loop since start (x # seen) s = Some (s1, False)" using s1 False by (simp add: x)
      ultimately show ?thesis using True s1(2) x by simp
    next
      case lk: True
      have c: "clear_passes (x # seen) = Suc (clear_passes seen)" using lk by (simp add: x)
      have run: "benchmark_run_loop since start (x # seen) s = benchmark_run_loop since start seen s1"
        using s1 lk by (simp add: x)
      have bad: "(\<exists>i < length (x # seen). i \<le> clear_passes (x # seen) \<and>
          \<not> pass_reads (bs_counter s + of_nat i) ((x # seen) ! i)) \<longleftrightarrow>
        (\<exists>i < length seen. i \<le> clear_passes seen \<and> \<not> pass_reads (bs_counter s1 + of_nat i) (seen ! i))"
        (is "?A \<longleftrightarrow> ?B")
      proof
        assume ?A
        then obtain i where i: "i < length (x # seen)" "i \<le> clear_passes (x # seen)"
          "\<not> pass_reads (bs_counter s + of_nat i) ((x # seen) ! i)" by blast
        then obtain j where "i = Suc j" using True x by (cases i) auto
        then show ?B using i s1(2) c by (intro exI [of _ j]) (auto simp: add.assoc)
      next
        assume ?B
        then obtain j where "j < length seen" "j \<le> clear_passes seen"
          "\<not> pass_reads (bs_counter s1 + of_nat j) (seen ! j)" by blast
        then show ?A using s1(2) c by (intro exI [of _ "Suc j"]) (auto simp: add.assoc)
      qed
      show ?thesis using Cons [of s1] unfolding bad run
        by (rule if_weak_imp) (auto simp: x lk s1(2) add.assoc)
    qed
  qed
qed simp

text \<open>The function \<open>is_prime\<close> does not test primality: its range runs from the number down to two, so
  it is empty for every number above three. Two counts as composite and every number from three on as
  prime (one divides by zero).\<close>

theorem is_prime_tests_nothing: "is_prime num = (if num = 1 then None else Some (num \<noteq> 2))"
  by (rule is_prime_value)



end
