(* ===== verification/Worker_Machine.thy ===== *)
theory Worker_Machine
  imports Pallet_Registry Worker_Benchmark
begin

text \<open>
  The state machine of a worker, the first part of \<open>crates/phactory/src/system/mod.rs\<close>. The same machine
  runs twice: in the worker itself, with the callback \<open>WorkerSMDelegate\<close> that sends the heartbeats and
  drives the benchmark thread, and replayed in every gatekeeper, with the callback \<open>WorkerSMTracker\<close>
  that only notes which heartbeats to expect.

  The trait \<open>WorkerStateMachineCallback\<close> is a record of the operations of an implementation whose own
  state has the type \<open>'c\<close>; the blake2 hash of a public key, read as a number, is the argument
  \<open>hashed\<close>.
\<close>

unbundle bit_operations_syntax

section \<open>Data\<close>

text \<open>What the handlers read of a block.\<close>

record BaseBlockInfo =
  bi_block_number :: u32
  bi_now_ms :: u64

record BenchState =
  bst_start_block :: u32
  bst_start_time :: u64
  bst_start_iter :: u64
  bst_duration :: u32

datatype WorkingState = Computing | Paused

record WorkingInfo =
  wk_session_id :: u32
  wk_state :: WorkingState
  wk_start_time :: u64
  wk_start_iter :: u64

record WorkerState_sm =
  ws_pubkey :: h256
  ws_hashed_id :: h256
  ws_registered :: bool
  ws_bench_state :: "BenchState option"
  ws_working_state :: "WorkingInfo option"

definition WorkerState_new :: "(h256 \<Rightarrow> h256) \<Rightarrow> h256 \<Rightarrow> WorkerState_sm" where
  "WorkerState_new hashed pubkey =
     \<lparr>ws_pubkey = pubkey, ws_hashed_id = hashed pubkey, ws_registered = False,
      ws_bench_state = None, ws_working_state = None\<rparr>"

section \<open>Callbacks\<close>

record 'c WorkerStateMachineCallback =
  cb_bench_iterations :: "'c \<Rightarrow> u64"
  cb_bench_resume :: "'c \<Rightarrow> 'c"
  cb_bench_pause :: "'c \<Rightarrow> 'c"
  cb_bench_report :: "u64 \<Rightarrow> u64 \<Rightarrow> 'c \<Rightarrow> 'c"
  cb_heartbeat :: "u32 \<Rightarrow> u32 \<Rightarrow> u64 \<Rightarrow> u64 \<Rightarrow> 'c \<Rightarrow> 'c"

text \<open>The default bodies of the trait.\<close>

definition WorkerStateMachineCallback_default :: "'c WorkerStateMachineCallback" where
  "WorkerStateMachineCallback_default =
     \<lparr>cb_bench_iterations = \<lambda>_. 0, cb_bench_resume = id, cb_bench_pause = id,
      cb_bench_report = \<lambda>_ _. id, cb_heartbeat = \<lambda>_ _ _ _. id\<rparr>"

text \<open>What a worker pushes to its egress channel, in order.\<close>

datatype Worker_message =
    Registry_event RegistryEvent
  | Working_report WorkingReportEvent

text \<open>
  The delegate, with the statics of the benchmark it reads and writes. Locking the poisoned mutex of
  the flags is a panic, which is noted; it does not arise from the code, as no operation panics
  while it holds the mutex.
\<close>

record WorkerSMDelegate =
  smd_egress :: "Worker_message list"
  smd_n_clusters :: u32
  smd_n_contracts :: u32
  smd_benchmark :: Benchmark_Statics
  smd_panicked :: bool

definition WorkerSMDelegate_push :: "Worker_message \<Rightarrow> WorkerSMDelegate \<Rightarrow> WorkerSMDelegate" where
  "WorkerSMDelegate_push m d = d\<lparr>smd_egress := smd_egress d @ [m]\<rparr>"

definition WorkerSMDelegate_bench_report ::
  "u64 \<Rightarrow> u64 \<Rightarrow> WorkerSMDelegate \<Rightarrow> WorkerSMDelegate" where
  "WorkerSMDelegate_bench_report start_time iterations d =
     WorkerSMDelegate_push (Registry_event (BenchReport start_time iterations)) d"

definition WorkerSMDelegate_heartbeat ::
  "u32 \<Rightarrow> u32 \<Rightarrow> u64 \<Rightarrow> u64 \<Rightarrow> WorkerSMDelegate \<Rightarrow> WorkerSMDelegate" where
  "WorkerSMDelegate_heartbeat session_id challenge_block challenge_time iterations d =
     WorkerSMDelegate_push (Working_report (HeartbeatV2 session_id challenge_block challenge_time
       iterations (smd_n_clusters d) (smd_n_contracts d))) d"

definition WorkerSMDelegate_set_benchmark ::
  "Benchmark_Statics option \<Rightarrow> WorkerSMDelegate \<Rightarrow> WorkerSMDelegate" where
  "WorkerSMDelegate_set_benchmark r d =
     (case r of None \<Rightarrow> d\<lparr>smd_panicked := True\<rparr> | Some b \<Rightarrow> d\<lparr>smd_benchmark := b\<rparr>)"

definition WorkerSMDelegate_callback :: "WorkerSMDelegate WorkerStateMachineCallback" where
  "WorkerSMDelegate_callback =
     \<lparr>cb_bench_iterations = \<lambda>d. benchmark_iteration_counter (smd_benchmark d),
      cb_bench_resume = \<lambda>d. WorkerSMDelegate_set_benchmark (benchmark_resume (smd_benchmark d)) d,
      cb_bench_pause = \<lambda>d. WorkerSMDelegate_set_benchmark (benchmark_pause (smd_benchmark d)) d,
      cb_bench_report = WorkerSMDelegate_bench_report,
      cb_heartbeat = WorkerSMDelegate_heartbeat\<rparr>"

text \<open>The tracker of a gatekeeper (\<open>gk.rs\<close>): it keeps the defaults but for \<open>heartbeat\<close>.\<close>

record WorkerSMTracker =
  smt_waiting_heartbeats :: "u32 list"
  smt_challenge_received :: bool

definition WorkerSMTracker_new :: "u32 list \<Rightarrow> WorkerSMTracker" where
  "WorkerSMTracker_new waiting_heartbeats =
     \<lparr>smt_waiting_heartbeats = waiting_heartbeats, smt_challenge_received = False\<rparr>"

definition WorkerSMTracker_heartbeat ::
  "u32 \<Rightarrow> u32 \<Rightarrow> u64 \<Rightarrow> u64 \<Rightarrow> WorkerSMTracker \<Rightarrow> WorkerSMTracker" where
  "WorkerSMTracker_heartbeat _ challenge_block _ _ t =
     t\<lparr>smt_waiting_heartbeats := smt_waiting_heartbeats t @ [challenge_block],
       smt_challenge_received := True\<rparr>"

definition WorkerSMTracker_callback :: "WorkerSMTracker WorkerStateMachineCallback" where
  "WorkerSMTracker_callback =
     WorkerStateMachineCallback_default\<lparr>cb_heartbeat := WorkerSMTracker_heartbeat\<rparr>"

section \<open>The machine\<close>

definition WorkerState_need_pause :: "WorkerState_sm \<Rightarrow> bool" where
  "WorkerState_need_pause w \<longleftrightarrow> ws_bench_state w = None \<and> ws_working_state w = None"

definition WorkerState_handle_heartbeat_challenge ::
  "'c WorkerStateMachineCallback \<Rightarrow> BaseBlockInfo \<Rightarrow> HeartbeatChallenge \<Rightarrow>
   WorkerState_sm \<Rightarrow> 'c \<Rightarrow> WorkerState_sm \<times> 'c" where
  "WorkerState_handle_heartbeat_challenge cb block seed_info w c =
     (if \<not> ws_registered w then (w, c)
      else case ws_working_state w of None \<Rightarrow> (w, c)
      | Some working_state \<Rightarrow>
          if wk_state working_state = Paused then (w, c)
          else let x = ws_hashed_id w XOR hc_seed seed_info;
                   online_hit = x \<le> hc_online_target seed_info
               in if online_hit
                  then let iterations = cb_bench_iterations cb c - wk_start_iter working_state
                       in (w, cb_heartbeat cb (wk_session_id working_state) (bi_block_number block)
                                (bi_now_ms block) iterations c)
                  else (w, c))"

text \<open>The handler of a worker event that is addressed to this worker.\<close>

fun WorkerState_worker_event ::
  "'c WorkerStateMachineCallback \<Rightarrow> BaseBlockInfo \<Rightarrow> WorkerEvent \<Rightarrow>
   WorkerState_sm \<Rightarrow> 'c \<Rightarrow> WorkerState_sm \<times> 'c" where
  "WorkerState_worker_event cb block (Registered _) w c = (w\<lparr>ws_registered := True\<rparr>, c)"
| "WorkerState_worker_event cb block (BenchStart duration) w c =
     (w\<lparr>ws_bench_state := Some \<lparr>bst_start_block = bi_block_number block, bst_start_time = bi_now_ms block,
          bst_start_iter = cb_bench_iterations cb c, bst_duration = duration\<rparr>\<rparr>,
      cb_bench_resume cb c)"
| "WorkerState_worker_event cb block (BenchScore _) w c = (w, c)"
| "WorkerState_worker_event cb block (Started session_id _ _) w c =
     (w\<lparr>ws_working_state := Some \<lparr>wk_session_id = session_id, wk_state = Computing,
          wk_start_time = bi_now_ms block, wk_start_iter = cb_bench_iterations cb c\<rparr>\<rparr>,
      cb_bench_resume cb c)"
| "WorkerState_worker_event cb block Stopped w c =
     (let w = w\<lparr>ws_working_state := None\<rparr>
      in (w, if WorkerState_need_pause w then cb_bench_pause cb c else c))"
| "WorkerState_worker_event cb block EnterUnresponsive w c =
     (case ws_working_state w of
        Some info \<Rightarrow> if wk_state info = Computing
                     then (w\<lparr>ws_working_state := Some (info\<lparr>wk_state := Paused\<rparr>)\<rparr>, c) else (w, c)
      | None \<Rightarrow> (w, c))"
| "WorkerState_worker_event cb block ExitUnresponsive w c =
     (case ws_working_state w of
        Some info \<Rightarrow> if wk_state info = Paused
                     then (w\<lparr>ws_working_state := Some (info\<lparr>wk_state := Computing\<rparr>)\<rparr>, c) else (w, c)
      | None \<Rightarrow> (w, c))"

fun WorkerState_process_event ::
  "'c WorkerStateMachineCallback \<Rightarrow> BaseBlockInfo \<Rightarrow> SystemEvent \<Rightarrow>
   WorkerState_sm \<Rightarrow> 'c \<Rightarrow> WorkerState_sm \<times> 'c" where
  "WorkerState_process_event cb block (WorkerEvent_ev pubkey event) w c =
     (if pubkey \<noteq> ws_pubkey w then (w, c) else WorkerState_worker_event cb block event w c)"
| "WorkerState_process_event cb block (HeartbeatChallenge_ev seed_info) w c =
     WorkerState_handle_heartbeat_challenge cb block seed_info w c"

definition WorkerState_on_block_processed ::
  "'c WorkerStateMachineCallback \<Rightarrow> BaseBlockInfo \<Rightarrow> WorkerState_sm \<Rightarrow> 'c \<Rightarrow> WorkerState_sm \<times> 'c" where
  "WorkerState_on_block_processed cb block w c =
     (case ws_bench_state w of None \<Rightarrow> (w, c)
      | Some b \<Rightarrow>
          if bi_block_number block - bst_start_block b \<ge> bst_duration b
          then let w = w\<lparr>ws_bench_state := None\<rparr>;
                   iterations = cb_bench_iterations cb c - bst_start_iter b;
                   c = cb_bench_report cb (bst_start_time b) iterations c
               in (w, if WorkerState_need_pause w then cb_bench_pause cb c else c)
          else (w, c))"

section \<open>Every callback sees the same machine\<close>

text \<open>
  The machine reads its callback only for the iteration counter, which it stores as the start value
  of a benchmark or a session. Apart from these the next state is the same under every callback.
  \<open>ws_view\<close> forgets the start values and the state of the registration benchmark, on which no
  heartbeat depends; \<open>ws_next\<close> is the common transition.
\<close>

definition ws_view :: "WorkerState_sm \<Rightarrow> WorkerState_sm" where
  "ws_view w = w\<lparr>ws_bench_state := None,
     ws_working_state := map_option (\<lambda>i. i\<lparr>wk_start_iter := 0\<rparr>) (ws_working_state w)\<rparr>"

definition ws_next :: "BaseBlockInfo \<Rightarrow> SystemEvent \<Rightarrow> WorkerState_sm \<Rightarrow> WorkerState_sm" where
  "ws_next block event w =
     fst (WorkerState_process_event WorkerStateMachineCallback_default block event w ())"

text \<open>The heartbeats an event calls for: at most one, for the block of the challenge.\<close>

definition ws_hit :: "HeartbeatChallenge \<Rightarrow> WorkerState_sm \<Rightarrow> bool" where
  "ws_hit seed_info w \<longleftrightarrow> ws_registered w \<and>
     (\<exists>i. ws_working_state w = Some i \<and> wk_state i \<noteq> Paused) \<and>
     (ws_hashed_id w XOR hc_seed seed_info) \<le> hc_online_target seed_info"

fun ws_heartbeats :: "BaseBlockInfo \<Rightarrow> SystemEvent \<Rightarrow> WorkerState_sm \<Rightarrow> u32 list" where
  "ws_heartbeats block (WorkerEvent_ev _ _) w = []"
| "ws_heartbeats block (HeartbeatChallenge_ev seed_info) w =
     (if ws_hit seed_info w then [bi_block_number block] else [])"

lemma ws_view_simps [simp]:
  "ws_pubkey (ws_view w) = ws_pubkey w"
  "ws_hashed_id (ws_view w) = ws_hashed_id w"
  "ws_registered (ws_view w) = ws_registered w"
  "ws_working_state (ws_view w) = None \<longleftrightarrow> ws_working_state w = None"
  by (simp_all add: ws_view_def)

lemma ws_view_map:
  assumes "\<And>i. f (i\<lparr>wk_start_iter := 0\<rparr>) = f i"
  shows "map_option f (ws_working_state (ws_view w)) = map_option f (ws_working_state w)"
  by (simp add: ws_view_def option.map_comp o_def assms)

lemma ws_view_eqD:
  assumes "ws_view w = ws_view w'"
  shows "ws_pubkey w = ws_pubkey w'" "ws_hashed_id w = ws_hashed_id w'"
    "ws_registered w = ws_registered w'"
    "ws_working_state w = None \<longleftrightarrow> ws_working_state w' = None"
    "map_option wk_state (ws_working_state w) = map_option wk_state (ws_working_state w')"
    "map_option wk_session_id (ws_working_state w) = map_option wk_session_id (ws_working_state w')"
  using arg_cong [OF assms, of ws_pubkey] arg_cong [OF assms, of ws_hashed_id]
    arg_cong [OF assms, of ws_registered] arg_cong [OF assms, of "\<lambda>w. ws_working_state w = None"]
    arg_cong [OF assms, of "\<lambda>w. map_option wk_state (ws_working_state w)"]
    arg_cong [OF assms, of "\<lambda>w. map_option wk_session_id (ws_working_state w)"]
  by (simp_all add: ws_view_map)

lemma ws_hit_view [simp]: "ws_hit seed (ws_view w) = ws_hit seed w"
  by (auto simp: ws_hit_def ws_view_def)

lemma ws_heartbeats_view [simp]: "ws_heartbeats block e (ws_view w) = ws_heartbeats block e w"
  by (cases e) auto

locale heartbeat_observer =
  fixes cb :: "'c WorkerStateMachineCallback" and seen :: "'c \<Rightarrow> u32 list"
  assumes seen_resume [simp]: "seen (cb_bench_resume cb c) = seen c"
    and seen_pause [simp]: "seen (cb_bench_pause cb c) = seen c"
    and seen_report [simp]: "seen (cb_bench_report cb t n c) = seen c"
    and seen_heartbeat [simp]: "seen (cb_heartbeat cb sid blk t n c) = seen c @ [blk]"
begin

lemma process_event_view:
  "ws_view (fst (WorkerState_process_event cb block e w c)) = ws_view (ws_next block e (ws_view w))"
proof (cases e)
  case (WorkerEvent_ev k ev)
  then show ?thesis
    by (cases ev) (auto simp: ws_next_def ws_view_def Let_def option.map_comp o_def split: option.splits)
next
  case (HeartbeatChallenge_ev seed)
  then show ?thesis
    by (auto simp: ws_next_def ws_view_def WorkerState_handle_heartbeat_challenge_def Let_def option.map_comp o_def
        split: option.splits)
qed

lemma process_event_seen:
  "seen (snd (WorkerState_process_event cb block e w c)) = seen c @ ws_heartbeats block e w"
proof (cases e)
  case (WorkerEvent_ev k ev)
  then show ?thesis by (cases ev) (auto simp: Let_def split: option.splits)
next
  case (HeartbeatChallenge_ev seed)
  then show ?thesis
    by (auto simp: ws_hit_def WorkerState_handle_heartbeat_challenge_def Let_def split: option.splits)
qed

lemma on_block_processed_view:
  "ws_view (fst (WorkerState_on_block_processed cb block w c)) = ws_view w"
  by (auto simp: ws_view_def WorkerState_on_block_processed_def Let_def split: option.splits)

lemma on_block_processed_seen: "seen (snd (WorkerState_on_block_processed cb block w c)) = seen c"
  by (auto simp: WorkerState_on_block_processed_def Let_def split: option.splits)

end

text \<open>The heartbeats among the messages of a worker, by the block they answer.\<close>

fun heartbeat_block :: "WorkingReportEvent \<Rightarrow> u32" where
  "heartbeat_block (Heartbeat _ blk _ _) = blk"
| "heartbeat_block (HeartbeatV2 _ blk _ _ _ _) = blk"

fun worker_heartbeats :: "Worker_message list \<Rightarrow> WorkingReportEvent list" where
  "worker_heartbeats [] = []"
| "worker_heartbeats (Working_report r # ms) = r # worker_heartbeats ms"
| "worker_heartbeats (Registry_event _ # ms) = worker_heartbeats ms"

lemma worker_heartbeats_append [simp]:
  "worker_heartbeats (ms @ ms') = worker_heartbeats ms @ worker_heartbeats ms'"
  by (induction ms rule: worker_heartbeats.induct) auto

interpretation delegate: heartbeat_observer WorkerSMDelegate_callback
  "\<lambda>d. map heartbeat_block (worker_heartbeats (smd_egress d))"
  by unfold_locales (simp_all add: WorkerSMDelegate_callback_def WorkerSMDelegate_push_def
      WorkerSMDelegate_bench_report_def WorkerSMDelegate_heartbeat_def WorkerSMDelegate_set_benchmark_def
      split: option.split)

interpretation tracker: heartbeat_observer WorkerSMTracker_callback smt_waiting_heartbeats
  by unfold_locales (simp_all add: WorkerSMTracker_callback_def WorkerStateMachineCallback_default_def
      WorkerSMTracker_heartbeat_def)

end
