(* ===== verification/Gk_Tokenomic.thy ===== *)
theory Gk_Tokenomic
  imports Phala_Messages Fixed_Point
begin

text \<open>
  The value of a worker: the module \<open>tokenomic\<close> of \<open>crates/phactory/src/system/gk.rs\<close>. A gatekeeper keeps,
  for every worker, its value \<open>V\<close>, the part of it that a payout deducts, and its performance; \<open>V\<close> grows
  while the worker is idle, shrinks by a payout at a heartbeat, and is slashed while the worker is
  unresponsive. \<^term>\<open>None\<close> is a panic. The build is the default one, without the feature \<open>gk-stat\<close>.
\<close>

section \<open>Data\<close>

record TokenomicInfo =
  ti_v :: u128
  ti_v_init :: u128
  ti_v_deductible :: u128
  ti_v_update_at :: u64
  ti_v_update_block :: u32
  ti_iteration_last :: u64
  ti_challenge_time_last :: u64
  ti_p_bench :: u128
  ti_p_instant :: u128
  ti_confidence_level :: u8
  ti_contract_running :: bool

definition TokenomicInfo_default :: TokenomicInfo where
  "TokenomicInfo_default =
     \<lparr>ti_v = 0, ti_v_init = 0, ti_v_deductible = 0, ti_v_update_at = 0, ti_v_update_block = 0,
      ti_iteration_last = 0, ti_challenge_time_last = 0, ti_p_bench = 0, ti_p_instant = 0,
      ti_confidence_level = 0, ti_contract_running = False\<rparr>"

record Params =
  pr_rho :: u128
  pr_slash_rate :: u128
  pr_budget_per_block :: u128
  pr_v_max :: u128
  pr_cost_k :: u128
  pr_cost_b :: u128
  pr_treasury_ration :: u128
  pr_payout_ration :: u128
  pr_heartbeat_window :: u32

definition Params_from :: "u64f64_ops \<Rightarrow> TokenomicParams \<Rightarrow> Params" where
  "Params_from gx params =
     (let treasury_ration = tp_treasury_ratio params;
          payout_ration = gx_sub gx (fp_literal 1 1) treasury_ration
      in \<lparr>pr_rho = tp_rho params, pr_slash_rate = tp_slash_rate params,
          pr_budget_per_block = tp_budget_per_block params, pr_v_max = tp_v_max params,
          pr_cost_k = tp_cost_k params, pr_cost_b = tp_cost_b params,
          pr_treasury_ration = treasury_ration, pr_payout_ration = payout_ration,
          pr_heartbeat_window = tp_heartbeat_window params\<rparr>)"

definition test_params :: Params where
  "test_params =
     \<lparr>pr_rho = fp_literal 1000000666600231 (10 ^ 15),
      pr_slash_rate = fp_literal 33333333333333240063 (10 ^ 25),
      pr_budget_per_block = fp_literal 100 1,
      pr_v_max = fp_literal 30000 1,
      pr_cost_k = fp_literal 15815258751856933056 (10 ^ 27),
      pr_cost_b = fp_literal 33711472602739674283 (10 ^ 24),
      pr_treasury_ration = fp_literal 2 10,
      pr_payout_ration = fp_literal 8 10,
      pr_heartbeat_window = 10\<rparr>"

definition square :: "u64f64_ops \<Rightarrow> u128 \<Rightarrow> u128" where
  "square gx v = gx_mul gx v v"

definition conf_score :: "u8 \<Rightarrow> u128" where
  "conf_score level =
     (if level \<in> {1, 2, 3, 128} then fp_literal 1 1
      else if level = 4 then fp_literal 8 10
      else if level = 5 then fp_literal 7 10
      else 0)"

text \<open>\<open>Ord::clamp\<close> of the standard library, which asserts that the bounds are ordered.\<close>

definition ord_clamp :: "'a::linorder \<Rightarrow> 'a \<Rightarrow> 'a \<Rightarrow> 'a option" where
  "ord_clamp x lo hi = (if lo \<le> hi then Some (if x < lo then lo else if hi < x then hi else x) else None)"

section \<open>Operations\<close>

definition TokenomicInfo_p :: "TokenomicInfo \<Rightarrow> u128" where
  "TokenomicInfo_p t = (if ti_contract_running t then ti_p_bench t else ti_p_instant t)"

definition TokenomicInfo_update_v_idle :: "u64f64_ops \<Rightarrow> Params \<Rightarrow> TokenomicInfo \<Rightarrow> TokenomicInfo option" where
  "TokenomicInfo_update_v_idle gx params t =
     (let cost_idle = gx_add gx (gx_mul gx (pr_cost_k params) (ti_p_bench t)) (pr_cost_b params)
      in case (if ti_p_bench t = 0 then Some (fp_literal 1 1) else gx_div gx (TokenomicInfo_p t) (ti_p_bench t))
         of None \<Rightarrow> None
         | Some perf_multiplier \<Rightarrow>
             let delta_v = gx_mul gx perf_multiplier
                   (gx_add gx (gx_mul gx (gx_sub gx (pr_rho params) (fp_literal 1 1)) (ti_v t)) cost_idle);
                 v = gx_add gx (ti_v t) delta_v
             in Some (t\<lparr>ti_v := min v (pr_v_max params),
                        ti_v_deductible := gx_add gx (ti_v_deductible t) delta_v\<rparr>))"

definition TokenomicInfo_share :: "u64f64_ops \<Rightarrow> TokenomicInfo \<Rightarrow> u128" where
  "TokenomicInfo_share gx t =
     gx_sqrt gx (gx_add gx (square gx (ti_v t))
       (square gx (gx_mul gx (gx_mul gx (fp_literal 2 1) (TokenomicInfo_p t))
         (conf_score (ti_confidence_level t)))))"

text \<open>The payout and the part of the treasury, and the new state.\<close>

definition TokenomicInfo_update_v_heartbeat ::
  "u64f64_ops \<Rightarrow> Params \<Rightarrow> u128 \<Rightarrow> u64 \<Rightarrow> u32 \<Rightarrow> TokenomicInfo \<Rightarrow>
   ((u128 \<times> u128) \<times> TokenomicInfo) option" where
  "TokenomicInfo_update_v_heartbeat gx params sum_share now_ms block_number t =
     (if sum_share = 0 then Some ((0, 0), t)
      else if ti_v_deductible t = 0 then Some ((0, 0), t)
      else if block_number \<le> ti_v_update_block t then Some ((0, 0), t)
      else let share = TokenomicInfo_share gx t
      in if share = 0 then Some ((0, 0), t)
      else let blocks = gx_from_num gx (ucast (block_number - ti_v_update_block t))
      in case gx_div gx share sum_share of None \<Rightarrow> None
      | Some ratio \<Rightarrow>
          let budget = gx_mul gx (gx_mul gx ratio (pr_budget_per_block params)) blocks;
              actual_payout = gx_mul gx budget (pr_payout_ration params);
              actual_treasury = gx_mul gx budget (pr_treasury_ration params)
          in case ord_clamp (ti_v_deductible t) 0 actual_payout of None \<Rightarrow> None
          | Some actual_v_deduct \<Rightarrow>
              Some ((actual_payout, actual_treasury),
                    t\<lparr>ti_v := gx_sub gx (ti_v t) actual_v_deduct,
                      ti_v_deductible := 0, ti_v_update_at := now_ms,
                      ti_v_update_block := block_number\<rparr>))"

definition TokenomicInfo_update_v_recover :: "u64 \<Rightarrow> u32 \<Rightarrow> TokenomicInfo \<Rightarrow> TokenomicInfo" where
  "TokenomicInfo_update_v_recover now_ms block_number t =
     t\<lparr>ti_v_deductible := 0, ti_v_update_at := now_ms, ti_v_update_block := block_number\<rparr>"

definition TokenomicInfo_update_v_slash :: "u64f64_ops \<Rightarrow> Params \<Rightarrow> TokenomicInfo \<Rightarrow> TokenomicInfo" where
  "TokenomicInfo_update_v_slash gx params t =
     (let slash = gx_mul gx (ti_v t) (pr_slash_rate params)
      in t\<lparr>ti_v := gx_sub gx (ti_v t) slash, ti_v_deductible := 0\<rparr>)"

definition TokenomicInfo_update_p_instant ::
  "u64f64_ops \<Rightarrow> u64 \<Rightarrow> u64 \<Rightarrow> bool \<Rightarrow> TokenomicInfo \<Rightarrow> TokenomicInfo option" where
  "TokenomicInfo_update_p_instant gx now iterations contract_running t =
     (let t = t\<lparr>ti_contract_running := contract_running\<rparr>
      in if now \<le> ti_challenge_time_last t then Some t
      else let t = (if iterations < ti_iteration_last t then t\<lparr>ti_iteration_last := iterations\<rparr> else t)
      in case gx_div_int gx (gx_from_num gx (now - ti_challenge_time_last t)) 1000 of None \<Rightarrow> None
      | Some dt \<Rightarrow>
          case gx_div gx (gx_from_num gx (iterations - ti_iteration_last t)) dt of None \<Rightarrow> None
          | Some q \<Rightarrow>
              let p = gx_mul_int gx q 6
              in Some (t\<lparr>ti_p_instant := min p (gx_mul gx (ti_p_bench t) (fp_literal 12 10))\<rparr>))"

section \<open>The updates never panic\<close>

lemma update_v_idle_returns: "u64f64 gx \<Longrightarrow> TokenomicInfo_update_v_idle gx params t \<noteq> None"
  by (auto simp: TokenomicInfo_update_v_idle_def Let_def u64f64.div_panics split: option.splits if_splits)

lemma update_v_heartbeat_returns:
  "u64f64 gx \<Longrightarrow> TokenomicInfo_update_v_heartbeat gx params sum_share now block t \<noteq> None"
  by (auto simp: TokenomicInfo_update_v_heartbeat_def Let_def ord_clamp_def u64f64.div_panics
      split: option.splits if_splits)

lemma from_num_div_1000:
  assumes "u64f64 gx" and "n \<noteq> 0"
  shows "\<exists>dt. gx_div_int gx (gx_from_num gx n) 1000 = Some dt \<and> dt \<noteq> 0"
proof -
  obtain dt where dt: "gx_div_int gx (gx_from_num gx n) 1000 = Some dt"
    "unat dt = unat (gx_from_num gx n) div unat (1000 :: u128)"
    using u64f64.div_int [OF assms(1), of 1000 "gx_from_num gx n"] by auto
  have "1 \<le> unat n" using assms(2) by (simp add: Suc_le_eq unat_gt_0)
  then have "1000 \<le> unat n * 2 ^ 64" by simp
  then have "unat dt \<noteq> 0" unfolding dt(2) u64f64.from_num [OF assms(1)] by (simp add: div_eq_0_iff)
  with dt(1) show ?thesis by auto
qed

lemma update_p_instant_returns:
  assumes "u64f64 gx"
  shows "TokenomicInfo_update_p_instant gx now iterations running t \<noteq> None"
proof (cases "now \<le> ti_challenge_time_last t")
  case False
  then have "now - ti_challenge_time_last t \<noteq> 0" by auto
  from from_num_div_1000 [OF assms this]
  obtain dt where "gx_div_int gx (gx_from_num gx (now - ti_challenge_time_last t)) 1000 = Some dt" "dt \<noteq> 0"
    by blast
  then show ?thesis
    using False
    by (simp add: TokenomicInfo_update_p_instant_def Let_def u64f64.div_panics [OF assms] split: option.splits)
qed (simp add: TokenomicInfo_update_p_instant_def)

section \<open>What a heartbeat pays\<close>

lemma heartbeat_pays:
  assumes "TokenomicInfo_update_v_heartbeat gx params sum_share now block t = Some ((payout, treasury), t')"
    and "(payout, treasury) \<noteq> (0, 0)"
  obtains ratio budget where
    "sum_share \<noteq> 0" "ti_v_update_block t < block"
    "gx_div gx (TokenomicInfo_share gx t) sum_share = Some ratio"
    "budget = gx_mul gx (gx_mul gx ratio (pr_budget_per_block params))
       (gx_from_num gx (ucast (block - ti_v_update_block t)))"
    "payout = gx_mul gx budget (pr_payout_ration params)"
    "treasury = gx_mul gx budget (pr_treasury_ration params)"
    "t' = t\<lparr>ti_v := gx_sub gx (ti_v t) (min (ti_v_deductible t) payout), ti_v_deductible := 0,
       ti_v_update_at := now, ti_v_update_block := block\<rparr>"
proof -
  have nz: "sum_share \<noteq> 0 \<and> ti_v_deductible t \<noteq> 0 \<and> \<not> block \<le> ti_v_update_block t"
    using assms by (auto simp: TokenomicInfo_update_v_heartbeat_def split: if_splits)
  with assms have nz: "sum_share \<noteq> 0" "ti_v_deductible t \<noteq> 0" "\<not> block \<le> ti_v_update_block t" "TokenomicInfo_share gx t \<noteq> 0"
    by (auto simp: TokenomicInfo_update_v_heartbeat_def)
  moreover from assms nz obtain ratio where "gx_div gx (TokenomicInfo_share gx t) sum_share = Some ratio"
    by (auto simp: TokenomicInfo_update_v_heartbeat_def split: option.splits)
  moreover have "ord_clamp x 0 y = Some (min x y)" for x y :: u128
    by (auto simp: ord_clamp_def min_def)
  ultimately show ?thesis
    using assms(1) that by (auto simp: TokenomicInfo_update_v_heartbeat_def Let_def)
qed

text \<open>The budget of a worker is at most its part of the budget of the blocks since its last settlement,
  in the proportion of its share to the sum of shares, whenever the results fit.\<close>

lemma heartbeat_budget_le:
  assumes "u64f64 gx" and "0 < unat n"
    and "gx_div gx share sum_share = Some ratio" and "unat share < unat sum_share * 2 ^ 64"
    and "unat share * (unat per_block * unat n) < unat sum_share * 2 ^ 128"
  shows "unat (gx_mul gx (gx_mul gx ratio per_block) (gx_from_num gx n)) * unat sum_share
    \<le> unat share * (unat per_block * unat n)"
proof -
  have pos: "0 < unat sum_share" using assms(4) by (cases "unat sum_share = 0") simp_all
  then have nz: "sum_share \<noteq> 0" by (simp add: unat_gt_0)
  have "unat share * 2 ^ 64 < 2 ^ 128 * unat sum_share" using assms(4) by simp
  then have "unat share * 2 ^ 64 div unat sum_share < 2 ^ 128"
    by (rule less_mult_imp_div_less)
  from u64f64.div [OF assms(1) nz this] assms(3)
  have r: "unat ratio * unat sum_share \<le> unat share * 2 ^ 64"
    by (simp add: div_times_less_eq_dividend)
  define m where "m = unat ratio * unat per_block div 2 ^ 64"
  have "m * 2 ^ 64 \<le> unat ratio * unat per_block" unfolding m_def by (rule div_times_less_eq_dividend)
  then have "m * 2 ^ 64 * unat sum_share \<le> unat ratio * unat per_block * unat sum_share" by (rule mult_le_mono1)
  also have "\<dots> = unat ratio * unat sum_share * unat per_block" by (simp only: ac_simps)
  also have "\<dots> \<le> unat share * 2 ^ 64 * unat per_block" using r by (rule mult_le_mono1)
  finally have "(m * unat sum_share) * 2 ^ 64 \<le> (unat share * unat per_block) * 2 ^ 64" by (simp only: ac_simps)
  then have "m * unat sum_share \<le> unat share * unat per_block" by simp
  then have "m * unat sum_share * unat n \<le> unat share * unat per_block * unat n" by (rule mult_le_mono1)
  then have le: "m * unat n * unat sum_share \<le> unat share * (unat per_block * unat n)" by (simp only: ac_simps)
  then have "m * unat n * unat sum_share < 2 ^ 128 * unat sum_share" using assms(5) by (simp only: ac_simps)
  then have fits: "m * unat n < 2 ^ 128" by (simp only: mult_less_cancel2)
  moreover have "m * 1 \<le> m * unat n" using assms(2) by (intro mult_le_mono2) simp
  ultimately have "m < 2 ^ 128" by linarith
  then have e: "unat (gx_mul gx ratio per_block) = m"
    unfolding m_def by (rule u64f64.mul [OF assms(1)])
  have f: "m * unat (gx_from_num gx n) div 2 ^ 64 = m * unat n"
    unfolding u64f64.from_num [OF assms(1)] by simp
  have "unat (gx_mul gx (gx_mul gx ratio per_block) (gx_from_num gx n)) = m * unat n"
    using u64f64.mul [OF assms(1), of "gx_mul gx ratio per_block" "gx_from_num gx n"] fits
    by (simp only: e f)
  with le show ?thesis by (simp only:)
qed

lemma proportion_le: "a * s \<le> b * c \<Longrightarrow> b \<le> s \<Longrightarrow> 0 < s \<Longrightarrow> a \<le> (c :: nat)"
proof -
  assume a: "a * s \<le> b * c" "b \<le> s" "0 < s"
  have "a * s \<le> c * s" using a(1) mult_le_mono1 [OF a(2), of c] by (simp only: mult.commute [of c s])
  with a(3) show "a \<le> c" by simp
qed

lemma heartbeat_settles:
  assumes "u64f64 gx" and "unat (TokenomicInfo_share gx t) < unat sum_share * 2 ^ 64"
    and "unat (pr_payout_ration params) + unat (pr_treasury_ration params) \<le> 2 ^ 64"
    and "unat (TokenomicInfo_share gx t) * (unat (pr_budget_per_block params) * unat (block - ti_v_update_block t))
      < unat sum_share * 2 ^ 128"
    and "TokenomicInfo_update_v_heartbeat gx params sum_share now block t = Some ((payout, treasury), t')"
  shows "(unat payout + unat treasury) * unat sum_share \<le> unat (TokenomicInfo_share gx t) *
    (unat (pr_budget_per_block params) * unat (block - ti_v_update_block t))"
proof (cases "(payout, treasury) = (0, 0)")
  case False
  from heartbeat_pays [OF assms(5) False]
  obtain ratio budget where b: "sum_share \<noteq> 0" "ti_v_update_block t < block"
    "gx_div gx (TokenomicInfo_share gx t) sum_share = Some ratio"
    "budget = gx_mul gx (gx_mul gx ratio (pr_budget_per_block params))
       (gx_from_num gx (ucast (block - ti_v_update_block t)))"
    "payout = gx_mul gx budget (pr_payout_ration params)"
    "treasury = gx_mul gx budget (pr_treasury_ration params)" .
  have n: "unat (ucast (block - ti_v_update_block t) :: u64) = unat (block - ti_v_update_block t)"
    by (simp add: unsigned_ucast_eq take_bit_eq_mod order.strict_trans [OF unat_less_word])
  have "block - ti_v_update_block t \<noteq> 0" using b(2) by auto
  then have pos: "0 < unat (ucast (block - ti_v_update_block t) :: u64)" unfolding n by (simp add: unat_gt_0)
  have "unat payout + unat treasury \<le> unat budget"
    unfolding b(5,6) using assms(3) by (rule u64f64.mul_split_le [OF assms(1)])
  then have "(unat payout + unat treasury) * unat sum_share \<le> unat budget * unat sum_share"
    by (rule mult_le_mono1)
  also have "\<dots> \<le> unat (TokenomicInfo_share gx t) *
      (unat (pr_budget_per_block params) * unat (ucast (block - ti_v_update_block t) :: u64))"
    unfolding b(4) using assms(1) pos b(3) assms(2) assms(4) [folded n] by (rule heartbeat_budget_le)
  finally show ?thesis by (simp only: n)
qed simp

lemma heartbeat_deducts:
  assumes "u64f64 gx" and "ti_v_deductible t \<le> ti_v t"
    and "TokenomicInfo_update_v_heartbeat gx params sum_share now block t = Some ((payout, treasury), t')"
  shows "unat (ti_v t) - unat payout \<le> unat (ti_v t')" "ti_v t' \<le> ti_v t"
proof -
  have *: "t' = t \<or> ti_v t' = gx_sub gx (ti_v t) (min (ti_v_deductible t) payout)"
    using assms(3)
    by (auto simp: TokenomicInfo_update_v_heartbeat_def Let_def ord_clamp_def min_def
        split: option.splits if_splits)
  have "min (ti_v_deductible t) payout \<le> ti_v t" using assms(2) by (auto simp: min_def)
  then have "unat (gx_sub gx (ti_v t) (min (ti_v_deductible t) payout)) =
      unat (ti_v t) - unat (min (ti_v_deductible t) payout)"
    by (rule u64f64.sub [OF assms(1)])
  moreover have "unat (min (ti_v_deductible t) payout) \<le> unat payout"
    by (auto simp: min_def word_le_nat_alt)
  ultimately show "unat (ti_v t) - unat payout \<le> unat (ti_v t')" "ti_v t' \<le> ti_v t"
    using * by (auto simp: word_le_nat_alt)
qed

section \<open>Properties\<close>

text \<open>C39: The value updates of a worker never panic: no division by zero, no clamp between
  bounds in the wrong order.\<close>

theorem tokenomic_updates_return:
  assumes "u64f64 gx"
  shows "TokenomicInfo_update_v_idle gx params t \<noteq> None \<and>
    TokenomicInfo_update_v_heartbeat gx params sum_share now block t \<noteq> None \<and>
    TokenomicInfo_update_p_instant gx now iterations running t \<noteq> None"
  using update_v_idle_returns [OF assms] update_v_heartbeat_returns [OF assms]
    update_p_instant_returns [OF assms] by blast

theorem tokenomic_updates_return_witness:
  "u64f64 q64_ops \<and> TokenomicInfo_update_v_idle q64_ops test_params TokenomicInfo_default \<noteq> None"
  using tokenomic_updates_return [OF q64.u64f64_axioms] q64.u64f64_axioms by blast

text \<open>C20: A heartbeat settles, payout and treasury together, at most the worker's part of the budget of
  the blocks since its last settlement: that budget in the proportion of the worker's share to the sum
  of shares the heartbeat is settled with, and so no more than the whole of it when the share is
  counted in the sum. The value falls by no more than the payout, and a second heartbeat in the same
  block pays nothing. The share need not be counted in the sum: \<open>Gk_Economics\<close> has a run in
  which it is not. It is assumed that the quotient and the product of the settlement fit their width,
  that the two ratios do not exceed one together, and that the value covers its deductible part.\<close>

theorem heartbeat_payout_bounded:
  assumes "u64f64 gx" and "unat (TokenomicInfo_share gx t) < unat sum_share * 2 ^ 64"
    and "unat (pr_payout_ration params) + unat (pr_treasury_ration params) \<le> 2 ^ 64"
    and "unat (TokenomicInfo_share gx t) * (unat (pr_budget_per_block params) * unat (block - ti_v_update_block t))
      < unat sum_share * 2 ^ 128"
    and "ti_v_deductible t \<le> ti_v t"
  shows "\<exists>payout treasury t'.
    TokenomicInfo_update_v_heartbeat gx params sum_share now block t = Some ((payout, treasury), t') \<and>
    (unat payout + unat treasury) * unat sum_share \<le> unat (TokenomicInfo_share gx t) *
      (unat (pr_budget_per_block params) * unat (block - ti_v_update_block t)) \<and>
    (TokenomicInfo_share gx t \<le> sum_share \<longrightarrow> unat payout + unat treasury \<le>
      unat (pr_budget_per_block params) * unat (block - ti_v_update_block t)) \<and>
    ti_v t' \<le> ti_v t \<and> unat (ti_v t) - unat payout \<le> unat (ti_v t') \<and>
    ((payout, treasury) = (0, 0) \<or>
     TokenomicInfo_update_v_heartbeat gx params sum_share now2 block t' = Some ((0, 0), t'))"
proof -
  obtain payout treasury t' where u:
    "TokenomicInfo_update_v_heartbeat gx params sum_share now block t = Some ((payout, treasury), t')"
    using update_v_heartbeat_returns [OF assms(1), of params sum_share now block t] by auto
  have again: "TokenomicInfo_update_v_heartbeat gx params sum_share now2 block t' = Some ((0, 0), t')"
    if "(payout, treasury) \<noteq> (0, 0)"
  proof -
    have "ti_v_deductible t' = 0" by (rule heartbeat_pays [OF u that]) simp
    then show ?thesis by (simp add: TokenomicInfo_update_v_heartbeat_def)
  qed
  note le = heartbeat_settles [OF assms(1-4) u]
  have "0 < unat sum_share" using assms(2) by (cases "unat sum_share = 0") simp_all
  with le have counted: "unat payout + unat treasury \<le>
      unat (pr_budget_per_block params) * unat (block - ti_v_update_block t)"
    if "TokenomicInfo_share gx t \<le> sum_share"
    using that by (auto simp: word_le_nat_alt intro: proportion_le)
  show ?thesis
    using u le counted again heartbeat_deducts [OF assms(1,5) u] by blast
qed

definition ex_tokenomic :: TokenomicInfo where
  "ex_tokenomic = TokenomicInfo_default\<lparr>ti_v := fp_literal 2 1, ti_v_deductible := fp_literal 1 1\<rparr>"

theorem heartbeat_payout_bounded_witness:
  "\<exists>payout treasury t'.
    TokenomicInfo_update_v_heartbeat q64_ops test_params (- 1) 12000 2 ex_tokenomic =
      Some ((payout, treasury), t') \<and>
    unat payout + unat treasury \<le> 200 * 2 ^ 64"
proof -
  have b: "unat (pr_budget_per_block test_params) = 100 * 2 ^ 64" "unat (2 - ti_v_update_block ex_tokenomic) = 2"
    by (simp_all add: test_params_def fp_literal_def ex_tokenomic_def TokenomicInfo_default_def)
  have sum: "unat (- 1 :: u128) = 2 ^ 128 - 1" by (simp add: unsigned_minus_1_eq_mask mask_eq_exp_minus_1)
  have sh: "unat (TokenomicInfo_share q64_ops ex_tokenomic) \<le> 2 ^ 128 - 1"
    using unat_less_word [of "TokenomicInfo_share q64_ops ex_tokenomic"] by simp
  have "unat (TokenomicInfo_share q64_ops ex_tokenomic) *
      (unat (pr_budget_per_block test_params) * unat (2 - ti_v_update_block ex_tokenomic))
      < unat (- 1 :: u128) * 2 ^ 128"
    unfolding b sum using mult_le_mono1 [OF sh, of "100 * 2 ^ 64 * 2"] by (rule le_less_trans) simp
  moreover have "unat (TokenomicInfo_share q64_ops ex_tokenomic) < unat (- 1 :: u128) * 2 ^ 64"
    unfolding sum using sh by (rule le_less_trans) simp
  moreover have "unat (pr_payout_ration test_params) + unat (pr_treasury_ration test_params) \<le> 2 ^ 64"
    by (simp add: test_params_def fp_literal_def)
  moreover have "ti_v_deductible ex_tokenomic \<le> ti_v ex_tokenomic"
    by (simp add: ex_tokenomic_def fp_literal_def)
  moreover have "TokenomicInfo_share q64_ops ex_tokenomic \<le> - 1" by simp
  ultimately obtain payout treasury t' where
    "TokenomicInfo_update_v_heartbeat q64_ops test_params (- 1) 12000 2 ex_tokenomic =
      Some ((payout, treasury), t')"
    "unat payout + unat treasury \<le> unat (pr_budget_per_block test_params) * unat (2 - ti_v_update_block ex_tokenomic)"
    using heartbeat_payout_bounded [OF q64.u64f64_axioms, of ex_tokenomic "- 1" test_params 2 12000 0] by blast
  then show ?thesis unfolding b by fastforce
qed

text \<open>An idle block never lifts the value above the maximum, and slashing at a rate up to one
  never raises it.\<close>

theorem value_stays_below_max:
  assumes "u64f64 gx" and "unat (pr_slash_rate params) \<le> 2 ^ 64"
  shows "pred_option (\<lambda>t'. ti_v t' \<le> pr_v_max params) (TokenomicInfo_update_v_idle gx params t) \<and>
    ti_v (TokenomicInfo_update_v_slash gx params t) \<le> ti_v t"
proof
  show "pred_option (\<lambda>t'. ti_v t' \<le> pr_v_max params) (TokenomicInfo_update_v_idle gx params t)"
    by (auto simp: TokenomicInfo_update_v_idle_def Let_def split: option.split)
  have "gx_mul gx (ti_v t) (pr_slash_rate params) \<le> ti_v t"
    using u64f64.mul_le_one(2) [OF assms(1,2)] by (simp add: word_le_nat_alt)
  from u64f64.sub [OF assms(1) this]
  show "ti_v (TokenomicInfo_update_v_slash gx params t) \<le> ti_v t"
    by (simp add: TokenomicInfo_update_v_slash_def Let_def word_le_nat_alt)
qed

theorem value_stays_below_max_witness:
  "unat (pr_slash_rate test_params) \<le> 2 ^ 64 \<and>
   ti_v (TokenomicInfo_update_v_slash q64_ops test_params TokenomicInfo_default) \<le> ti_v TokenomicInfo_default"
proof -
  have "unat (pr_slash_rate test_params) \<le> 2 ^ 64" by (simp add: test_params_def fp_literal_def)
  then show ?thesis using value_stays_below_max [OF q64.u64f64_axioms] by blast
qed

end
