(* ===== verification/Key_Messages.thy ===== *)
theory Key_Messages
  imports Phala_Messages BTree
begin

text \<open>
  The messages that carry keys: the distribution of master keys (module \<open>messaging\<close> of
  \<open>crates/phala-types/src/lib.rs\<close>) and the messages about clusters (\<open>crates/phala-types/src/contract.rs\<close>).
\<close>

section \<open>Master keys\<close>

record EncryptedKey =
  ek_ecdh_pubkey :: h256
  ek_encrypted_key :: bytes
  ek_iv :: bytes

record DispatchMasterKeyEvent =
  dm_dest :: h256
  dm_ecdh_pubkey :: h256
  dm_encrypted_master_key :: bytes
  dm_iv :: bytes

record DispatchMasterKeyHistoryEvent =
  dh_dest :: h256
  dh_encrypted_master_key_history :: "(u64 \<times> u32 \<times> EncryptedKey) list"

record BatchRotateMasterKeyEvent =
  br_rotation_id :: u64
  br_secret_keys :: "(h256, EncryptedKey) btree_map"
  br_sender :: h256
  br_sig :: bytes

datatype KeyDistribution =
    MasterKeyDistribution DispatchMasterKeyEvent
  | MasterKeyRotation_msg BatchRotateMasterKeyEvent
  | MasterKeyHistory DispatchMasterKeyHistoryEvent

definition KeyDistribution_master_key_distribution ::
  "h256 \<Rightarrow> h256 \<Rightarrow> bytes \<Rightarrow> bytes \<Rightarrow> KeyDistribution" where
  "KeyDistribution_master_key_distribution dest ecdh_pubkey encrypted_master_key iv =
     MasterKeyDistribution \<lparr>dm_dest = dest, dm_ecdh_pubkey = ecdh_pubkey,
       dm_encrypted_master_key = encrypted_master_key, dm_iv = iv\<rparr>"

text \<open>What a rotation event has signed: the event without its signature, through the SCALE codec.\<close>

definition BatchRotateMasterKeyEvent_data_be_signed ::
  "(u64 \<times> (h256, EncryptedKey) btree_map \<times> h256 \<Rightarrow> bytes) \<Rightarrow> BatchRotateMasterKeyEvent \<Rightarrow> bytes" where
  "BatchRotateMasterKeyEvent_data_be_signed enc e = enc (br_rotation_id e, br_secret_keys e, br_sender e)"

section \<open>Random numbers and parameters\<close>

record RandomNumberEvent =
  rn_block_number :: u32
  rn_random_number :: bytes
  rn_last_random_number :: bytes

datatype GatekeeperEvent =
    NewRandomNumber RandomNumberEvent
  | Gk_TokenomicParametersChanged TokenomicParams
  | Gk_RepairV
  | Gk_PhalaLaunched
  | Gk_UnrespFix

definition GatekeeperEvent_new_random_number :: "u32 \<Rightarrow> bytes \<Rightarrow> bytes \<Rightarrow> GatekeeperEvent" where
  "GatekeeperEvent_new_random_number block_number random_number last_random_number =
     NewRandomNumber \<lparr>rn_block_number = block_number, rn_random_number = random_number,
       rn_last_random_number = last_random_number\<rparr>"

section \<open>Clusters\<close>

datatype ClusterEvent =
    DeployCluster (dc_owner: h256) (dc_cluster: h256) (dc_workers: "WorkerIdentity list") (dc_deposit: u128)
      (dc_gas_price: u128) (dc_deposit_per_item: u128) (dc_deposit_per_byte: u128) (dc_treasury_account: h256)

record BatchDispatchClusterKeyEvent =
  bd_secret_keys :: "(h256, EncryptedKey) btree_map"
  bd_cluster :: h256
  bd_owner :: h256
  bd_deposit :: u128
  bd_gas_price :: u128
  bd_deposit_per_item :: u128
  bd_deposit_per_byte :: u128
  bd_treasury_account :: h256

datatype ResourceType = InkCode | SidevmCode | IndeterministicInkCode

datatype ClusterOperation =
    DispatchKeys BatchDispatchClusterKeyEvent
  | DestroyCluster h256
  | UploadResource h256 h256 ResourceType bytes
  | Cluster_Deposit h256 h256 u128
  | RemoveWorker h256 h256

definition ClusterOperation_batch_distribution ::
  "(h256, EncryptedKey) btree_map \<Rightarrow> h256 \<Rightarrow> h256 \<Rightarrow> u128 \<Rightarrow> u128 \<Rightarrow> u128 \<Rightarrow> u128 \<Rightarrow> h256 \<Rightarrow> ClusterOperation" where
  "ClusterOperation_batch_distribution secret_keys cluster owner deposit gas_price deposit_per_item
       deposit_per_byte treasury_account =
     DispatchKeys \<lparr>bd_secret_keys = secret_keys, bd_cluster = cluster, bd_owner = owner, bd_deposit = deposit,
       bd_gas_price = gas_price, bd_deposit_per_item = deposit_per_item,
       bd_deposit_per_byte = deposit_per_byte, bd_treasury_account = treasury_account\<rparr>"

datatype ClusterRegistryEvent = PubkeyAvailable h256 h256

end
