(* ===== verification/Gk_Economics.thy ===== *)
theory Gk_Economics
  imports Worker_Machine Gk_Tokenomic Key_Messages
begin

text \<open>
  \<open>ComputingEconomics\<close> of \<open>crates/phactory/src/system/gk.rs\<close>: what a gatekeeper computes from the
  messages of a block. It replays the state machine of every worker, matches the heartbeats that arrive
  against the ones it expects, updates the values of the workers, and reports to the pallet who went
  offline, who recovered and what to settle.

  A handler that panics gives \<^term>\<open>None\<close>. The messages of a block come in the order in which \<open>select!\<close>
  yields them (\<open>Mq_Dispatcher\<close>). The listener of a caller is the list of the events handed to
  it; what is pushed to the egress channel is a list of reports.
\<close>

section \<open>Maps\<close>

text \<open>
  \<open>ordmap_for_each_mut\<close> of \<open>crates/phactory/src/im_helpers.rs\<close>, for a closure that also updates
  captured state and may panic.
\<close>

fun ordmap_each ::
  "('k::linorder \<Rightarrow> 'v \<Rightarrow> 'e \<Rightarrow> ('v \<times> 'e) option) \<Rightarrow> 'k list \<Rightarrow> ('k, 'v) btree_map \<Rightarrow> 'e \<Rightarrow>
   (('k, 'v) btree_map \<times> 'e) option" where
  "ordmap_each f [] m e = Some (m, e)"
| "ordmap_each f (k # ks) m e =
     (case bt_get m k of None \<Rightarrow> None
      | Some v \<Rightarrow> (case f k v e of None \<Rightarrow> None
                  | Some (v', e') \<Rightarrow> ordmap_each f ks (bt_insert k v' m) e'))"

definition ordmap_for_each_mut ::
  "('k::linorder \<Rightarrow> 'v \<Rightarrow> 'e \<Rightarrow> ('v \<times> 'e) option) \<Rightarrow> ('k, 'v) btree_map \<Rightarrow> 'e \<Rightarrow>
   (('k, 'v) btree_map \<times> 'e) option" where
  "ordmap_for_each_mut f m e = ordmap_each f (map fst m) m e"

section \<open>Data\<close>

record WorkerInfo_gk =
  wg_state :: WorkerState_sm
  wg_waiting_heartbeats :: "u32 list"
  wg_unresponsive :: bool
  wg_tokenomic :: TokenomicInfo
  wg_heartbeat_flag :: bool

definition WorkerInfo_new :: "(h256 \<Rightarrow> h256) \<Rightarrow> h256 \<Rightarrow> WorkerInfo_gk" where
  "WorkerInfo_new hashed pubkey =
     \<lparr>wg_state = WorkerState_new hashed pubkey, wg_waiting_heartbeats = [], wg_unresponsive = False,
      wg_tokenomic = TokenomicInfo_default, wg_heartbeat_flag = False\<rparr>"

datatype EconomicEvent =
    WorkingStarted
  | WorkingStopped
  | HeartbeatChallenge_sent
  | Heartbeat_paid u128
  | EnterUnresponsive_ev
  | ExitUnresponsive_ev
  | RecoverV

definition EconomicEvent_payout :: "EconomicEvent \<Rightarrow> u128" where
  "EconomicEvent_payout e = (case e of Heartbeat_paid payout \<Rightarrow> payout | _ \<Rightarrow> 0)"

record EconomicCalcCache =
  ec_sum_share :: u128
  ec_report :: WorkingInfoUpdateEvent

type_synonym economic_log = "(EconomicEvent \<times> WorkerInfo_gk) list"

record ComputingEconomics =
  ce_egress :: "WorkingInfoUpdateEvent list"
  ce_workers :: "(h256, WorkerInfo_gk) btree_map"
  ce_tokenomic_params :: Params
  ce_eco_cache :: EconomicCalcCache
  ce_listener :: economic_log

definition EconomicCalcCache_default :: EconomicCalcCache where
  "EconomicCalcCache_default = \<lparr>ec_sum_share = 0, ec_report = WorkingInfoUpdateEvent_new 0 0\<rparr>"

definition ComputingEconomics_new :: ComputingEconomics where
  "ComputingEconomics_new =
     \<lparr>ce_egress = [], ce_workers = [], ce_tokenomic_params = test_params,
      ce_eco_cache = EconomicCalcCache_default, ce_listener = []\<rparr>"

section \<open>Operations\<close>

definition ComputingEconomics_sum_share :: "u64f64_ops \<Rightarrow> ComputingEconomics \<Rightarrow> u128" where
  "ComputingEconomics_sum_share gx c =
     fold (\<lambda>x acc. gx_add gx acc x)
       (map (\<lambda>(_, info). TokenomicInfo_share gx (wg_tokenomic info))
         (filter (\<lambda>(_, info). \<not> wg_unresponsive info \<and> ws_working_state (wg_state info) \<noteq> None) (ce_workers c))) 0"

definition ComputingEconomics_will_process_block ::
  "u64f64_ops \<Rightarrow> BaseBlockInfo \<Rightarrow> ComputingEconomics \<Rightarrow> ComputingEconomics option" where
  "ComputingEconomics_will_process_block gx block c =
     (let sum_share = ComputingEconomics_sum_share gx c;
          report = WorkingInfoUpdateEvent_new (bi_block_number block) (bi_now_ms block);
          c = c\<lparr>ce_eco_cache := \<lparr>ec_sum_share = sum_share, ec_report = report\<rparr>\<rparr>
      in case ordmap_for_each_mut (\<lambda>_ worker e. Some (worker\<lparr>wg_heartbeat_flag := False\<rparr>, e)) (ce_workers c) ()
         of None \<Rightarrow> None | Some (workers, _) \<Rightarrow> Some (c\<lparr>ce_workers := workers\<rparr>))"

text \<open>The closure of \<open>did_process_block\<close>; the captured state is the report and the listener.\<close>

definition gk_block_post_process ::
  "u64f64_ops \<Rightarrow> Params \<Rightarrow> BaseBlockInfo \<Rightarrow> h256 \<Rightarrow> WorkerInfo_gk \<Rightarrow>
   WorkingInfoUpdateEvent \<times> economic_log \<Rightarrow> (WorkerInfo_gk \<times> WorkingInfoUpdateEvent \<times> economic_log) option" where
  "gk_block_post_process gx params block _ worker_info env =
     (let (report, listener) = env;
          (state, tracker) = WorkerState_on_block_processed WorkerSMTracker_callback block
            (wg_state worker_info) (WorkerSMTracker_new (wg_waiting_heartbeats worker_info));
          worker_info = worker_info\<lparr>wg_state := state,
            wg_waiting_heartbeats := smt_waiting_heartbeats tracker\<rparr>
      in if ws_working_state (wg_state worker_info) = None then Some (worker_info, report, listener)
      else let (worker_info, report, listener) =
        (if wg_unresponsive worker_info
         then if wg_heartbeat_flag worker_info
              then let worker_info = worker_info\<lparr>wg_unresponsive := False\<rparr>
                   in (worker_info,
                       report\<lparr>wi_recovered_to_online := wi_recovered_to_online report @ [ws_pubkey (wg_state worker_info)]\<rparr>,
                       listener @ [(ExitUnresponsive_ev, worker_info)])
              else (worker_info, report, listener)
         else case wg_waiting_heartbeats worker_info of [] \<Rightarrow> (worker_info, report, listener)
              | hb_sent_at # _ \<Rightarrow>
                  if bi_block_number block - hb_sent_at > pr_heartbeat_window params
                  then let report = report\<lparr>wi_offline := wi_offline report @ [ws_pubkey (wg_state worker_info)]\<rparr>;
                           worker_info = worker_info\<lparr>wg_unresponsive := True\<rparr>
                       in (worker_info, report, listener @ [(EnterUnresponsive_ev, worker_info)])
                  else (worker_info, report, listener))
      in if wg_unresponsive worker_info
         then Some (worker_info\<lparr>wg_tokenomic := TokenomicInfo_update_v_slash gx params (wg_tokenomic worker_info)\<rparr>,
                    report, listener)
         else if \<not> wg_heartbeat_flag worker_info
         then (case TokenomicInfo_update_v_idle gx params (wg_tokenomic worker_info) of None \<Rightarrow> None
               | Some t \<Rightarrow> Some (worker_info\<lparr>wg_tokenomic := t\<rparr>, report, listener))
         else Some (worker_info, report, listener))"

definition ComputingEconomics_did_process_block ::
  "u64f64_ops \<Rightarrow> BaseBlockInfo \<Rightarrow> ComputingEconomics \<Rightarrow> ComputingEconomics option" where
  "ComputingEconomics_did_process_block gx block c =
     (case ordmap_for_each_mut (gk_block_post_process gx (ce_tokenomic_params c) block) (ce_workers c)
             (ec_report (ce_eco_cache c), ce_listener c)
      of None \<Rightarrow> None
      | Some (workers, report, listener) \<Rightarrow>
          let c = c\<lparr>ce_workers := workers, ce_listener := listener,
                ce_eco_cache := (ce_eco_cache c)\<lparr>ec_report := WorkingInfoUpdateEvent_new 0 0\<rparr>\<rparr>
          in Some (if \<not> WorkingInfoUpdateEvent_is_empty report
                   then c\<lparr>ce_egress := ce_egress c @ [report]\<rparr> else c))"

text \<open>The two forms of a heartbeat; only the second one says whether contracts run.\<close>

fun heartbeat_fields :: "WorkingReportEvent \<Rightarrow> u32 \<times> u32 \<times> u64 \<times> u64 \<times> bool" where
  "heartbeat_fields (Heartbeat session_id challenge_block challenge_time iterations) =
     (session_id, challenge_block, challenge_time, iterations, False)"
| "heartbeat_fields (HeartbeatV2 session_id challenge_block challenge_time iterations n_clusters _) =
     (session_id, challenge_block, challenge_time, iterations, n_clusters > 0)"

fun ComputingEconomics_process_computing_report ::
  "u64f64_ops \<Rightarrow> MessageOrigin \<Rightarrow> WorkingReportEvent \<Rightarrow> BaseBlockInfo \<Rightarrow>
   ComputingEconomics \<Rightarrow> ComputingEconomics option" where
  "ComputingEconomics_process_computing_report gx (Worker worker_pubkey) event block c =
     (let (session_id, challenge_block, challenge_time, iterations, contract_running) = heartbeat_fields event
      in case bt_get (ce_workers c) worker_pubkey of None \<Rightarrow> Some c
      | Some worker_info \<Rightarrow>
          (case wg_waiting_heartbeats worker_info of [] \<Rightarrow> None
           | front # rest \<Rightarrow>
               if challenge_block \<noteq> front then None
               else let worker_info = worker_info\<lparr>wg_waiting_heartbeats := rest\<rparr>;
                        put = (\<lambda>info. c\<lparr>ce_workers := bt_insert worker_pubkey info (ce_workers c)\<rparr>)
               in case ws_working_state (wg_state worker_info) of None \<Rightarrow> Some (put worker_info)
               | Some working_state \<Rightarrow>
                   if session_id \<noteq> wk_session_id working_state then Some (put worker_info)
                   else let worker_info = worker_info\<lparr>wg_heartbeat_flag := True\<rparr>
                   in (case TokenomicInfo_update_p_instant gx (bi_now_ms block) iterations contract_running
                              (wg_tokenomic worker_info) of None \<Rightarrow> None
                   | Some t \<Rightarrow>
                       let t = t\<lparr>ti_challenge_time_last := challenge_time, ti_iteration_last := iterations\<rparr>
                       in if wg_unresponsive worker_info
                          then let t = TokenomicInfo_update_v_recover (bi_now_ms block) (bi_block_number block) t;
                                   worker_info = worker_info\<lparr>wg_tokenomic := t\<rparr>;
                                   c = put worker_info
                               in Some (c\<lparr>ce_listener := ce_listener c @ [(Heartbeat_paid 0, worker_info)]\<rparr>)
                          else (case TokenomicInfo_update_v_heartbeat gx (ce_tokenomic_params c)
                                       (ec_sum_share (ce_eco_cache c)) (bi_now_ms block) (bi_block_number block) t
                                of None \<Rightarrow> None
                                | Some ((payout, treasury), t) \<Rightarrow>
                                    let worker_info = worker_info\<lparr>wg_tokenomic := t\<rparr>;
                                        c = put worker_info;
                                        cache = ce_eco_cache c;
                                        report = ec_report cache;
                                        report = report\<lparr>wi_settle := wi_settle report @
                                          [\<lparr>si_pubkey = worker_pubkey, si_v = ti_v t, si_payout = payout,
                                            si_treasury = treasury\<rparr>]\<rparr>
                                    in Some (c\<lparr>ce_eco_cache := cache\<lparr>ec_report := report\<rparr>,
                                          ce_listener := ce_listener c @ [(Heartbeat_paid payout, worker_info)]\<rparr>)))))"
| "ComputingEconomics_process_computing_report gx _ event block c = Some c"

text \<open>The closure of \<open>process_system_event\<close>.\<close>

definition gk_replay_event ::
  "BaseBlockInfo \<Rightarrow> SystemEvent \<Rightarrow> h256 \<Rightarrow> WorkerInfo_gk \<Rightarrow> economic_log \<Rightarrow>
   (WorkerInfo_gk \<times> economic_log) option" where
  "gk_replay_event block event _ worker_info listener =
     (let (state, tracker) = WorkerState_process_event WorkerSMTracker_callback block event
            (wg_state worker_info) (WorkerSMTracker_new (wg_waiting_heartbeats worker_info));
          worker_info = worker_info\<lparr>wg_state := state,
            wg_waiting_heartbeats := smt_waiting_heartbeats tracker\<rparr>
      in Some (worker_info,
               if smt_challenge_received tracker then listener @ [(HeartbeatChallenge_sent, worker_info)]
               else listener))"

text \<open>The last part of \<open>process_system_event\<close>: what an event means for the worker it names.\<close>

fun gk_apply_worker_event ::
  "u64f64_ops \<Rightarrow> BaseBlockInfo \<Rightarrow> h256 \<Rightarrow> WorkerEvent \<Rightarrow> WorkerInfo_gk \<Rightarrow>
   ComputingEconomics \<Rightarrow> ComputingEconomics" where
  "gk_apply_worker_event gx block pubkey (Registered confidence_level) worker c =
     c\<lparr>ce_workers := bt_insert pubkey
         (worker\<lparr>wg_tokenomic := (wg_tokenomic worker)\<lparr>ti_confidence_level := confidence_level\<rparr>\<rparr>) (ce_workers c)\<rparr>"
| "gk_apply_worker_event gx block pubkey (Started _ init_v init_p) worker c =
     (let v = init_v;
          prev = wg_tokenomic worker;
          worker = worker\<lparr>wg_unresponsive := False,
            wg_tokenomic := \<lparr>ti_v = v, ti_v_init = v, ti_v_deductible = 0, ti_v_update_at = bi_now_ms block,
              ti_v_update_block = bi_block_number block, ti_iteration_last = 0,
              ti_challenge_time_last = bi_now_ms block, ti_p_bench = gx_from_num gx (ucast init_p),
              ti_p_instant = gx_from_num gx (ucast init_p), ti_confidence_level = ti_confidence_level prev,
              ti_contract_running = False\<rparr>\<rparr>
      in c\<lparr>ce_workers := bt_insert pubkey worker (ce_workers c),
           ce_listener := ce_listener c @ [(WorkingStarted, worker)]\<rparr>)"
| "gk_apply_worker_event gx block pubkey Stopped worker c =
     (let cache = ce_eco_cache c; report = ec_report cache;
          report = report\<lparr>wi_settle := wi_settle report @
            [\<lparr>si_pubkey = ws_pubkey (wg_state worker), si_v = ti_v (wg_tokenomic worker), si_payout = 0,
              si_treasury = 0\<rparr>]\<rparr>
      in c\<lparr>ce_eco_cache := cache\<lparr>ec_report := report\<rparr>,
           ce_listener := ce_listener c @ [(WorkingStopped, worker)]\<rparr>)"
| "gk_apply_worker_event gx block pubkey _ worker c = c"

definition ComputingEconomics_process_system_event ::
  "u64f64_ops \<Rightarrow> (h256 \<Rightarrow> h256) \<Rightarrow> MessageOrigin \<Rightarrow> SystemEvent \<Rightarrow> BaseBlockInfo \<Rightarrow>
   ComputingEconomics \<Rightarrow> ComputingEconomics option" where
  "ComputingEconomics_process_system_event gx hashed origin event block c =
     (if \<not> MessageOrigin_is_pallet origin then Some c
      else let c = (case event of
             WorkerEvent_ev pubkey (Registered _) \<Rightarrow>
               (if bt_get (ce_workers c) pubkey = None
                then c\<lparr>ce_workers := bt_insert pubkey (WorkerInfo_new hashed pubkey) (ce_workers c)\<rparr> else c)
           | _ \<Rightarrow> c)
      in case ordmap_for_each_mut (gk_replay_event block event) (ce_workers c) (ce_listener c) of None \<Rightarrow> None
      | Some (workers, listener) \<Rightarrow>
          let c = c\<lparr>ce_workers := workers, ce_listener := listener\<rparr>
          in Some (case event of
               WorkerEvent_ev pubkey e \<Rightarrow>
                 (case bt_get (ce_workers c) pubkey of None \<Rightarrow> c
                  | Some worker \<Rightarrow> gk_apply_worker_event gx block pubkey e worker c)
             | HeartbeatChallenge_ev _ \<Rightarrow> c))"

definition ComputingEconomics_update_tokenomic_parameters ::
  "u64f64_ops \<Rightarrow> TokenomicParams \<Rightarrow> ComputingEconomics \<Rightarrow> ComputingEconomics" where
  "ComputingEconomics_update_tokenomic_parameters gx params c =
     c\<lparr>ce_tokenomic_params := Params_from gx params\<rparr>"

fun ComputingEconomics_process_gatekeeper_event ::
  "u64f64_ops \<Rightarrow> MessageOrigin \<Rightarrow> GatekeeperEvent \<Rightarrow> ComputingEconomics \<Rightarrow> ComputingEconomics option" where
  "ComputingEconomics_process_gatekeeper_event gx origin (NewRandomNumber _) c = Some c"
| "ComputingEconomics_process_gatekeeper_event gx origin (Gk_TokenomicParametersChanged params) c =
     Some (if MessageOrigin_is_pallet origin
           then ComputingEconomics_update_tokenomic_parameters gx params c else c)"
| "ComputingEconomics_process_gatekeeper_event gx origin _ c = None"

text \<open>What the three receivers hold; a message that does not decode is logged and dropped.\<close>

datatype economics_msg =
    Computing_in MessageOrigin WorkingReportEvent
  | System_in MessageOrigin SystemEvent
  | Gatekeeper_in MessageOrigin GatekeeperEvent
  | Unreadable

fun economics_handle ::
  "u64f64_ops \<Rightarrow> (h256 \<Rightarrow> h256) \<Rightarrow> BaseBlockInfo \<Rightarrow> economics_msg \<Rightarrow> ComputingEconomics \<Rightarrow> ComputingEconomics option" where
  "economics_handle gx hashed block (Computing_in origin event) c =
     ComputingEconomics_process_computing_report gx origin event block c"
| "economics_handle gx hashed block (System_in origin event) c =
     ComputingEconomics_process_system_event gx hashed origin event block c"
| "economics_handle gx hashed block (Gatekeeper_in origin event) c =
     ComputingEconomics_process_gatekeeper_event gx origin event c"
| "economics_handle gx hashed block Unreadable c = Some c"

fun ComputingEconomics_process_messages ::
  "u64f64_ops \<Rightarrow> (h256 \<Rightarrow> h256) \<Rightarrow> BaseBlockInfo \<Rightarrow> economics_msg list \<Rightarrow> ComputingEconomics \<Rightarrow>
   ComputingEconomics option" where
  "ComputingEconomics_process_messages gx hashed block [] c = Some c"
| "ComputingEconomics_process_messages gx hashed block (m # ms) c =
     (case economics_handle gx hashed block m c of None \<Rightarrow> None
      | Some c \<Rightarrow> ComputingEconomics_process_messages gx hashed block ms c)"

section \<open>Settlements above the budget\<close>

text \<open>One block: the shares are summed up, the messages are processed, the workers are updated. A gatekeeper
  calls the three in this order as well.\<close>

definition ComputingEconomics_test_process_messages ::
  "u64f64_ops \<Rightarrow> (h256 \<Rightarrow> h256) \<Rightarrow> BaseBlockInfo \<Rightarrow> economics_msg list \<Rightarrow> ComputingEconomics \<Rightarrow>
   ComputingEconomics option" where
  "ComputingEconomics_test_process_messages gx hashed block ms c =
     Option.bind (Option.bind (ComputingEconomics_will_process_block gx block c)
         (ComputingEconomics_process_messages gx hashed block ms))
       (ComputingEconomics_did_process_block gx block)"

lemmas economics_evals =
  ComputingEconomics_test_process_messages_def
  ComputingEconomics_will_process_block_def ComputingEconomics_did_process_block_def
  ComputingEconomics_process_system_event_def ComputingEconomics_update_tokenomic_parameters_def
  ordmap_for_each_mut_def gk_replay_event_def gk_block_post_process_def Let_def
  WorkerSMTracker_new_def WorkerSMTracker_callback_def WorkerSMTracker_heartbeat_def
  WorkerState_handle_heartbeat_challenge_def WorkerStateMachineCallback_default_def
  WorkerState_on_block_processed_def WorkingInfoUpdateEvent_is_empty_def WorkingInfoUpdateEvent_new_def

definition ex_budget_params :: TokenomicParams where
  "ex_budget_params = \<lparr>tp_pha_rate = 0, tp_rho = fp_literal 1 1, tp_budget_per_block = fp_literal 100 1,
     tp_v_max = fp_literal 30000 1, tp_cost_k = 0, tp_cost_b = fp_literal 1 1, tp_slash_rate = 0,
     tp_treasury_ratio = fp_literal 1 4, tp_heartbeat_window = 10, tp_rig_k = 0, tp_rig_b = 0,
     tp_re = 0, tp_k = 0, tp_kappa = 0\<rparr>"

text \<open>A worker with the value 720 and the performance \<open>p\<close>: its share is 1200 for 480, 1308 for 546.\<close>

definition ex_budget_tokenomic :: "nat \<Rightarrow> TokenomicInfo" where
  "ex_budget_tokenomic p =
     \<lparr>ti_v = fp_literal 720 1, ti_v_init = fp_literal 719 1, ti_v_deductible = fp_literal 1 1,
      ti_v_update_at = 1000, ti_v_update_block = 1, ti_iteration_last = 0, ti_challenge_time_last = 1000,
      ti_p_bench = fp_literal 480 1, ti_p_instant = fp_literal p 1, ti_confidence_level = 1,
      ti_contract_running = False\<rparr>"

definition ex_budget_worker :: WorkerInfo_gk where
  "ex_budget_worker =
    \<lparr>wg_state = \<lparr>ws_pubkey = 1, ws_hashed_id = 1, ws_registered = True, ws_bench_state = None,
       ws_working_state = Some \<lparr>wk_session_id = 0, wk_state = Computing, wk_start_time = 1000, wk_start_iter = 0\<rparr>\<rparr>,
     wg_waiting_heartbeats = [1], wg_unresponsive = False,
     wg_tokenomic = ex_budget_tokenomic 480, wg_heartbeat_flag = False\<rparr>"

lemma ex_budget_block_1:
  "\<exists>c. ComputingEconomics_test_process_messages q64_ops id \<lparr>bi_block_number = 1, bi_now_ms = 1000\<rparr>
     [Gatekeeper_in (Pallet p) (Gk_TokenomicParametersChanged ex_budget_params),
      System_in (Pallet p) (WorkerEvent_ev 1 (Registered 1)),
      System_in (Pallet p) (WorkerEvent_ev 1 (Started 0 (fp_literal 719 1) 480)),
      System_in (Pallet p) (HeartbeatChallenge_ev \<lparr>hc_seed = 0, hc_online_target = - 1\<rparr>)]
     ComputingEconomics_new = Some c \<and> ce_workers c = [(1, ex_budget_worker)] \<and>
     ce_tokenomic_params c = Params_from q64_ops ex_budget_params \<and> ce_egress c = []"
  by (simp add: economics_evals ComputingEconomics_new_def Params_from_def ex_budget_params_def
      WorkerInfo_new_def WorkerState_new_def TokenomicInfo_update_v_idle_def q64_ops_def fp_literal_def
      TokenomicInfo_default_def TokenomicInfo_p_def ex_budget_worker_def ex_budget_tokenomic_def)

lemma ex_budget_shares:
  assumes "ti_v t = fp_literal 720 1" and "ti_confidence_level t = 1"
  shows "TokenomicInfo_p t = fp_literal 480 1 \<Longrightarrow> TokenomicInfo_share q64_ops t = fp_literal 1200 1"
    and "TokenomicInfo_p t = fp_literal 546 1 \<Longrightarrow> TokenomicInfo_share q64_ops t = fp_literal 1308 1"
  using assms isqrt_square [of "1200 * 2 ^ 64"] isqrt_square [of "1308 * 2 ^ 64"]
  by (simp_all add: TokenomicInfo_share_def square_def conf_score_def q64_ops_def fp_literal_def)

lemma ex_budget_block_2:
  assumes "ce_workers c = [(1, ex_budget_worker)]" and "ce_egress c = []"
    and "ce_tokenomic_params c = Params_from q64_ops ex_budget_params"
  shows "\<exists>c' report s. ComputingEconomics_test_process_messages q64_ops id \<lparr>bi_block_number = 2, bi_now_ms = 2000\<rparr>
       [Computing_in (Worker 1) (Heartbeat 0 1 1000 91)] c = Some c' \<and>
     ce_egress c' = [report] \<and> wi_settle report = [s] \<and>
     unat (tp_budget_per_block ex_budget_params) < unat (si_payout s) + unat (si_treasury s)"
proof -
  have "\<not> (2 :: u32) \<le> 1" by (simp add: word_le_nat_alt)
  with assms show ?thesis
    by (simp add: economics_evals ComputingEconomics_sum_share_def ex_budget_worker_def ord_clamp_def
        TokenomicInfo_update_p_instant_def TokenomicInfo_update_v_heartbeat_def ex_budget_shares
        ex_budget_tokenomic_def TokenomicInfo_p_def Params_from_def ex_budget_params_def q64_evals fp_literal_def)
qed

section \<open>Properties\<close>

text \<open>C21: A block can settle more than its budget. The sum of shares is taken at the start of the block,
  but a heartbeat first updates the performance of its worker and then divides the new share by the
  old sum: a worker that works alone and answers faster than it was benchmarked is settled more for
  one block than the budget of a block. The run starts with a new gatekeeper, in which the pallet sets
  the parameters, registers and starts the worker and challenges it.\<close>

theorem heartbeat_exceeds_budget:
  "\<exists>c c' report s.
     ComputingEconomics_test_process_messages q64_ops id \<lparr>bi_block_number = 1, bi_now_ms = 1000\<rparr>
       [Gatekeeper_in (Pallet p) (Gk_TokenomicParametersChanged ex_budget_params),
        System_in (Pallet p) (WorkerEvent_ev 1 (Registered 1)),
        System_in (Pallet p) (WorkerEvent_ev 1 (Started 0 (fp_literal 719 1) 480)),
        System_in (Pallet p) (HeartbeatChallenge_ev \<lparr>hc_seed = 0, hc_online_target = - 1\<rparr>)]
       ComputingEconomics_new = Some c \<and>
     map fst (ce_workers c) = [1] \<and>
     ComputingEconomics_test_process_messages q64_ops id \<lparr>bi_block_number = 2, bi_now_ms = 2000\<rparr>
       [Computing_in (Worker 1) (Heartbeat 0 1 1000 91)] c = Some c' \<and>
     ce_egress c' = [report] \<and> wi_settle report = [s] \<and>
     unat (tp_budget_per_block ex_budget_params) < unat (si_payout s) + unat (si_treasury s)"
proof -
  obtain c where c: "ComputingEconomics_test_process_messages q64_ops id \<lparr>bi_block_number = 1, bi_now_ms = 1000\<rparr>
       [Gatekeeper_in (Pallet p) (Gk_TokenomicParametersChanged ex_budget_params),
        System_in (Pallet p) (WorkerEvent_ev 1 (Registered 1)),
        System_in (Pallet p) (WorkerEvent_ev 1 (Started 0 (fp_literal 719 1) 480)),
        System_in (Pallet p) (HeartbeatChallenge_ev \<lparr>hc_seed = 0, hc_online_target = - 1\<rparr>)]
       ComputingEconomics_new = Some c"
    "ce_workers c = [(1, ex_budget_worker)]" "ce_tokenomic_params c = Params_from q64_ops ex_budget_params"
    "ce_egress c = []"
    using ex_budget_block_1 by blast
  with ex_budget_block_2 [OF c(2,4,3)] show ?thesis by fastforce
qed

end
