(* ===== verification/Crypto_Share.thy ===== *)
theory Crypto_Share
  imports Mq_Types
begin

text \<open>
  Keys and their distribution: the crate \<open>crates/phala-crypto\<close> (\<open>sr25519.rs\<close>, \<open>ecdh.rs\<close>, \<open>aead.rs\<close>,
  \<open>key_share.rs\<close>), the encrypted payloads of \<open>crates/phactory/api/src/crypto.rs\<close> and
  \<open>crates/phactory/src/secret_channel.rs\<close>, and the sealed master keys of
  \<open>crates/phactory/src/system/master_key.rs\<close>.

  A key pair is its secret bytes. The primitives of \<open>schnorrkel\<close>, \<open>curve25519_dalek\<close>, \<open>ring\<close> and
  \<open>sp_core\<close> are the fields of an argument \<open>cr\<close>; \<open>crypto_laws\<close> states what they promise. A panic is
  \<^term>\<open>Inl Panics\<close>.
\<close>

section \<open>Primitives\<close>

record crypto_ops =
  cr_expand :: "bytes \<Rightarrow> bytes list \<Rightarrow> bytes option"
  cr_from_seed :: "bytes \<Rightarrow> bytes"
  cr_from_secret :: "bytes \<Rightarrow> bytes option"
  cr_public :: "bytes \<Rightarrow> h256"
  cr_scalar :: "bytes \<Rightarrow> bytes option"
  cr_point :: "h256 \<Rightarrow> bytes option"
  cr_mul_compress :: "bytes \<Rightarrow> bytes \<Rightarrow> bytes"
  cr_aead_key :: "bytes \<Rightarrow> bytes option"
  cr_aead_seal :: "bytes \<Rightarrow> bytes \<Rightarrow> bytes \<Rightarrow> bytes option"
  cr_aead_open :: "bytes \<Rightarrow> bytes \<Rightarrow> bytes \<Rightarrow> bytes option"
  cr_sign :: "bytes \<Rightarrow> bytes \<Rightarrow> bytes"
  cr_verify :: "bytes \<Rightarrow> bytes \<Rightarrow> h256 \<Rightarrow> bool"
  cr_blake2_256 :: "bytes \<Rightarrow> bytes"

datatype CryptoError =
    HkdfExpandError
  | EcdhInvalidSecretKey
  | EcdhInvalidPublicKey
  | AeadInvalidKey
  | AeadEncryptError
  | AeadDecryptError
  | Sr25519InvalidSecret

text \<open>
  A secret is good when it restores to itself and is a scalar; every derived pair is good, two good
  pairs agree on a secret of the length of an AES key, opening undoes sealing under the same key and
  nonce, signatures verify, and a hash has 32 bytes.
\<close>

definition good_secret :: "crypto_ops \<Rightarrow> bytes \<Rightarrow> bool" where
  "good_secret cr sk \<longleftrightarrow> length sk = 64 \<and> cr_from_secret cr sk = Some sk \<and> cr_scalar cr (take 32 sk) \<noteq> None"

definition crypto_laws :: "crypto_ops \<Rightarrow> bool" where
  "crypto_laws cr \<longleftrightarrow>
     (\<forall>sk info. good_secret cr sk \<longrightarrow> cr_expand cr sk info \<noteq> None) \<and>
     (\<forall>seed. good_secret cr (cr_from_seed cr seed)) \<and>
     (\<forall>sk. good_secret cr sk \<longrightarrow> cr_point cr (cr_public cr sk) \<noteq> None) \<and>
     (\<forall>a b. good_secret cr a \<and> good_secret cr b \<longrightarrow>
        cr_mul_compress cr (the (cr_scalar cr (take 32 a))) (the (cr_point cr (cr_public cr b))) =
        cr_mul_compress cr (the (cr_scalar cr (take 32 b))) (the (cr_point cr (cr_public cr a)))) \<and>
     (\<forall>s p. cr_aead_key cr (cr_mul_compress cr s p) \<noteq> None) \<and>
     (\<forall>raw key iv m. cr_aead_key cr raw = Some key \<longrightarrow>
        (\<exists>c. cr_aead_seal cr key iv m = Some c \<and> cr_aead_open cr key iv c = Some m)) \<and>
     (\<forall>sk m. good_secret cr sk \<longrightarrow> cr_verify cr (cr_sign cr sk m) m (cr_public cr sk)) \<and>
     (\<forall>m. length (cr_blake2_256 cr m) = 32)"

section \<open>Key pairs\<close>

definition derive_sr25519_pair :: "crypto_ops \<Rightarrow> bytes \<Rightarrow> bytes list \<Rightarrow> CryptoError exn + bytes" where
  "derive_sr25519_pair cr pair info =
     bind_res (ok_or (cr_expand cr pair info) (Fails HkdfExpandError)) (\<lambda>seed. Inr (cr_from_seed cr seed))"

text \<open>\<open>EcdhKey::from_secret\<close> on the secret of the pair; its bytes are those of the pair.\<close>

definition derive_ecdh_key :: "bytes \<Rightarrow> bytes" where
  "derive_ecdh_key pair = pair"

definition dump_secret_key :: "bytes \<Rightarrow> bytes" where
  "dump_secret_key pair = pair"

definition restore_from_secret_key :: "crypto_ops \<Rightarrow> bytes \<Rightarrow> 'e exn + bytes" where
  "restore_from_secret_key cr secret = ok_or (cr_from_secret cr secret) Panics"

definition ecdh_agree :: "crypto_ops \<Rightarrow> bytes \<Rightarrow> h256 \<Rightarrow> CryptoError exn + bytes" where
  "ecdh_agree cr sk pk =
     bind_res (ok_or (cr_scalar cr (take 32 sk)) Panics) (\<lambda>key.
     bind_res (ok_or (cr_point cr pk) Panics) (\<lambda>public. Inr (cr_mul_compress cr key public)))"

section \<open>Authenticated encryption\<close>

definition IV_BYTES :: nat where
  "IV_BYTES = 12"

text \<open>\<open>copy_from_slice\<close> panics unless the lengths agree.\<close>

definition copy_from_slice :: "nat \<Rightarrow> bytes \<Rightarrow> 'e exn + bytes" where
  "copy_from_slice n src = (if length src = n then Inr src else Inl Panics)"

definition aead_generate_iv :: "bytes \<Rightarrow> 'e exn + bytes" where
  "aead_generate_iv nonce =
     (let min_len = min (length nonce) IV_BYTES in copy_from_slice IV_BYTES (take min_len nonce))"

definition aead_load_key :: "crypto_ops \<Rightarrow> bytes \<Rightarrow> CryptoError exn + bytes" where
  "aead_load_key cr raw = ok_or (cr_aead_key cr raw) (Fails AeadInvalidKey)"

definition aead_encrypt :: "crypto_ops \<Rightarrow> bytes \<Rightarrow> bytes \<Rightarrow> bytes \<Rightarrow> CryptoError exn + bytes" where
  "aead_encrypt cr iv secret in_out =
     bind_res (aead_load_key cr secret) (\<lambda>key. ok_or (cr_aead_seal cr key iv in_out) (Fails AeadEncryptError))"

text \<open>The slice of the nonce panics when it is too short.\<close>

definition aead_decrypt :: "crypto_ops \<Rightarrow> bytes \<Rightarrow> bytes \<Rightarrow> bytes \<Rightarrow> CryptoError exn + bytes" where
  "aead_decrypt cr iv secret in_out =
     (if length iv < IV_BYTES then Inl Panics
      else bind_res (aead_load_key cr secret) (\<lambda>key.
             ok_or (cr_aead_open cr key (take IV_BYTES iv) in_out) (Fails AeadDecryptError)))"

section \<open>Sharing a secret\<close>

definition encrypt_secret_to ::
  "crypto_ops \<Rightarrow> bytes \<Rightarrow> bytes list \<Rightarrow> h256 \<Rightarrow> bytes \<Rightarrow> bytes \<Rightarrow> CryptoError exn + h256 \<times> bytes" where
  "encrypt_secret_to cr my_key key_derive_info ecdh_pubkey secret_key iv =
     bind_res (derive_sr25519_pair cr my_key key_derive_info) (\<lambda>derived_key.
     let my_ecdh_key = derive_ecdh_key derived_key in
     bind_res (ecdh_agree cr my_ecdh_key ecdh_pubkey) (\<lambda>secret.
     bind_res (aead_encrypt cr iv secret secret_key) (\<lambda>data.
     Inr (cr_public cr my_ecdh_key, data))))"

definition decrypt_secret_from ::
  "crypto_ops \<Rightarrow> bytes \<Rightarrow> h256 \<Rightarrow> bytes \<Rightarrow> bytes \<Rightarrow> CryptoError exn + bytes" where
  "decrypt_secret_from cr my_ecdh_key ecdh_pubkey encrypted_key iv =
     bind_res (ecdh_agree cr my_ecdh_key ecdh_pubkey) (\<lambda>secret.
     bind_res (aead_decrypt cr iv secret encrypted_key) (\<lambda>secret_key.
     if length secret_key = 64 then Inr secret_key else Inl (Fails Sr25519InvalidSecret)))"

record EncryptedData =
  ed_iv :: bytes
  ed_pubkey :: h256
  ed_data :: bytes

definition EncryptedData_decrypt :: "crypto_ops \<Rightarrow> EncryptedData \<Rightarrow> bytes \<Rightarrow> CryptoError exn + bytes" where
  "EncryptedData_decrypt cr d key =
     bind_res (ecdh_agree cr key (ed_pubkey d)) (\<lambda>sk. aead_decrypt cr (ed_iv d) sk (ed_data d))"

definition EncryptedData_encrypt ::
  "crypto_ops \<Rightarrow> bytes \<Rightarrow> h256 \<Rightarrow> bytes \<Rightarrow> bytes \<Rightarrow> CryptoError exn + EncryptedData" where
  "EncryptedData_encrypt cr key remote_pubkey iv data =
     bind_res (ecdh_agree cr key remote_pubkey) (\<lambda>sk.
     bind_res (aead_encrypt cr iv sk data) (\<lambda>data.
     Inr \<lparr>ed_iv = iv, ed_pubkey = cr_public cr key, ed_data = data\<rparr>))"

section \<open>Secret messages\<close>

datatype 'a Payload = Plain 'a | Encrypted EncryptedData

datatype PeelError = Peel_CodecError | Peel_CryptoError

definition encrypt_payload ::
  "crypto_ops \<Rightarrow> bytes \<Rightarrow> h256 option \<Rightarrow> bytes \<Rightarrow> bytes \<Rightarrow> CryptoError exn + bytes Payload" where
  "encrypt_payload cr key remote_pubkey iv data =
     (case remote_pubkey of
        Some pk \<Rightarrow> (case EncryptedData_encrypt cr key pk iv data of
                      Inr d \<Rightarrow> Inr (Encrypted d) | Inl _ \<Rightarrow> Inl Panics)
      | None \<Rightarrow> Inr (Plain data))"

fun SecretPeeler_peel ::
  "crypto_ops \<Rightarrow> (bytes \<Rightarrow> 'a option) \<Rightarrow> bytes \<Rightarrow> 'a Payload \<Rightarrow> PeelError exn + 'a" where
  "SecretPeeler_peel cr dec ecdh_key (Plain msg) = Inr msg"
| "SecretPeeler_peel cr dec ecdh_key (Encrypted msg) =
     (case EncryptedData_decrypt cr msg ecdh_key of
        Inl Panics \<Rightarrow> Inl Panics
      | Inl (Fails _) \<Rightarrow> Inl (Fails Peel_CryptoError)
      | Inr data \<Rightarrow> ok_or (dec data) (Fails Peel_CodecError))"

section \<open>Sealed master keys\<close>

record RotatedMasterKey =
  mk_rotation_id :: u64
  mk_block_height :: u32
  mk_secret :: bytes

datatype MasterKeySeal =
    Seal_V1 bytes bytes
  | Seal_V2 "RotatedMasterKey list" bytes

text \<open>
  The SCALE codec of a history and of a seal, and the sealing of the platform: what it writes and what
  it reads back (\<^term>\<open>Inl Panics\<close> for an error, which the code expects not to happen).
\<close>

record seal_ops =
  se_enc_history :: "RotatedMasterKey list \<Rightarrow> bytes"
  se_enc :: "MasterKeySeal \<Rightarrow> bytes"
  se_dec :: "bytes \<Rightarrow> MasterKeySeal option"
  se_seal :: "bytes \<Rightarrow> bytes option"
  se_unseal :: "bytes \<Rightarrow> bytes option"

text \<open>The file after sealing.\<close>

definition master_key_seal ::
  "crypto_ops \<Rightarrow> seal_ops \<Rightarrow> RotatedMasterKey list \<Rightarrow> bytes \<Rightarrow> unit exn + bytes" where
  "master_key_seal cr se master_key_history identity_key =
     (let encoded = se_enc_history se master_key_history;
          wrapped = wrap_content_to_sign encoded MasterKeyStore;
          signature = cr_sign cr identity_key wrapped;
          data = Seal_V2 master_key_history signature
      in ok_or (se_seal se (se_enc se data)) Panics)"

text \<open>\<open>file\<close> is the content of the file, if it exists.\<close>

definition master_key_try_unseal ::
  "crypto_ops \<Rightarrow> seal_ops \<Rightarrow> bytes option \<Rightarrow> bytes \<Rightarrow> unit exn + RotatedMasterKey list" where
  "master_key_try_unseal cr se file identity_key =
     (case file of None \<Rightarrow> Inr []
      | Some f \<Rightarrow>
          bind_res (ok_or (se_unseal se f) Panics) (\<lambda>sealed_data.
          bind_res (ok_or (se_dec se sealed_data) Panics) (\<lambda>versioned_data.
          case versioned_data of
            Seal_V1 secret signature \<Rightarrow>
              if cr_verify cr signature secret (cr_public cr identity_key)
              then Inr [\<lparr>mk_rotation_id = 0, mk_block_height = 0, mk_secret = secret\<rparr>]
              else Inl Panics
          | Seal_V2 rotations signature \<Rightarrow>
              let encoded = se_enc_history se rotations;
                  wrapped = wrap_content_to_sign encoded MasterKeyStore
              in if cr_verify cr signature wrapped (cr_public cr identity_key)
                 then Inr rotations else Inl Panics)))"

section \<open>Two pairs agree\<close>

lemma expand_good: "crypto_laws cr \<Longrightarrow> good_secret cr sk \<Longrightarrow> \<exists>seed. cr_expand cr sk info = Some seed"
  by (auto simp: crypto_laws_def)

lemma from_seed_good: "crypto_laws cr \<Longrightarrow> good_secret cr (cr_from_seed cr seed)"
  by (auto simp: crypto_laws_def)

lemma derive_good:
  assumes "crypto_laws cr" and "good_secret cr sk"
  shows "\<exists>d. derive_sr25519_pair cr sk info = Inr d \<and> good_secret cr d"
  using expand_good [OF assms, of info] from_seed_good [OF assms(1)] by (auto simp: derive_sr25519_pair_def)

lemma point_good: "crypto_laws cr \<Longrightarrow> good_secret cr sk \<Longrightarrow> \<exists>p. cr_point cr (cr_public cr sk) = Some p"
  unfolding crypto_laws_def by (elim conjE) blast

lemma agree_good:
  assumes "crypto_laws cr" and "good_secret cr a" and "good_secret cr b"
  shows "\<exists>k key. ecdh_agree cr a (cr_public cr b) = Inr k \<and> ecdh_agree cr b (cr_public cr a) = Inr k \<and>
    cr_aead_key cr k = Some key"
proof -
  obtain sa sb pa pb where s: "cr_scalar cr (take 32 a) = Some sa" "cr_scalar cr (take 32 b) = Some sb"
    "cr_point cr (cr_public cr a) = Some pa" "cr_point cr (cr_public cr b) = Some pb"
    using point_good [OF assms(1)] assms(2,3) unfolding good_secret_def by blast
  have "\<forall>a b. good_secret cr a \<and> good_secret cr b \<longrightarrow>
        cr_mul_compress cr (the (cr_scalar cr (take 32 a))) (the (cr_point cr (cr_public cr b))) =
        cr_mul_compress cr (the (cr_scalar cr (take 32 b))) (the (cr_point cr (cr_public cr a)))"
    using assms(1) unfolding crypto_laws_def by (elim conjE)
  from this [rule_format, of a b] have "cr_mul_compress cr sa pb = cr_mul_compress cr sb pa"
    using assms(2,3) by (simp add: s)
  moreover have "\<forall>s p. cr_aead_key cr (cr_mul_compress cr s p) \<noteq> None"
    using assms(1) unfolding crypto_laws_def by (elim conjE)
  then obtain key where "cr_aead_key cr (cr_mul_compress cr sb pa) = Some key" by blast
  ultimately show ?thesis by (simp add: ecdh_agree_def s)
qed

lemma seal_open:
  assumes "crypto_laws cr" and "cr_aead_key cr raw = Some key"
  shows "\<exists>c. cr_aead_seal cr key iv m = Some c \<and> cr_aead_open cr key iv c = Some m"
  using assms unfolding crypto_laws_def by (elim conjE) blast

text \<open>What one pair encrypts to the public key of another, the other decrypts.\<close>

lemma encrypt_decrypt:
  assumes "crypto_laws cr" and "good_secret cr a" and "good_secret cr b" and "length iv = IV_BYTES"
  shows "\<exists>k c. ecdh_agree cr a (cr_public cr b) = Inr k \<and> ecdh_agree cr b (cr_public cr a) = Inr k \<and>
    aead_encrypt cr iv k m = Inr c \<and> aead_decrypt cr iv k c = Inr m"
proof -
  obtain k key where k: "ecdh_agree cr a (cr_public cr b) = Inr k" "ecdh_agree cr b (cr_public cr a) = Inr k"
    "cr_aead_key cr k = Some key"
    using agree_good [OF assms(1-3)] by auto
  obtain c where "cr_aead_seal cr key iv m = Some c" "cr_aead_open cr key iv c = Some m"
    using seal_open [OF assms(1) k(3)] by blast
  with k(3) assms(4) have "aead_encrypt cr iv k m = Inr c \<and> aead_decrypt cr iv k c = Inr m"
    by (simp add: aead_encrypt_def aead_decrypt_def aead_load_key_def)
  with k(1,2) show ?thesis by blast
qed

lemma share_secret:
  assumes "crypto_laws cr" and "good_secret cr my_key" and "good_secret cr your_key"
    and "length secret = 64" and "length iv = IV_BYTES"
  shows "\<exists>epk c. encrypt_secret_to cr my_key info (cr_public cr your_key) secret iv = Inr (epk, c) \<and>
    decrypt_secret_from cr (derive_ecdh_key your_key) epk c iv = Inr secret"
proof -
  obtain d where d: "derive_sr25519_pair cr my_key info = Inr d" "good_secret cr d"
    using derive_good [OF assms(1,2)] by blast
  from encrypt_decrypt [OF assms(1) d(2) assms(3,5), of secret] d(1) assms(4) show ?thesis
    by (auto simp: encrypt_secret_to_def decrypt_secret_from_def derive_ecdh_key_def Let_def)
qed

text \<open>Sealed master keys are read back, given a platform that unseals what it sealed.\<close>

lemma seal_unseal:
  assumes "crypto_laws cr" and "good_secret cr identity_key"
    and "\<And>sig. se_dec se (se_enc se (Seal_V2 keys sig)) = Some (Seal_V2 keys sig)"
    and "\<And>d. \<exists>f. se_seal se d = Some f \<and> se_unseal se f = Some d"
  shows "\<exists>f. master_key_seal cr se keys identity_key = Inr f \<and>
    master_key_try_unseal cr se (Some f) identity_key = Inr keys"
proof -
  have v: "cr_verify cr (cr_sign cr identity_key m) m (cr_public cr identity_key)" for m
    using assms(1,2) by (auto simp: crypto_laws_def)
  obtain f where "se_seal se (se_enc se (Seal_V2 keys (cr_sign cr identity_key
      (wrap_content_to_sign (se_enc_history se keys) MasterKeyStore)))) = Some f"
    "se_unseal se f = Some (se_enc se (Seal_V2 keys (cr_sign cr identity_key
      (wrap_content_to_sign (se_enc_history se keys) MasterKeyStore))))"
    using assms(4) by blast
  then show ?thesis
    using assms(3) v by (simp add: master_key_seal_def master_key_try_unseal_def Let_def)
qed

section \<open>Properties\<close>

text \<open>A secret key encrypted to the public key of a worker is what that worker decrypts; the
  exchange neither fails nor panics.\<close>

theorem share_secret_roundtrip:
  assumes "crypto_laws cr" and "good_secret cr my_key" and "good_secret cr your_key"
    and "length secret = 64" and "length iv = IV_BYTES"
  shows "\<exists>epk c. encrypt_secret_to cr my_key info (cr_public cr your_key) secret iv = Inr (epk, c) \<and>
    decrypt_secret_from cr (derive_ecdh_key your_key) epk c iv = Inr secret"
  using assms by (rule share_secret)

definition first_byte :: "bytes \<Rightarrow> h256" where
  "first_byte bs = (case bs of [] \<Rightarrow> 0 | b # _ \<Rightarrow> ucast b)"

definition ex_crypto :: crypto_ops where
  "ex_crypto = \<lparr>cr_expand = \<lambda>sk _. Some sk, cr_from_seed = \<lambda>seed. take 64 (seed @ replicate 64 0),
     cr_from_secret = Some, cr_public = first_byte, cr_scalar = Some, cr_point = \<lambda>_. Some [],
     cr_mul_compress = \<lambda>_ _. replicate 32 0, cr_aead_key = \<lambda>raw. if length raw = 32 then Some raw else None,
     cr_aead_seal = \<lambda>_ _ m. Some (m @ replicate 16 0), cr_aead_open = \<lambda>_ _ c. Some (take (length c - 16) c),
     cr_sign = \<lambda>sk _. sk, cr_verify = \<lambda>sig _ pk. first_byte sig = pk,
     cr_blake2_256 = \<lambda>m. take 32 (rev m @ replicate 32 0)\<rparr>"

lemma ex_crypto_laws: "crypto_laws ex_crypto"
  by (auto simp: crypto_laws_def good_secret_def ex_crypto_def min_def)

lemma ex_good_secret: "good_secret ex_crypto sk \<longleftrightarrow> length sk = 64"
  by (simp add: good_secret_def ex_crypto_def)

theorem share_secret_roundtrip_witness:
  "\<exists>epk c. encrypt_secret_to ex_crypto (replicate 64 1) [[7]] (cr_public ex_crypto (replicate 64 2))
       (replicate 64 3) (replicate 12 0) = Inr (epk, c) \<and>
     decrypt_secret_from ex_crypto (derive_ecdh_key (replicate 64 2)) epk c (replicate 12 0) = Inr (replicate 64 3)"
  by (rule share_secret_roundtrip) (simp_all add: ex_crypto_laws ex_good_secret IV_BYTES_def)

text \<open>C38: Sealing the master keys and reading them back with the same identity key gives the keys,
  provided the platform unseals what it sealed and the codec decodes what it encodes.\<close>

theorem master_key_seal_roundtrip:
  assumes "crypto_laws cr" and "good_secret cr identity_key"
    and "\<And>sig. se_dec se (se_enc se (Seal_V2 keys sig)) = Some (Seal_V2 keys sig)"
    and "\<And>d. \<exists>f. se_seal se d = Some f \<and> se_unseal se f = Some d"
  shows "\<exists>f. master_key_seal cr se keys identity_key = Inr f \<and>
    master_key_try_unseal cr se (Some f) identity_key = Inr keys"
  using assms by (rule seal_unseal)

definition ex_keys :: "RotatedMasterKey list" where
  "ex_keys = [\<lparr>mk_rotation_id = 0, mk_block_height = 0, mk_secret = replicate 64 5\<rparr>]"

definition ex_seal :: seal_ops where
  "ex_seal = \<lparr>se_enc_history = \<lambda>ks. concat (map mk_secret ks),
     se_enc = \<lambda>s. case s of Seal_V2 _ sig \<Rightarrow> sig | Seal_V1 _ sig \<Rightarrow> sig,
     se_dec = \<lambda>b. Some (Seal_V2 ex_keys b), se_seal = Some, se_unseal = Some\<rparr>"

theorem master_key_seal_roundtrip_witness:
  "\<exists>f. master_key_seal ex_crypto ex_seal ex_keys (replicate 64 1) = Inr f \<and>
     master_key_try_unseal ex_crypto ex_seal (Some f) (replicate 64 1) = Inr ex_keys"
  by (rule master_key_seal_roundtrip) (simp_all add: ex_crypto_laws ex_good_secret ex_seal_def)

end
