(* ===== verification/Gk_Keys.thy ===== *)
theory Gk_Keys
  imports Gk_Economics Crypto_Share Mq_Send_Queue "HOL-Library.Monad_Syntax"
begin

text \<open>
  The structure \<open>Gatekeeper\<close> of \<open>crates/phactory/src/system/gk.rs\<close>: the master key and its history, the
  keys it shares, the random numbers it emits, and the economics it runs.

  The egress channel of the gatekeeper and the clone of it that \<open>ComputingEconomics\<close> holds are two
  handles on the same queue, each with a signer of its own; the queue is passed explicitly. The
  receivers are lists of the messages that wait in them, in the order of \<open>select!\<close>. \<^term>\<open>None\<close> is a
  panic. The build has neither of the features \<open>shadow-gk\<close> and \<open>gk-stat\<close>.
\<close>

section \<open>Environment\<close>

text \<open>What the gatekeeper pushes.\<close>

datatype Gk_message =
    Gk_registry_event GatekeeperRegistryEvent
  | Gk_cluster_registry_event ClusterRegistryEvent
  | Gk_key_distribution KeyDistribution
  | Gk_cluster_operation ClusterOperation
  | Gk_event GatekeeperEvent
  | Gk_report WorkingInfoUpdateEvent

text \<open>
  The code outside this repository: cryptography, fixed-point arithmetic, the hash of a public key, and
  the SCALE codec (of a message with its topic, of what is signed for a message, and of a rotation event).
\<close>

record gk_env =
  ge_cr :: crypto_ops
  ge_gx :: u64f64_ops
  ge_hashed :: "h256 \<Rightarrow> h256"
  ge_encode :: "Gk_message \<Rightarrow> bytes \<times> bytes"
  ge_enc_signed :: "Message \<times> u64 \<Rightarrow> bytes"
  ge_enc_rotation :: "u64 \<times> (h256, EncryptedKey) btree_map \<times> h256 \<Rightarrow> bytes"

definition expect_ok :: "'e + 'a \<Rightarrow> 'a option" where
  "expect_ok r = (case r of Inr x \<Rightarrow> Some x | Inl _ \<Rightarrow> None)"

text \<open>A byte string literal, and the big-endian bytes of a number.\<close>

definition bstr :: "string \<Rightarrow> bytes" where
  "bstr s = map (\<lambda>c. of_nat (of_char c)) s"

definition to_be_bytes :: "nat \<Rightarrow> 'w::len word \<Rightarrow> bytes" where
  "to_be_bytes n w = map (\<lambda>i. of_nat (unat w div 256 ^ (n - 1 - i) mod 256)) [0 ..< n]"

section \<open>State\<close>

datatype gk_msg =
    Gk_event_in MessageOrigin GatekeeperEvent
  | Cluster_event_in MessageOrigin ClusterEvent

record Gatekeeper_state =
  gk_master_key :: bytes
  gk_master_pubkey_on_chain :: bool
  gk_registered_on_chain :: bool
  gk_master_key_history :: "RotatedMasterKey list"
  gk_egress :: "bytes MessageChannel"
  gk_events :: "gk_msg list"
  gk_last_random_number :: bytes
  gk_iv_seq :: u64
  gk_economics :: ComputingEconomics
  gk_economics_events :: "economics_msg list"
  gk_economics_egress :: "bytes MessageChannel"

definition gk_push ::
  "gk_env \<Rightarrow> bytes MessageChannel \<Rightarrow> Gk_message \<Rightarrow> MessageSendQueue \<Rightarrow> MessageSendQueue" where
  "gk_push env ch m q =
     (let (payload, topic) = ge_encode env m
      in MessageChannel_push_data (ge_enc_signed env) (cr_sign (ge_cr env)) ch payload topic q)"

definition VRF_INTERVAL :: u32 where
  "VRF_INTERVAL = 5"

definition MASTER_KEY_SHARING_SALT :: bytes where
  "MASTER_KEY_SHARING_SALT = bstr ''master_key_sharing''"

definition next_random_number :: "crypto_ops \<Rightarrow> bytes \<Rightarrow> u32 \<Rightarrow> bytes \<Rightarrow> bytes option" where
  "next_random_number cr mkey block_number last_random_number =
     do {
       derived_random_key \<leftarrow> expect_ok (derive_sr25519_pair cr mkey [bstr ''random_number'']);
       let buf = last_random_number @ to_be_bytes 4 block_number @ dump_secret_key derived_random_key in
       Some (cr_blake2_256 cr buf)
     }"

definition get_cluster_key :: "crypto_ops \<Rightarrow> bytes \<Rightarrow> h256 \<Rightarrow> bytes option" where
  "get_cluster_key cr mkey cluster =
     expect_ok (derive_sr25519_pair cr mkey [bstr ''cluster_key'', to_be_bytes 32 cluster])"

section \<open>Life cycle\<close>

text \<open>\<open>egress\<close> is the channel made by the caller; the economics get a clone of it.\<close>

definition Gatekeeper_new ::
  "gk_env \<Rightarrow> RotatedMasterKey list \<Rightarrow> bytes MessageChannel \<Rightarrow> MessageSendQueue \<Rightarrow>
   (Gatekeeper_state \<times> MessageSendQueue) option" where
  "Gatekeeper_new env master_key_history egress q =
     (case master_key_history of [] \<Rightarrow> None
      | key # _ \<Rightarrow>
          do {
            master_key \<leftarrow> expect_ok (restore_from_secret_key (ge_cr env) (mk_secret key) :: unit exn + bytes);
            Some (\<lparr>gk_master_key = master_key, gk_master_pubkey_on_chain = False, gk_registered_on_chain = False,
                   gk_master_key_history = master_key_history, gk_egress = egress, gk_events = [],
                   gk_last_random_number = replicate 32 0, gk_iv_seq = 0,
                   gk_economics = ComputingEconomics_new, gk_economics_events = [],
                   gk_economics_egress = egress\<rparr>,
                  MessageChannel_set_dummy egress True q)
          })"

definition Gatekeeper_register_on_chain ::
  "Gatekeeper_state \<Rightarrow> MessageSendQueue \<Rightarrow> Gatekeeper_state \<times> MessageSendQueue" where
  "Gatekeeper_register_on_chain g q =
     (g\<lparr>gk_registered_on_chain := True\<rparr>, MessageChannel_set_dummy (gk_egress g) False q)"

definition Gatekeeper_unregister_on_chain ::
  "Gatekeeper_state \<Rightarrow> MessageSendQueue \<Rightarrow> Gatekeeper_state \<times> MessageSendQueue" where
  "Gatekeeper_unregister_on_chain g q =
     (g\<lparr>gk_registered_on_chain := False\<rparr>, MessageChannel_set_dummy (gk_egress g) True q)"

definition Gatekeeper_master_pubkey :: "gk_env \<Rightarrow> Gatekeeper_state \<Rightarrow> h256" where
  "Gatekeeper_master_pubkey env g = cr_public (ge_cr env) (gk_master_key g)"

definition Gatekeeper_master_pubkey_uploaded :: "gk_env \<Rightarrow> h256 \<Rightarrow> Gatekeeper_state \<Rightarrow> Gatekeeper_state option" where
  "Gatekeeper_master_pubkey_uploaded env master_pubkey g =
     (if cr_public (ge_cr env) (gk_master_key g) = master_pubkey
      then Some (g\<lparr>gk_master_pubkey_on_chain := True\<rparr>) else None)"

section \<open>Master keys\<close>

definition Gatekeeper_set_master_key_history ::
  "RotatedMasterKey list \<Rightarrow> Gatekeeper_state \<Rightarrow> bool \<times> Gatekeeper_state" where
  "Gatekeeper_set_master_key_history master_key_history g =
     (if length master_key_history \<le> length (gk_master_key_history g) then (False, g)
      else (True, g\<lparr>gk_master_key_history := master_key_history\<rparr>))"

definition Gatekeeper_append_master_key ::
  "RotatedMasterKey \<Rightarrow> Gatekeeper_state \<Rightarrow> (bool \<times> Gatekeeper_state) option" where
  "Gatekeeper_append_master_key rotated_master_key g =
     (if rotated_master_key \<notin> set (gk_master_key_history g)
      then if mk_rotation_id rotated_master_key = of_nat (length (gk_master_key_history g))
           then Some (True, g\<lparr>gk_master_key_history := gk_master_key_history g @ [rotated_master_key]\<rparr>)
           else None
      else Some (False, g))"

definition Gatekeeper_switch_master_key ::
  "gk_env \<Rightarrow> u64 \<Rightarrow> u32 \<Rightarrow> Gatekeeper_state \<Rightarrow> MessageSendQueue \<Rightarrow>
   (bool \<times> Gatekeeper_state \<times> MessageSendQueue) option" where
  "Gatekeeper_switch_master_key env rotation_id block_height g q =
     (if unat rotation_id < length (gk_master_key_history g)
      then let raw_key = gk_master_key_history g ! unat rotation_id
      in if mk_rotation_id raw_key = rotation_id \<and> mk_block_height raw_key = block_height
         then do {
           new_master_key \<leftarrow> expect_ok (restore_from_secret_key (ge_cr env) (mk_secret raw_key) :: unit exn + bytes);
           let master_pubkey = cr_public (ge_cr env) new_master_key;
               q = gk_push env (gk_egress g)
                 (Gk_registry_event (RotatedMasterPubkey (mk_rotation_id raw_key) master_pubkey)) q in
           Some (True, g\<lparr>gk_master_key := new_master_key,
             gk_egress := MessageChannel_set_signer new_master_key (gk_egress g)\<rparr>, q)
         }
         else None
      else Some (False, g, q))"

definition Gatekeeper_generate_iv :: "gk_env \<Rightarrow> u32 \<Rightarrow> Gatekeeper_state \<Rightarrow> (bytes \<times> Gatekeeper_state) option" where
  "Gatekeeper_generate_iv env block_number g =
     do {
       derived_key \<leftarrow> expect_ok (derive_sr25519_pair (ge_cr env) (gk_master_key g) [bstr ''iv_generator'']);
       let buf = dump_secret_key derived_key @ to_be_bytes 4 block_number @ to_be_bytes 8 (gk_iv_seq g);
           g = g\<lparr>gk_iv_seq := gk_iv_seq g + 1\<rparr>;
           hash = cr_blake2_256 (ge_cr env) buf in
       (if length hash < 12 then None else Some (take 12 hash, g))
     }"

definition Gatekeeper_encrypt_key_to ::
  "gk_env \<Rightarrow> bytes list \<Rightarrow> h256 \<Rightarrow> bytes \<Rightarrow> u32 \<Rightarrow> Gatekeeper_state \<Rightarrow> (EncryptedKey \<times> Gatekeeper_state) option" where
  "Gatekeeper_encrypt_key_to env key_derive_info ecdh_pubkey secret_key block_number g =
     do {
       (iv, g) \<leftarrow> Gatekeeper_generate_iv env block_number g;
       (epk, encrypted_key) \<leftarrow>
         expect_ok (encrypt_secret_to (ge_cr env) (gk_master_key g) key_derive_info ecdh_pubkey secret_key iv);
       Some (\<lparr>ek_ecdh_pubkey = epk, ek_encrypted_key = encrypted_key, ek_iv = iv\<rparr>, g)
     }"

definition Gatekeeper_share_latest_master_key ::
  "gk_env \<Rightarrow> h256 \<Rightarrow> h256 \<Rightarrow> u32 \<Rightarrow> Gatekeeper_state \<Rightarrow> MessageSendQueue \<Rightarrow>
   (Gatekeeper_state \<times> MessageSendQueue) option" where
  "Gatekeeper_share_latest_master_key env pubkey ecdh_pubkey block_number g q =
     do {
       let master_key = dump_secret_key (gk_master_key g);
       (encrypted_key, g) \<leftarrow>
         Gatekeeper_encrypt_key_to env [MASTER_KEY_SHARING_SALT] ecdh_pubkey master_key block_number g;
       Some (g, gk_push env (gk_egress g) (Gk_key_distribution (KeyDistribution_master_key_distribution pubkey
         (ek_ecdh_pubkey encrypted_key) (ek_encrypted_key encrypted_key) (ek_iv encrypted_key))) q)
     }"

text \<open>The iterator of \<open>share_master_key_history\<close>.\<close>

fun gk_encrypt_history ::
  "gk_env \<Rightarrow> h256 \<Rightarrow> u32 \<Rightarrow> RotatedMasterKey list \<Rightarrow> Gatekeeper_state \<Rightarrow>
   ((u64 \<times> u32 \<times> EncryptedKey) list \<times> Gatekeeper_state) option" where
  "gk_encrypt_history env ecdh_pubkey block_number [] g = Some ([], g)"
| "gk_encrypt_history env ecdh_pubkey block_number (key # keys) g =
     do {
       (ek, g) \<leftarrow> Gatekeeper_encrypt_key_to env [MASTER_KEY_SHARING_SALT] ecdh_pubkey (mk_secret key) block_number g;
       (eks, g) \<leftarrow> gk_encrypt_history env ecdh_pubkey block_number keys g;
       Some ((mk_rotation_id key, mk_block_height key, ek) # eks, g)
     }"

definition Gatekeeper_share_master_key_history ::
  "gk_env \<Rightarrow> h256 \<Rightarrow> h256 \<Rightarrow> u32 \<Rightarrow> Gatekeeper_state \<Rightarrow> MessageSendQueue \<Rightarrow>
   (Gatekeeper_state \<times> MessageSendQueue) option" where
  "Gatekeeper_share_master_key_history env pubkey ecdh_pubkey block_number g q =
     do {
       (encrypted_master_key_history, g) \<leftarrow>
         gk_encrypt_history env ecdh_pubkey block_number (gk_master_key_history g) g;
       Some (g, gk_push env (gk_egress g) (Gk_key_distribution (MasterKeyHistory
         \<lparr>dh_dest = pubkey, dh_encrypted_master_key_history = encrypted_master_key_history\<rparr>)) q)
     }"

definition Gatekeeper_share_master_key ::
  "gk_env \<Rightarrow> h256 \<Rightarrow> h256 \<Rightarrow> u32 \<Rightarrow> Gatekeeper_state \<Rightarrow> MessageSendQueue \<Rightarrow>
   (Gatekeeper_state \<times> MessageSendQueue) option" where
  "Gatekeeper_share_master_key env pubkey ecdh_pubkey block_number g q =
     (if length (gk_master_key_history g) > 1
      then Gatekeeper_share_master_key_history env pubkey ecdh_pubkey block_number g q
      else Gatekeeper_share_latest_master_key env pubkey ecdh_pubkey block_number g q)"

text \<open>The iterators that encrypt one key to many parties and collect a map.\<close>

fun gk_encrypt_to_all ::
  "gk_env \<Rightarrow> bytes list \<Rightarrow> bytes \<Rightarrow> u32 \<Rightarrow> WorkerIdentity list \<Rightarrow> (h256, EncryptedKey) btree_map \<Rightarrow>
   Gatekeeper_state \<Rightarrow> ((h256, EncryptedKey) btree_map \<times> Gatekeeper_state) option" where
  "gk_encrypt_to_all env info secret_key block_number [] acc g = Some (acc, g)"
| "gk_encrypt_to_all env info secret_key block_number (w # ws) acc g =
     do {
       (ek, g) \<leftarrow> Gatekeeper_encrypt_key_to env info (id_ecdh_pubkey w) secret_key block_number g;
       gk_encrypt_to_all env info secret_key block_number ws (bt_insert (id_pubkey w) ek acc) g
     }"

text \<open>\<open>new_master_key\<close> is the freshly generated key.\<close>

definition Gatekeeper_process_master_key_rotation_request ::
  "gk_env \<Rightarrow> bytes \<Rightarrow> u32 \<Rightarrow> u64 \<Rightarrow> WorkerIdentity list \<Rightarrow> bytes \<Rightarrow> Gatekeeper_state \<Rightarrow> MessageSendQueue \<Rightarrow>
   (Gatekeeper_state \<times> MessageSendQueue) option" where
  "Gatekeeper_process_master_key_rotation_request env new_master_key block_number rotation_id gk_identities
       identity_key g q =
     do {
       let secret_key = dump_secret_key new_master_key;
       (secret_keys, g) \<leftarrow>
         gk_encrypt_to_all env [MASTER_KEY_SHARING_SALT] secret_key block_number gk_identities [] g;
       let event = \<lparr>br_rotation_id = rotation_id, br_secret_keys = secret_keys,
             br_sender = cr_public (ge_cr env) identity_key, br_sig = []\<rparr>;
           data_to_sign = BatchRotateMasterKeyEvent_data_be_signed (ge_enc_rotation env) event;
           data_to_sign = wrap_content_to_sign data_to_sign MasterKeyRotation;
           event = event\<lparr>br_sig := cr_sign (ge_cr env) identity_key data_to_sign\<rparr> in
       Some (g, gk_push env (gk_egress g) (Gk_key_distribution (MasterKeyRotation_msg event)) q)
     }"

section \<open>Messages and blocks\<close>

definition Gatekeeper_process_random_number_event ::
  "gk_env \<Rightarrow> MessageOrigin \<Rightarrow> RandomNumberEvent \<Rightarrow> Gatekeeper_state \<Rightarrow> Gatekeeper_state option" where
  "Gatekeeper_process_random_number_event env origin event g =
     (if \<not> MessageOrigin_is_gatekeeper origin then Some g
      else if gk_master_key_history g = [] then None
      else do {
        master_key \<leftarrow>
          (if mk_block_height (last (gk_master_key_history g)) > rn_block_number event
           then let len = length (gk_master_key_history g)
                in if len \<ge> 2
                   then expect_ok (restore_from_secret_key (ge_cr env)
                          (mk_secret (gk_master_key_history g ! (len - 2))) :: unit exn + bytes)
                   else None
           else Some (gk_master_key g));
        expect_random \<leftarrow> next_random_number (ge_cr env) master_key (rn_block_number event) (rn_last_random_number event);
        (if expect_random \<noteq> rn_random_number event then None else Some g)
      })"

fun Gatekeeper_process_gatekeeper_event ::
  "gk_env \<Rightarrow> MessageOrigin \<Rightarrow> GatekeeperEvent \<Rightarrow> Gatekeeper_state \<Rightarrow> Gatekeeper_state option" where
  "Gatekeeper_process_gatekeeper_event env origin (NewRandomNumber event) g =
     Gatekeeper_process_random_number_event env origin event g"
| "Gatekeeper_process_gatekeeper_event env origin (Gk_TokenomicParametersChanged _) g = Some g"
| "Gatekeeper_process_gatekeeper_event env origin _ g = None"

text \<open>An event from a bad origin is an error, which the caller logs.\<close>

definition Gatekeeper_process_cluster_event ::
  "gk_env \<Rightarrow> u32 \<Rightarrow> MessageOrigin \<Rightarrow> ClusterEvent \<Rightarrow> Gatekeeper_state \<Rightarrow> MessageSendQueue \<Rightarrow>
   (Gatekeeper_state \<times> MessageSendQueue) option" where
  "Gatekeeper_process_cluster_event env block_number origin event g q =
     (if \<not> MessageOrigin_is_pallet origin then Some (g, q)
      else do {
        cluster_key \<leftarrow> get_cluster_key (ge_cr env) (gk_master_key g) (dc_cluster event);
        let cluster_pubkey = cr_public (ge_cr env) cluster_key;
        let q = gk_push env (gk_egress g)
              (Gk_cluster_registry_event (PubkeyAvailable (dc_cluster event) cluster_pubkey)) q;
        let secret_key = dump_secret_key cluster_key;
        (secret_keys, g) \<leftarrow>
          gk_encrypt_to_all env [bstr ''cluster_key_sharing''] secret_key block_number (dc_workers event) [] g;
        Some (g, gk_push env (gk_egress g) (Gk_cluster_operation (ClusterOperation_batch_distribution
          secret_keys (dc_cluster event) (dc_owner event) (dc_deposit event) (dc_gas_price event)
          (dc_deposit_per_item event) (dc_deposit_per_byte event) (dc_treasury_account event))) q)
      })"

definition Gatekeeper_emit_random_number ::
  "gk_env \<Rightarrow> u32 \<Rightarrow> Gatekeeper_state \<Rightarrow> MessageSendQueue \<Rightarrow> (Gatekeeper_state \<times> MessageSendQueue) option" where
  "Gatekeeper_emit_random_number env block_number g q =
     (if block_number mod VRF_INTERVAL \<noteq> 0 then Some (g, q)
      else do {
        random_number \<leftarrow> next_random_number (ge_cr env) (gk_master_key g) block_number (gk_last_random_number g);
        Some (g\<lparr>gk_last_random_number := random_number\<rparr>,
              gk_push env (gk_egress g) (Gk_event (GatekeeperEvent_new_random_number block_number random_number
                (gk_last_random_number g))) q)
      })"

definition Gatekeeper_will_process_block ::
  "gk_env \<Rightarrow> BaseBlockInfo \<Rightarrow> Gatekeeper_state \<Rightarrow> Gatekeeper_state option" where
  "Gatekeeper_will_process_block env block g =
     do {
       c \<leftarrow> ComputingEconomics_will_process_block (ge_gx env) block (gk_economics g);
       Some (g\<lparr>gk_economics := c\<rparr>)
     }"

fun gk_handle_events ::
  "gk_env \<Rightarrow> BaseBlockInfo \<Rightarrow> gk_msg list \<Rightarrow> Gatekeeper_state \<Rightarrow> MessageSendQueue \<Rightarrow>
   (Gatekeeper_state \<times> MessageSendQueue) option" where
  "gk_handle_events env block [] g q = Some (g, q)"
| "gk_handle_events env block (Gk_event_in origin event # ms) g q =
     do {
       g \<leftarrow> Gatekeeper_process_gatekeeper_event env origin event g;
       gk_handle_events env block ms g q
     }"
| "gk_handle_events env block (Cluster_event_in origin event # ms) g q =
     do {
       (g, q) \<leftarrow> Gatekeeper_process_cluster_event env (bi_block_number block) origin event g q;
       gk_handle_events env block ms g q
     }"

definition Gatekeeper_process_messages ::
  "gk_env \<Rightarrow> BaseBlockInfo \<Rightarrow> Gatekeeper_state \<Rightarrow> MessageSendQueue \<Rightarrow> (Gatekeeper_state \<times> MessageSendQueue) option" where
  "Gatekeeper_process_messages env block g q =
     (if \<not> gk_master_pubkey_on_chain g then Some (g, q)
      else do {
        (g, q) \<leftarrow> gk_handle_events env block (gk_events g) (g\<lparr>gk_events := []\<rparr>) q;
        c \<leftarrow> ComputingEconomics_process_messages (ge_gx env) (ge_hashed env) block (gk_economics_events g) (gk_economics g);
        Some (g\<lparr>gk_economics := c, gk_economics_events := []\<rparr>, q)
      })"

text \<open>The report of the economics leaves through the channel the economics hold.\<close>

definition Gatekeeper_did_process_block ::
  "gk_env \<Rightarrow> BaseBlockInfo \<Rightarrow> Gatekeeper_state \<Rightarrow> MessageSendQueue \<Rightarrow> (Gatekeeper_state \<times> MessageSendQueue) option" where
  "Gatekeeper_did_process_block env block g q =
     do {
       (g, q) \<leftarrow>
         (if gk_master_pubkey_on_chain g
          then do {
            c \<leftarrow> ComputingEconomics_did_process_block (ge_gx env) block (gk_economics g);
            Some (g\<lparr>gk_economics := c\<lparr>ce_egress := []\<rparr>\<rparr>,
                  fold (\<lambda>report. gk_push env (gk_economics_egress g) (Gk_report report)) (ce_egress c) q)
          }
          else Some (g, q));
       Gatekeeper_emit_random_number env (bi_block_number block) g q
     }"

end
