(* ===== verification/Gk_System.thy ===== *)
theory Gk_System
  imports Gk_Keys
begin

text \<open>
  The gatekeeper part of \<open>System\<close> in \<open>crates/phactory/src/system/mod.rs\<close>: how a worker becomes a
  gatekeeper, receives and seals master keys, and follows their rotation.

  A handler that panics ends the process: the outcome \<open>Dies\<close> carries the sealed file, which a
  restarted process reads. The chain state that handlers consult is the argument \<open>cv\<close>. An error
  that a caller only logs leaves the state as it is.
\<close>

section \<open>State\<close>

record chain_view =
  cv_block :: BaseBlockInfo
  cv_gatekeepers :: "h256 list"
  cv_tokenomic_parameters :: "TokenomicParams option"

record pr_system =
  ps_identity_key :: bytes
  ps_gatekeeper :: "Gatekeeper_state option"
  ps_block_number :: u32
  ps_genesis_block :: u32
  ps_sealed :: "bytes option"
  ps_worker_egress :: "Worker_message list"
  ps_send_mq :: MessageSendQueue

datatype sys_outcome = Goes_on pr_system | Dies "bytes option"

datatype GatekeeperRole = Role_None | Role_Dummy | Role_Active

text \<open>A panic before anything is sealed.\<close>

definition or_dies :: "pr_system \<Rightarrow> 'a option \<Rightarrow> ('a \<Rightarrow> sys_outcome) \<Rightarrow> sys_outcome" where
  "or_dies s m k = (case m of None \<Rightarrow> Dies (ps_sealed s) | Some x \<Rightarrow> k x)"

definition chain_state_is_gatekeeper :: "h256 \<Rightarrow> chain_view \<Rightarrow> bool" where
  "chain_state_is_gatekeeper pubkey cv \<longleftrightarrow> pubkey \<in> set (cv_gatekeepers cv)"

definition System_decrypt_key_from ::
  "gk_env \<Rightarrow> h256 \<Rightarrow> bytes \<Rightarrow> bytes \<Rightarrow> pr_system \<Rightarrow> bytes option" where
  "System_decrypt_key_from env ecdh_pubkey encrypted_key iv s =
     do {
       let my_ecdh_key = derive_ecdh_key (ps_identity_key s);
       secret \<leftarrow> expect_ok (decrypt_secret_from (ge_cr env) my_ecdh_key ecdh_pubkey encrypted_key iv);
       expect_ok (restore_from_secret_key (ge_cr env) secret :: unit exn + bytes)
     }"

text \<open>Sealing replaces the file; a failure panics.\<close>

definition System_seal ::
  "gk_env \<Rightarrow> seal_ops \<Rightarrow> RotatedMasterKey list \<Rightarrow> pr_system \<Rightarrow> (pr_system \<Rightarrow> sys_outcome) \<Rightarrow> sys_outcome" where
  "System_seal env se keys s k =
     or_dies s (expect_ok (master_key_seal (ge_cr env) se keys (ps_identity_key s)))
       (\<lambda>f. k (s\<lparr>ps_sealed := Some f\<rparr>))"

section \<open>Becoming a gatekeeper\<close>

definition System_set_master_key_history ::
  "gk_env \<Rightarrow> seal_ops \<Rightarrow> RotatedMasterKey list \<Rightarrow> pr_system \<Rightarrow> sys_outcome" where
  "System_set_master_key_history env se master_key_history s =
     (case ps_gatekeeper s of
        None \<Rightarrow> System_seal env se master_key_history s (\<lambda>s. Dies (ps_sealed s))
      | Some g \<Rightarrow>
          (case Gatekeeper_set_master_key_history master_key_history g of
             (True, g) \<Rightarrow> System_seal env se master_key_history (s\<lparr>ps_gatekeeper := Some g\<rparr>) Goes_on
           | (False, g) \<Rightarrow> Goes_on s))"

definition System_init_gatekeeper ::
  "gk_env \<Rightarrow> chain_view \<Rightarrow> RotatedMasterKey list \<Rightarrow> pr_system \<Rightarrow> (pr_system \<Rightarrow> sys_outcome) \<Rightarrow> sys_outcome" where
  "System_init_gatekeeper env cv master_key_history s k =
     (if ps_gatekeeper s \<noteq> None then Dies (ps_sealed s)
      else if master_key_history = [] then Dies (ps_sealed s)
      else if ps_genesis_block s \<noteq> 0 then Dies (ps_sealed s)
      else or_dies s (expect_ok (restore_from_secret_key (ge_cr env) (mk_secret (hd master_key_history)) :: unit exn + bytes))
        (\<lambda>mkey. or_dies s (Gatekeeper_new env master_key_history \<lparr>mc_sender = Gatekeeper, mc_signer = mkey\<rparr> (ps_send_mq s))
          (\<lambda>(g, q).
             let g = (case cv_tokenomic_parameters cv of None \<Rightarrow> g
                      | Some params \<Rightarrow> g\<lparr>gk_economics :=
                          ComputingEconomics_update_tokenomic_parameters (ge_gx env) params (gk_economics g)\<rparr>)
             in k (s\<lparr>ps_gatekeeper := Some g, ps_send_mq := q\<rparr>))))"

text \<open>\<open>new_key\<close> is a freshly generated key.\<close>

definition System_process_first_gatekeeper_event ::
  "gk_env \<Rightarrow> seal_ops \<Rightarrow> chain_view \<Rightarrow> bytes \<Rightarrow> h256 \<Rightarrow> pr_system \<Rightarrow> sys_outcome" where
  "System_process_first_gatekeeper_event env se cv new_key pubkey s =
     (if \<not> chain_state_is_gatekeeper pubkey cv then Dies (ps_sealed s)
      else or_dies s (expect_ok (master_key_try_unseal (ge_cr env) se (ps_sealed s) (ps_identity_key s)))
      (\<lambda>history.
        let mine = (cr_public (ge_cr env) (ps_identity_key s) = pubkey);
            first = [\<lparr>mk_rotation_id = 0, mk_block_height = 0, mk_secret = dump_secret_key new_key\<rparr>];
            init = (\<lambda>history s k.
              if history \<noteq> [] then System_init_gatekeeper env cv history s k else k s);
            upload = (\<lambda>history s k.
              or_dies s (expect_ok (restore_from_secret_key (ge_cr env) (mk_secret (hd history)) :: unit exn + bytes))
                (\<lambda>mkey. k (s\<lparr>ps_worker_egress := ps_worker_egress s @
                   [Registry_event (MasterPubkey (cr_public (ge_cr env) mkey))]\<rparr>)));
            register = (\<lambda>s. case ps_gatekeeper s of None \<Rightarrow> Dies (ps_sealed s)
              | Some g \<Rightarrow> (case Gatekeeper_register_on_chain g (ps_send_mq s) of
                  (g, q) \<Rightarrow> Goes_on (s\<lparr>ps_gatekeeper := Some g, ps_send_mq := q\<rparr>)))
        in if mine
           then if history = []
                then System_seal env se first s (\<lambda>s. upload first s (\<lambda>s. init first s register))
                else upload history s (\<lambda>s. init history s register)
           else init history s Goes_on))"

section \<open>Launch and change events\<close>

definition System_process_master_key_rotation_request ::
  "gk_env \<Rightarrow> chain_view \<Rightarrow> bytes \<Rightarrow> u64 \<Rightarrow> WorkerIdentity list \<Rightarrow> pr_system \<Rightarrow> sys_outcome" where
  "System_process_master_key_rotation_request env cv new_key rotation_id gk_identities s =
     (case ps_gatekeeper s of None \<Rightarrow> Goes_on s
      | Some g \<Rightarrow>
          or_dies s (Gatekeeper_process_master_key_rotation_request env new_key (bi_block_number (cv_block cv))
            rotation_id gk_identities (ps_identity_key s) g (ps_send_mq s))
            (\<lambda>(g, q). Goes_on (s\<lparr>ps_gatekeeper := Some g, ps_send_mq := q\<rparr>)))"

definition System_process_gatekeeper_launch_event ::
  "gk_env \<Rightarrow> seal_ops \<Rightarrow> chain_view \<Rightarrow> bytes \<Rightarrow> MessageOrigin \<Rightarrow> GatekeeperLaunch \<Rightarrow> pr_system \<Rightarrow> sys_outcome" where
  "System_process_gatekeeper_launch_event env se cv new_key origin event s =
     (if \<not> MessageOrigin_is_pallet origin then Goes_on s
      else case event of
        FirstGatekeeper pubkey _ \<Rightarrow> System_process_first_gatekeeper_event env se cv new_key pubkey s
      | MasterPubkeyOnChain master_pubkey \<Rightarrow>
          (case ps_gatekeeper s of None \<Rightarrow> Goes_on s
           | Some g \<Rightarrow> or_dies s (Gatekeeper_master_pubkey_uploaded env master_pubkey g)
               (\<lambda>g. Goes_on (s\<lparr>ps_gatekeeper := Some g\<rparr>)))
      | RotateMasterKey rotation_id gk_identities \<Rightarrow>
          System_process_master_key_rotation_request env cv new_key rotation_id gk_identities s
      | MasterPubkeyRotated _ \<Rightarrow> Goes_on s)"

definition System_process_new_gatekeeper_event ::
  "gk_env \<Rightarrow> chain_view \<Rightarrow> MessageOrigin \<Rightarrow> h256 \<Rightarrow> h256 \<Rightarrow> pr_system \<Rightarrow> sys_outcome" where
  "System_process_new_gatekeeper_event env cv origin pubkey ecdh_pubkey s =
     (if \<not> MessageOrigin_is_pallet origin then Goes_on s
      else if \<not> chain_state_is_gatekeeper pubkey cv then Dies (ps_sealed s)
      else case ps_gatekeeper s of None \<Rightarrow> Goes_on s
      | Some g \<Rightarrow>
          or_dies s (Gatekeeper_share_master_key env pubkey ecdh_pubkey (bi_block_number (cv_block cv)) g (ps_send_mq s))
            (\<lambda>(g, q).
              let (g, q) = (if cr_public (ge_cr env) (ps_identity_key s) = pubkey
                            then Gatekeeper_register_on_chain g q else (g, q))
              in Goes_on (s\<lparr>ps_gatekeeper := Some g, ps_send_mq := q\<rparr>)))"

definition System_process_remove_gatekeeper_event ::
  "gk_env \<Rightarrow> MessageOrigin \<Rightarrow> h256 \<Rightarrow> pr_system \<Rightarrow> sys_outcome" where
  "System_process_remove_gatekeeper_event env origin pubkey s =
     (if \<not> MessageOrigin_is_pallet origin then Goes_on s
      else case ps_gatekeeper s of
        Some g \<Rightarrow> (if cr_public (ge_cr env) (ps_identity_key s) = pubkey
                   then case Gatekeeper_unregister_on_chain g (ps_send_mq s) of
                     (g, q) \<Rightarrow> Goes_on (s\<lparr>ps_gatekeeper := Some g, ps_send_mq := q\<rparr>)
                   else Goes_on s)
      | None \<Rightarrow> Goes_on s)"

fun System_process_gatekeeper_change_event ::
  "gk_env \<Rightarrow> chain_view \<Rightarrow> MessageOrigin \<Rightarrow> GatekeeperChange \<Rightarrow> pr_system \<Rightarrow> sys_outcome" where
  "System_process_gatekeeper_change_event env cv origin (Gatekeeper_Registered pubkey ecdh_pubkey) s =
     System_process_new_gatekeeper_event env cv origin pubkey ecdh_pubkey s"
| "System_process_gatekeeper_change_event env cv origin (Gatekeeper_Unregistered pubkey) s =
     System_process_remove_gatekeeper_event env origin pubkey s"

section \<open>Key distribution\<close>

definition System_process_master_key_distribution ::
  "gk_env \<Rightarrow> seal_ops \<Rightarrow> MessageOrigin \<Rightarrow> DispatchMasterKeyEvent \<Rightarrow> pr_system \<Rightarrow> sys_outcome" where
  "System_process_master_key_distribution env se origin event s =
     (if \<not> MessageOrigin_is_gatekeeper origin then Goes_on s
      else if cr_public (ge_cr env) (ps_identity_key s) = dm_dest event
      then or_dies s (System_decrypt_key_from env (dm_ecdh_pubkey event) (dm_encrypted_master_key event) (dm_iv event) s)
        (\<lambda>master_pair. System_set_master_key_history env se
          [\<lparr>mk_rotation_id = 0, mk_block_height = 0, mk_secret = dump_secret_key master_pair\<rparr>] s)
      else Goes_on s)"

fun sys_decrypt_history ::
  "gk_env \<Rightarrow> pr_system \<Rightarrow> (u64 \<times> u32 \<times> EncryptedKey) list \<Rightarrow> RotatedMasterKey list option" where
  "sys_decrypt_history env s [] = Some []"
| "sys_decrypt_history env s ((rotation_id, block_height, key) # keys) =
     do {
       pair \<leftarrow> System_decrypt_key_from env (ek_ecdh_pubkey key) (ek_encrypted_key key) (ek_iv key) s;
       rest \<leftarrow> sys_decrypt_history env s keys;
       Some (\<lparr>mk_rotation_id = rotation_id, mk_block_height = block_height, mk_secret = dump_secret_key pair\<rparr> # rest)
     }"

definition System_process_master_key_history ::
  "gk_env \<Rightarrow> seal_ops \<Rightarrow> MessageOrigin \<Rightarrow> DispatchMasterKeyHistoryEvent \<Rightarrow> pr_system \<Rightarrow> sys_outcome" where
  "System_process_master_key_history env se origin event s =
     (if \<not> MessageOrigin_is_gatekeeper origin then Goes_on s
      else if cr_public (ge_cr env) (ps_identity_key s) = dh_dest event
      then or_dies s (sys_decrypt_history env s (dh_encrypted_master_key_history event))
        (\<lambda>history. System_set_master_key_history env se history s)
      else Goes_on s)"

text \<open>A signature of a wrong length does not parse; the other checks precede any change.\<close>

definition System_process_batch_rotate_master_key ::
  "gk_env \<Rightarrow> seal_ops \<Rightarrow> chain_view \<Rightarrow> MessageOrigin \<Rightarrow> BatchRotateMasterKeyEvent \<Rightarrow> pr_system \<Rightarrow> sys_outcome" where
  "System_process_batch_rotate_master_key env se cv origin event s =
     (if \<not> MessageOrigin_is_gatekeeper origin then Goes_on s
      else if length (br_sig event) \<noteq> 64 then Goes_on s
      else if \<not> cr_verify (ge_cr env) (br_sig event)
             (wrap_content_to_sign (BatchRotateMasterKeyEvent_data_be_signed (ge_enc_rotation env) event)
               MasterKeyRotation) (br_sender event) then Goes_on s
      else if \<not> chain_state_is_gatekeeper (br_sender event) cv then Goes_on s
      else let my_pubkey = cr_public (ge_cr env) (ps_identity_key s);
               switch = (\<lambda>g s. or_dies s
                 (Gatekeeper_switch_master_key env (br_rotation_id event) (ps_block_number s) g (ps_send_mq s))
                 (\<lambda>(ok, g, q). Goes_on (s\<lparr>ps_gatekeeper := (if ok then Some g else None), ps_send_mq := q\<rparr>)))
      in case ps_gatekeeper s of
        None \<Rightarrow> if bt_get (br_secret_keys event) my_pubkey \<noteq> None then Dies (ps_sealed s) else Goes_on s
      | Some g \<Rightarrow>
          (case bt_get (br_secret_keys event) my_pubkey of
             None \<Rightarrow> switch g s
           | Some ek \<Rightarrow>
               or_dies s (System_decrypt_key_from env (ek_ecdh_pubkey ek) (ek_encrypted_key ek) (ek_iv ek) s)
                 (\<lambda>new_master_key.
                   or_dies s (Gatekeeper_append_master_key \<lparr>mk_rotation_id = br_rotation_id event,
                       mk_block_height = ps_block_number s, mk_secret = dump_secret_key new_master_key\<rparr> g)
                     (\<lambda>(appended, g).
                       if appended
                       then System_seal env se (gk_master_key_history g) (s\<lparr>ps_gatekeeper := Some g\<rparr>) (switch g)
                       else switch g s))))"

fun System_process_key_distribution_event ::
  "gk_env \<Rightarrow> seal_ops \<Rightarrow> chain_view \<Rightarrow> MessageOrigin \<Rightarrow> KeyDistribution \<Rightarrow> pr_system \<Rightarrow> sys_outcome" where
  "System_process_key_distribution_event env se cv origin (MasterKeyDistribution event) s =
     System_process_master_key_distribution env se origin event s"
| "System_process_key_distribution_event env se cv origin (MasterKeyRotation_msg event) s =
     System_process_batch_rotate_master_key env se cv origin event s"
| "System_process_key_distribution_event env se cv origin (MasterKeyHistory event) s =
     System_process_master_key_history env se origin event s"

definition System_gatekeeper_status :: "gk_env \<Rightarrow> pr_system \<Rightarrow> GatekeeperRole \<times> h256 option" where
  "System_gatekeeper_status env s =
     ((case ps_gatekeeper s of None \<Rightarrow> Role_None
       | Some g \<Rightarrow> if gk_registered_on_chain g then Role_Active else Role_Dummy),
      map_option (Gatekeeper_master_pubkey env) (ps_gatekeeper s))"

end
