(* ===== verification/Gk_Replay.thy ===== *)
theory Gk_Replay
  imports Gk_Economics
begin

text \<open>
  A gatekeeper follows the workers exactly. Every worker and the gatekeeper process the same system
  events, each at its own pace; a worker sends its heartbeats over the message queue, which delivers
  them in order and once (\<open>Mq_Relay\<close>). The heartbeats the gatekeeper waits for are at any time exactly
  those the worker has sent and that have not arrived yet, followed by those it will still send for the
  events it has not processed. Hence the panic \<open>GK or Worker state poisoned\<close> is not reached.
\<close>

section \<open>Iteration over the workers\<close>

text \<open>A closure that always returns relates every entry to its new value.\<close>

lemma ordmap_each_rel:
  assumes "bt_wf m" and "distinct ks" and "set ks \<subseteq> fst ` set m"
    and "\<And>k v e. \<exists>v' e'. f k v e = Some (v', e') \<and> R k v v'"
  shows "\<exists>m' e'. ordmap_each f ks m e = Some (m', e') \<and> bt_wf m' \<and>
    (\<forall>k. if k \<in> set ks then rel_option (R k) (bt_get m k) (bt_get m' k) else bt_get m' k = bt_get m k)"
  using assms(1-3)
proof (induction ks arbitrary: m e)
  case (Cons k ks)
  then obtain v where v: "bt_get m k = Some v"
    by (metis bt_get_eq_None list.set_intros(1) not_None_eq subsetD)
  obtain v' e1 where e1: "f k v e = Some (v', e1)" "R k v v'" using assms(4) by blast
  have "set ks \<subseteq> fst ` set (bt_insert k v' m)" using Cons.prems(3) by auto
  then obtain m' e' where m': "ordmap_each f ks (bt_insert k v' m) e1 = Some (m', e')" "bt_wf m'"
    "\<forall>x. if x \<in> set ks then rel_option (R x) (bt_get (bt_insert k v' m) x) (bt_get m' x)
        else bt_get m' x = bt_get (bt_insert k v' m) x"
    using Cons.IH [OF bt_wf_insert [OF Cons.prems(1)], of k v' e1] Cons.prems(2) by auto
  have "if x \<in> set (k # ks) then rel_option (R x) (bt_get m x) (bt_get m' x) else bt_get m' x = bt_get m x" for x
    using m'(3) [rule_format, of x] Cons.prems(2) v e1(2) by (auto simp: bt_get_insert_at split: if_splits)
  with v e1(1) m'(1,2) show ?case by auto
qed auto

lemma ordmap_for_each_mut_rel:
  assumes "bt_wf m" and "\<And>k v e. \<exists>v' e'. f k v e = Some (v', e') \<and> R k v v'"
  shows "\<exists>m' e'. ordmap_for_each_mut f m e = Some (m', e') \<and> bt_wf m' \<and>
    (\<forall>k. rel_option (R k) (bt_get m k) (bt_get m' k))"
proof -
  have "distinct (map fst m)"
    using assms(1) by (simp add: bt_wf_def strict_sorted_iff)
  from ordmap_each_rel [where f = f and R = R and e = e, OF assms(1) this _ assms(2)]
  obtain m' e' where m': "ordmap_for_each_mut f m e = Some (m', e')" "bt_wf m'"
    "\<forall>k. if k \<in> set (map fst m) then rel_option (R k) (bt_get m k) (bt_get m' k) else bt_get m' k = bt_get m k"
    by (auto simp: ordmap_for_each_mut_def)
  have "rel_option (R k) (bt_get m k) (bt_get m' k)" for k
    using m'(3) [rule_format, of k] bt_get_eq_None [of m k] by (auto split: if_splits)
  with m'(1,2) show ?thesis by blast
qed

section \<open>Workers and gatekeeper\<close>

text \<open>
  For every worker: its own machine, the part of the chain it has not processed (\<^term>\<open>None\<close> is the
  end of a block), and the heartbeats on their way to the gatekeeper.
\<close>

record replay_state =
  rs_worker :: "h256 \<Rightarrow> WorkerState_sm"
  rs_inbox :: "h256 \<Rightarrow> (BaseBlockInfo \<times> SystemEvent option) list"
  rs_pending :: "h256 \<Rightarrow> WorkingReportEvent list"
  rs_gk :: ComputingEconomics

datatype replay_label =
    Block_begins BaseBlockInfo
  | Chain_event BaseBlockInfo SystemEvent
  | Params_change TokenomicParams
  | Block_ends BaseBlockInfo
  | Worker_step h256 u32 u32 Benchmark_Statics
  | Heartbeat_arrives BaseBlockInfo h256

definition replay_init :: "(h256 \<Rightarrow> h256) \<Rightarrow> replay_state" where
  "replay_init hashed = \<lparr>rs_worker = WorkerState_new hashed, rs_inbox = \<lambda>_. [], rs_pending = \<lambda>_. [],
     rs_gk = ComputingEconomics_new\<rparr>"

text \<open>What a worker does with the next entry of its inbox: the machine and the heartbeats it pushes.\<close>

fun worker_consume ::
  "BaseBlockInfo \<times> SystemEvent option \<Rightarrow> WorkerSMDelegate \<Rightarrow> WorkerState_sm \<Rightarrow> WorkerState_sm \<times> WorkerSMDelegate" where
  "worker_consume (block, Some event) d w = WorkerState_process_event WorkerSMDelegate_callback block event w d"
| "worker_consume (block, None) d w = WorkerState_on_block_processed WorkerSMDelegate_callback block w d"

fun replay_step :: "u64f64_ops \<Rightarrow> (h256 \<Rightarrow> h256) \<Rightarrow> replay_label \<Rightarrow> replay_state \<Rightarrow> replay_state option" where
  "replay_step gx hashed (Block_begins block) s =
     map_option (\<lambda>c. s\<lparr>rs_gk := c\<rparr>) (ComputingEconomics_will_process_block gx block (rs_gk s))"
| "replay_step gx hashed (Chain_event block event) s =
     map_option (\<lambda>c. s\<lparr>rs_gk := c, rs_inbox := \<lambda>k. rs_inbox s k @ [(block, Some event)]\<rparr>)
       (economics_handle gx hashed block (System_in (Pallet []) event) (rs_gk s))"
| "replay_step gx hashed (Params_change params) s =
     map_option (\<lambda>c. s\<lparr>rs_gk := c\<rparr>)
       (ComputingEconomics_process_gatekeeper_event gx (Pallet []) (Gk_TokenomicParametersChanged params) (rs_gk s))"
| "replay_step gx hashed (Block_ends block) s =
     map_option (\<lambda>c. s\<lparr>rs_gk := c, rs_inbox := \<lambda>k. rs_inbox s k @ [(block, None)]\<rparr>)
       (ComputingEconomics_did_process_block gx block (rs_gk s))"
| "replay_step gx hashed (Worker_step k n_clusters n_contracts benchmark) s =
     (case rs_inbox s k of [] \<Rightarrow> Some s
      | x # rest \<Rightarrow>
          let (w, d) = worker_consume x \<lparr>smd_egress = [], smd_n_clusters = n_clusters,
                smd_n_contracts = n_contracts, smd_benchmark = benchmark, smd_panicked = False\<rparr> (rs_worker s k)
          in Some (s\<lparr>rs_worker := (rs_worker s)(k := w), rs_inbox := (rs_inbox s)(k := rest),
               rs_pending := (rs_pending s)(k := rs_pending s k @ worker_heartbeats (smd_egress d))\<rparr>))"
| "replay_step gx hashed (Heartbeat_arrives block k) s =
     (case rs_pending s k of [] \<Rightarrow> Some s
      | r # rest \<Rightarrow>
          map_option (\<lambda>c. s\<lparr>rs_gk := c, rs_pending := (rs_pending s)(k := rest)\<rparr>)
            (economics_handle gx hashed block (Computing_in (Worker k) r) (rs_gk s)))"

fun replay_run :: "u64f64_ops \<Rightarrow> (h256 \<Rightarrow> h256) \<Rightarrow> replay_label list \<Rightarrow> replay_state \<Rightarrow> replay_state option" where
  "replay_run gx hashed [] s = Some s"
| "replay_run gx hashed (l # ls) s =
     (case replay_step gx hashed l s of None \<Rightarrow> None | Some s \<Rightarrow> replay_run gx hashed ls s)"

text \<open>The chain starts no session of a worker that has not been registered.\<close>

fun label_ok :: "h256 list \<Rightarrow> replay_label \<Rightarrow> bool" where
  "label_ok R (Chain_event _ (WorkerEvent_ev k (Started _ _ _))) = (k \<in> set R)"
| "label_ok R _ = True"

fun label_registers :: "replay_label \<Rightarrow> h256 list" where
  "label_registers (Chain_event _ (WorkerEvent_ev k (Registered _))) = [k]"
| "label_registers _ = []"

fun registered_first :: "h256 list \<Rightarrow> replay_label list \<Rightarrow> bool" where
  "registered_first R [] = True"
| "registered_first R (l # ls) = (label_ok R l \<and> registered_first (label_registers l @ R) ls)"

section \<open>Following a worker\<close>

text \<open>The state a worker will have after its inbox, as far as \<^const>\<open>ws_view\<close> shows it, and the
  heartbeats it will send.\<close>

fun ws_after :: "(BaseBlockInfo \<times> SystemEvent option) list \<Rightarrow> WorkerState_sm \<Rightarrow> WorkerState_sm" where
  "ws_after [] w = ws_view w"
| "ws_after ((block, Some event) # xs) w = ws_after xs (ws_next block event (ws_view w))"
| "ws_after ((block, None) # xs) w = ws_after xs w"

fun hb_after :: "(BaseBlockInfo \<times> SystemEvent option) list \<Rightarrow> WorkerState_sm \<Rightarrow> u32 list" where
  "hb_after [] w = []"
| "hb_after ((block, Some event) # xs) w =
     ws_heartbeats block event w @ hb_after xs (ws_next block event (ws_view w))"
| "hb_after ((block, None) # xs) w = hb_after xs w"

lemma ws_view_idem [simp]: "ws_view (ws_view w) = ws_view w"
  by (simp add: ws_view_def option.map_comp o_def)

lemma ws_after_view [simp]: "ws_after xs (ws_view w) = ws_after xs w"
  by (induction xs w rule: ws_after.induct) auto

lemma ws_view_after [simp]: "ws_view (ws_after xs w) = ws_after xs w"
  by (induction xs w rule: ws_after.induct) auto

lemma hb_after_view [simp]: "hb_after xs (ws_view w) = hb_after xs w"
  by (induction xs w rule: hb_after.induct) auto

lemma ws_after_cong: "ws_view w = ws_view w' \<Longrightarrow> ws_after xs w = ws_after xs w'"
  by (metis ws_after_view)

lemma hb_after_cong: "ws_view w = ws_view w' \<Longrightarrow> hb_after xs w = hb_after xs w'"
  by (metis hb_after_view)

lemma ws_after_snoc [simp]:
  "ws_after (xs @ [(block, Some event)]) w = ws_view (ws_next block event (ws_after xs w))"
  "ws_after (xs @ [(block, None)]) w = ws_after xs w"
  by (induction xs w rule: ws_after.induct) auto

lemma hb_after_snoc [simp]:
  "hb_after (xs @ [(block, Some event)]) w = hb_after xs w @ ws_heartbeats block event (ws_after xs w)"
  "hb_after (xs @ [(block, None)]) w = hb_after xs w"
  by (induction xs w rule: hb_after.induct) auto

text \<open>A worker that consumes an entry of its inbox sends what was foreseen.\<close>

lemma worker_consume_follows:
  assumes "worker_consume x d w = (w', d')" and "smd_egress d = []"
  shows "ws_after xs w' = ws_after (x # xs) w"
    "map heartbeat_block (worker_heartbeats (smd_egress d')) @ hb_after xs w' = hb_after (x # xs) w"
proof -
  obtain block oe where x: "x = (block, oe)" by (cases x)
  have "ws_after xs w' = ws_after (x # xs) w \<and>
    map heartbeat_block (worker_heartbeats (smd_egress d')) @ hb_after xs w' = hb_after (x # xs) w"
  proof (cases oe)
    case None
    with assms x have "ws_view w' = ws_view w" "map heartbeat_block (worker_heartbeats (smd_egress d')) = []"
      using delegate.on_block_processed_view [of block w d] delegate.on_block_processed_seen [of block w d]
      by auto
    then show ?thesis by (simp add: x None) (metis ws_after_cong hb_after_cong)
  next
    case (Some e)
    with assms x have "ws_view w' = ws_view (ws_next block e (ws_view w))"
      "map heartbeat_block (worker_heartbeats (smd_egress d')) = ws_heartbeats block e w"
      using delegate.process_event_view [of block e w d] delegate.process_event_seen [of block e w d]
      by auto
    then show ?thesis by (simp add: x Some) (metis ws_after_cong hb_after_cong)
  qed
  then show "ws_after xs w' = ws_after (x # xs) w"
    "map heartbeat_block (worker_heartbeats (smd_egress d')) @ hb_after xs w' = hb_after (x # xs) w"
    by simp_all
qed

text \<open>An unregistered worker ignores every event but its registration and the start of a session.\<close>

fun concerns_new :: "h256 \<Rightarrow> SystemEvent \<Rightarrow> bool" where
  "concerns_new k (WorkerEvent_ev k' (Registered _)) = (k' = k)"
| "concerns_new k (WorkerEvent_ev k' (Started _ _ _)) = (k' = k)"
| "concerns_new k _ = False"

lemma ws_next_new:
  "\<not> concerns_new k e \<Longrightarrow> ws_view (ws_next block e (ws_view (WorkerState_new hashed k))) =
     ws_view (WorkerState_new hashed k)"
proof (cases e)
  case (WorkerEvent_ev k' ev)
  assume "\<not> concerns_new k e"
  with WorkerEvent_ev show ?thesis
    by (cases ev) (auto simp: ws_next_def ws_view_def WorkerState_new_def Let_def)
qed (simp add: ws_next_def ws_view_def WorkerState_new_def WorkerState_handle_heartbeat_challenge_def)

lemma ws_heartbeats_new [simp]: "ws_heartbeats block e (WorkerState_new hashed k) = []"
  by (cases e) (auto simp: ws_hit_def WorkerState_new_def)

section \<open>What the gatekeeper keeps of a worker\<close>

text \<open>The part of an entry the replay is about: the machine and the heartbeats waited for.\<close>

definition wg_track :: "WorkerInfo_gk \<Rightarrow> WorkerState_sm \<times> u32 list" where
  "wg_track info = (ws_view (wg_state info), wg_waiting_heartbeats info)"

lemma waiting_tracker_new [simp]: "smt_waiting_heartbeats (WorkerSMTracker_new hbs) = hbs"
  by (simp add: WorkerSMTracker_new_def)

definition gk_track :: "ComputingEconomics \<Rightarrow> h256 \<Rightarrow> (WorkerState_sm \<times> u32 list) option" where
  "gk_track c k = map_option wg_track (bt_get (ce_workers c) k)"

definition track_event ::
  "BaseBlockInfo \<Rightarrow> SystemEvent \<Rightarrow> WorkerState_sm \<times> u32 list \<Rightarrow> WorkerState_sm \<times> u32 list" where
  "track_event block e = (\<lambda>(w, hbs). (ws_view (ws_next block e (ws_view w)), hbs @ ws_heartbeats block e w))"

lemma gk_replay_event_track:
  "\<exists>v' l'. gk_replay_event block e k v l = Some (v', l') \<and> wg_track v' = track_event block e (wg_track v)"
proof -
  obtain st tr where p: "WorkerState_process_event WorkerSMTracker_callback block e (wg_state v)
      (WorkerSMTracker_new (wg_waiting_heartbeats v)) = (st, tr)"
    by fastforce
  have "ws_view st = ws_view (ws_next block e (ws_view (wg_state v)))"
    "smt_waiting_heartbeats tr = wg_waiting_heartbeats v @ ws_heartbeats block e (wg_state v)"
    using tracker.process_event_view [of block e "wg_state v" "WorkerSMTracker_new (wg_waiting_heartbeats v)"]
      tracker.process_event_seen [of block e "wg_state v" "WorkerSMTracker_new (wg_waiting_heartbeats v)"]
    by (simp_all add: p)
  then show ?thesis
    by (simp add: gk_replay_event_def p wg_track_def track_event_def Let_def)
qed

lemma gk_block_post_process_track:
  assumes "u64f64 gx"
  shows "\<exists>v' e'. gk_block_post_process gx params block k v e = Some (v', e') \<and> wg_track v' = wg_track v"
proof -
  obtain st tr where p: "WorkerState_on_block_processed WorkerSMTracker_callback block (wg_state v)
      (WorkerSMTracker_new (wg_waiting_heartbeats v)) = (st, tr)"
    by fastforce
  have t: "ws_view st = ws_view (wg_state v)" "smt_waiting_heartbeats tr = wg_waiting_heartbeats v"
    using tracker.on_block_processed_view [of block "wg_state v" "WorkerSMTracker_new (wg_waiting_heartbeats v)"]
      tracker.on_block_processed_seen [of block "wg_state v" "WorkerSMTracker_new (wg_waiting_heartbeats v)"]
    by (simp_all add: p)
  show ?thesis
    using update_v_idle_returns [OF assms, of params "wg_tokenomic v"] t
    by (auto simp: gk_block_post_process_def p wg_track_def Let_def split: prod.splits list.splits)
qed

lemma gk_apply_worker_event_track:
  assumes "bt_wf (ce_workers c)" and "bt_get (ce_workers c) k = Some v"
  shows "bt_wf (ce_workers (gk_apply_worker_event gx block k e v c))"
    "gk_track (gk_apply_worker_event gx block k e v c) = gk_track c"
  using assms
  by (cases e; auto simp: gk_track_def fun_eq_iff Let_def bt_wf_insert bt_get_insert_at wg_track_def)+

text \<open>A registration event first creates the entry of a worker that has none.\<close>

fun gk_created :: "(h256 \<Rightarrow> h256) \<Rightarrow> SystemEvent \<Rightarrow> (h256 \<Rightarrow> (WorkerState_sm \<times> u32 list) option) \<Rightarrow>
  h256 \<Rightarrow> (WorkerState_sm \<times> u32 list) option" where
  "gk_created hashed (WorkerEvent_ev pubkey (Registered _)) t =
     (if t pubkey = None then t(pubkey \<mapsto> (ws_view (WorkerState_new hashed pubkey), [])) else t)"
| "gk_created hashed _ t = t"

lemma process_system_event_track:
  assumes "bt_wf (ce_workers c)" and "MessageOrigin_is_pallet origin"
  shows "\<exists>c'. ComputingEconomics_process_system_event gx hashed origin e block c = Some c' \<and>
    bt_wf (ce_workers c') \<and>
    gk_track c' = (\<lambda>k. map_option (track_event block e) (gk_created hashed e (gk_track c) k))"
proof -
  define c1 where "c1 = (case e of
             WorkerEvent_ev pubkey (Registered _) \<Rightarrow>
               (if bt_get (ce_workers c) pubkey = None
                then c\<lparr>ce_workers := bt_insert pubkey (WorkerInfo_new hashed pubkey) (ce_workers c)\<rparr> else c)
           | _ \<Rightarrow> c)"
  have c1: "bt_wf (ce_workers c1)" "gk_track c1 = gk_created hashed e (gk_track c)"
    using assms(1) unfolding atomize_conj
    by (cases "(hashed, e, gk_track c)" rule: gk_created.cases)
      (auto simp: c1_def gk_track_def bt_wf_insert bt_get_insert_at wg_track_def WorkerInfo_new_def intro!: ext)
  from ordmap_for_each_mut_rel [where f = "gk_replay_event block e" and e = "ce_listener c1" and
      R = "\<lambda>_ v v'. wg_track v' = track_event block e (wg_track v)", OF c1(1) gk_replay_event_track]
  obtain m' l' where m': "ordmap_for_each_mut (gk_replay_event block e) (ce_workers c1) (ce_listener c1) = Some (m', l')"
    "bt_wf m'" "\<And>k. rel_option (\<lambda>v v'. wg_track v' = track_event block e (wg_track v)) (bt_get (ce_workers c1) k) (bt_get m' k)"
    by blast
  define c2 where "c2 = c1\<lparr>ce_workers := m', ce_listener := l'\<rparr>"
  have "gk_track c2 k = map_option (track_event block e) (gk_track c1 k)" for k
    using m'(3) [of k] by (auto simp: gk_track_def c2_def elim: option.rel_cases)
  then have c2: "bt_wf (ce_workers c2)" "gk_track c2 = (\<lambda>k. map_option (track_event block e) (gk_track c1 k))"
    using m'(2) by (auto simp: c2_def)
  have "ComputingEconomics_process_system_event gx hashed origin e block c = Some (case e of
               WorkerEvent_ev pubkey e \<Rightarrow>
                 (case bt_get (ce_workers c2) pubkey of None \<Rightarrow> c2
                  | Some worker \<Rightarrow> gk_apply_worker_event gx block pubkey e worker c2)
             | HeartbeatChallenge_ev _ \<Rightarrow> c2)"
    unfolding c2_def using assms(2) m'(1)
    by (simp add: ComputingEconomics_process_system_event_def c1_def [symmetric] Let_def)
  with c2 show ?thesis
    by (auto simp: c1(2) gk_apply_worker_event_track split: SystemEvent.splits option.splits)
qed

lemma heartbeat_fields_block:
  "\<exists>sid t n running. heartbeat_fields r = (sid, heartbeat_block r, t, n, running)"
  by (cases r) auto

text \<open>The heartbeat waited for first is accepted.\<close>

lemma process_computing_report_track:
  assumes "u64f64 gx" and "bt_wf (ce_workers c)" and "gk_track c k = Some (w, heartbeat_block r # rest)"
  shows "\<exists>c'. ComputingEconomics_process_computing_report gx (Worker k) r block c = Some c' \<and>
    bt_wf (ce_workers c') \<and> gk_track c' = (gk_track c)(k \<mapsto> (w, rest))"
proof -
  obtain info where i: "bt_get (ce_workers c) k = Some info" "wg_track info = (w, heartbeat_block r # rest)"
    using assms(3) by (auto simp: gk_track_def)
  then have hb: "wg_waiting_heartbeats info = heartbeat_block r # rest" "ws_view (wg_state info) = w"
    by (auto simp: wg_track_def)
  obtain sid t n running where f: "heartbeat_fields r = (sid, heartbeat_block r, t, n, running)"
    using heartbeat_fields_block by blast
  obtain ti where ti: "TokenomicInfo_update_p_instant gx (bi_now_ms block) n running (wg_tokenomic info) = Some ti"
    using update_p_instant_returns [OF assms(1)] by blast
  define ti' where "ti' = ti\<lparr>ti_challenge_time_last := t, ti_iteration_last := n\<rparr>"
  obtain pay tre ti2 where ti2: "TokenomicInfo_update_v_heartbeat gx (ce_tokenomic_params c)
      (ec_sum_share (ce_eco_cache c)) (bi_now_ms block) (bi_block_number block) ti' = Some ((pay, tre), ti2)"
    using update_v_heartbeat_returns [OF assms(1)] by (metis option.exhaust prod.exhaust)
  show ?thesis
    using i(1) hb f ti ti2 assms(2)
    by (auto simp: Let_def ti'_def [symmetric] gk_track_def wg_track_def fun_eq_iff bt_wf_insert bt_get_insert_at
        split: option.split)
qed

lemma will_process_block_track:
  assumes "bt_wf (ce_workers c)"
  shows "\<exists>c'. ComputingEconomics_will_process_block gx block c = Some c' \<and> bt_wf (ce_workers c') \<and>
    gk_track c' = gk_track c"
proof -
  from ordmap_for_each_mut_rel [where f = "\<lambda>_ worker e. Some (worker\<lparr>wg_heartbeat_flag := False\<rparr>, e)" and
      e = "()" and R = "\<lambda>_ v v'. wg_track v' = wg_track v", OF assms]
  obtain m' where m': "ordmap_for_each_mut (\<lambda>_ worker e. Some (worker\<lparr>wg_heartbeat_flag := False\<rparr>, e)) (ce_workers c) () = Some (m', ())"
    "bt_wf m'" "\<And>k. rel_option (\<lambda>v v'. wg_track v' = wg_track v) (bt_get (ce_workers c) k) (bt_get m' k)"
    by (auto simp: wg_track_def)
  have "map_option wg_track (bt_get m' k) = map_option wg_track (bt_get (ce_workers c) k)" for k
    using m'(3) [of k] by (auto elim: option.rel_cases)
  with m'(1,2) show ?thesis
    by (auto simp: ComputingEconomics_will_process_block_def Let_def gk_track_def)
qed

lemma did_process_block_track:
  assumes "u64f64 gx" and "bt_wf (ce_workers c)"
  shows "\<exists>c'. ComputingEconomics_did_process_block gx block c = Some c' \<and> bt_wf (ce_workers c') \<and>
    gk_track c' = gk_track c"
proof -
  from ordmap_for_each_mut_rel [where f = "gk_block_post_process gx (ce_tokenomic_params c) block" and
      e = "(ec_report (ce_eco_cache c), ce_listener c)" and R = "\<lambda>_ v v'. wg_track v' = wg_track v", OF assms(2)
      gk_block_post_process_track [OF assms(1)]]
  obtain m' rep l where m': "ordmap_for_each_mut (gk_block_post_process gx (ce_tokenomic_params c) block) (ce_workers c)
      (ec_report (ce_eco_cache c), ce_listener c) = Some (m', rep, l)"
    "bt_wf m'" "\<And>k. rel_option (\<lambda>v v'. wg_track v' = wg_track v) (bt_get (ce_workers c) k) (bt_get m' k)"
    by auto
  have "map_option wg_track (bt_get m' k) = map_option wg_track (bt_get (ce_workers c) k)" for k
    using m'(3) [of k] by (auto elim: option.rel_cases)
  with m'(1,2) show ?thesis
    by (auto simp: ComputingEconomics_did_process_block_def Let_def gk_track_def)
qed

section \<open>The invariant\<close>

definition replay_follows :: "(h256 \<Rightarrow> h256) \<Rightarrow> h256 list \<Rightarrow> replay_state \<Rightarrow> h256 \<Rightarrow> bool" where
  "replay_follows hashed R s k \<longleftrightarrow>
     gk_track (rs_gk s) k = Some (ws_after (rs_inbox s k) (rs_worker s k),
       map heartbeat_block (rs_pending s k) @ hb_after (rs_inbox s k) (rs_worker s k)) \<or>
     gk_track (rs_gk s) k = None \<and> k \<notin> set R \<and>
       ws_after (rs_inbox s k) (rs_worker s k) = ws_view (WorkerState_new hashed k) \<and>
       rs_pending s k = [] \<and> hb_after (rs_inbox s k) (rs_worker s k) = []"

definition replay_inv :: "(h256 \<Rightarrow> h256) \<Rightarrow> h256 list \<Rightarrow> replay_state \<Rightarrow> bool" where
  "replay_inv hashed R s \<longleftrightarrow> bt_wf (ce_workers (rs_gk s)) \<and> (\<forall>k. replay_follows hashed R s k)"

lemma replay_inv_init: "replay_inv hashed [] (replay_init hashed)"
  by (simp add: replay_inv_def replay_follows_def replay_init_def gk_track_def ComputingEconomics_new_def)

text \<open>An event reaches a worker's inbox and the gatekeeper's copy of the worker alike.\<close>

lemma chain_event_follows:
  assumes "replay_follows hashed R s k" and "label_ok R (Chain_event block e)"
    and "gk_track c = (\<lambda>k. map_option (track_event block e) (gk_created hashed e (gk_track (rs_gk s)) k))"
  shows "replay_follows hashed (label_registers (Chain_event block e) @ R)
    (s\<lparr>rs_gk := c, rs_inbox := \<lambda>k. rs_inbox s k @ [(block, Some e)]\<rparr>) k"
proof (cases "gk_track (rs_gk s) k")
  case None
  then have n: "k \<notin> set R" "ws_after (rs_inbox s k) (rs_worker s k) = ws_view (WorkerState_new hashed k)"
    "rs_pending s k = []" "hb_after (rs_inbox s k) (rs_worker s k) = []"
    using assms(1) by (auto simp: replay_follows_def)
  show ?thesis
  proof (cases "concerns_new k e")
    case True
    then obtain lvl where "e = WorkerEvent_ev k (Registered lvl)"
      using assms(2) n(1) by (cases "(k, e)" rule: concerns_new.cases) auto
    with None n show ?thesis by (simp add: replay_follows_def assms(3) track_event_def)
  next
    case False
    then have "gk_track c k = None" "k \<notin> set (label_registers (Chain_event block e) @ R)"
      using None n(1) by (cases "(hashed, e, gk_track (rs_gk s))" rule: gk_created.cases; auto simp: assms(3))+
    with n ws_next_new [OF False, of block hashed] show ?thesis
      by (simp add: replay_follows_def)
  qed
next
  case (Some t)
  then have "gk_created hashed e (gk_track (rs_gk s)) k = Some t"
    by (cases "(hashed, e, gk_track (rs_gk s))" rule: gk_created.cases) auto
  with Some assms(1) show ?thesis
    by (auto simp: replay_follows_def assms(3) track_event_def)
qed

lemma worker_step_follows:
  assumes "replay_follows hashed R s k'" and "rs_inbox s k = x # rest"
    and "worker_consume x d (rs_worker s k) = (w, d')" and "smd_egress d = []"
  shows "replay_follows hashed R (s\<lparr>rs_worker := (rs_worker s)(k := w), rs_inbox := (rs_inbox s)(k := rest),
    rs_pending := (rs_pending s)(k := rs_pending s k @ worker_heartbeats (smd_egress d'))\<rparr>) k'"
proof (cases "k' = k")
  case True
  have f: "ws_after rest w = ws_after (x # rest) (rs_worker s k)"
    "map heartbeat_block (worker_heartbeats (smd_egress d')) @ hb_after rest w = hb_after (x # rest) (rs_worker s k)"
    using worker_consume_follows [OF assms(3,4), of rest] by auto
  show ?thesis
    using assms(1) True f by (auto simp: replay_follows_def assms(2))
qed (use assms(1) in \<open>simp add: replay_follows_def\<close>)

lemma heartbeat_arrives_follows:
  assumes "replay_follows hashed R s k'" and "rs_pending s k = r # rest"
    and "gk_track (rs_gk s) k = Some (w, heartbeat_block r # hbs)" and "gk_track c = (gk_track (rs_gk s))(k \<mapsto> (w, hbs))"
  shows "replay_follows hashed R (s\<lparr>rs_gk := c, rs_pending := (rs_pending s)(k := rest)\<rparr>) k'"
  using assms by (cases "k' = k") (auto simp: replay_follows_def)

lemma replay_step_follows:
  assumes "u64f64 gx" and "replay_inv hashed R s" and "label_ok R l"
  shows "\<exists>s'. replay_step gx hashed l s = Some s' \<and> replay_inv hashed (label_registers l @ R) s'"
proof -
  have wf: "bt_wf (ce_workers (rs_gk s))" and fo: "\<And>k. replay_follows hashed R s k"
    using assms(2) by (auto simp: replay_inv_def)
  show ?thesis
  proof (cases l)
    case (Block_begins block)
    with fo will_process_block_track [OF wf, of gx block] show ?thesis
      by (auto simp: replay_inv_def replay_follows_def)
  next
    case (Chain_event block e)
    obtain c where "ComputingEconomics_process_system_event gx hashed (Pallet []) e block (rs_gk s) = Some c"
      "bt_wf (ce_workers c)"
      "gk_track c = (\<lambda>k. map_option (track_event block e) (gk_created hashed e (gk_track (rs_gk s)) k))"
      using process_system_event_track [OF wf, of "Pallet []" gx hashed e block] by auto
    with fo assms(3) Chain_event show ?thesis
      by (auto simp: replay_inv_def intro!: chain_event_follows)
  next
    case (Params_change params)
    with fo wf show ?thesis
      by (auto simp: replay_inv_def replay_follows_def gk_track_def
          ComputingEconomics_update_tokenomic_parameters_def)
  next
    case (Block_ends block)
    with fo did_process_block_track [OF assms(1) wf, of block] show ?thesis
      by (auto simp: replay_inv_def replay_follows_def)
  next
    case (Worker_step k nc nk b)
    show ?thesis
    proof (cases "rs_inbox s k")
      case Nil
      with Worker_step assms(2) show ?thesis by simp
    next
      case (Cons x rest)
      let ?d = "\<lparr>smd_egress = [], smd_n_clusters = nc, smd_n_contracts = nk, smd_benchmark = b, smd_panicked = False\<rparr>"
      obtain w d' where "worker_consume x ?d (rs_worker s k) = (w, d')" by fastforce
      with Worker_step Cons wf worker_step_follows [OF fo Cons, where d = ?d and d' = d' and w = w] show ?thesis
        by (auto simp: replay_inv_def)
    qed
  next
    case (Heartbeat_arrives block k)
    show ?thesis
    proof (cases "rs_pending s k")
      case Nil
      with Heartbeat_arrives assms(2) show ?thesis by simp
    next
      case (Cons r rest)
      then obtain w hbs where t: "gk_track (rs_gk s) k = Some (w, heartbeat_block r # hbs)"
        using fo [of k] by (auto simp: replay_follows_def)
      from process_computing_report_track [OF assms(1) wf t]
      obtain c where "ComputingEconomics_process_computing_report gx (Worker k) r block (rs_gk s) = Some c"
        "bt_wf (ce_workers c)" "gk_track c = (gk_track (rs_gk s))(k \<mapsto> (w, hbs))"
        by blast
      with Heartbeat_arrives Cons heartbeat_arrives_follows [OF fo Cons t] show ?thesis
        by (auto simp: replay_inv_def)
    qed
  qed
qed

lemma replay_run_follows:
  assumes "u64f64 gx" and "replay_inv hashed R s" and "registered_first R ls"
  shows "\<exists>s' R'. replay_run gx hashed ls s = Some s' \<and> replay_inv hashed R' s'"
  using assms(2,3)
proof (induction ls arbitrary: R s)
  case (Cons l ls)
  then show ?case using replay_step_follows [OF assms(1), of hashed R s l] by fastforce
qed auto

section \<open>Property\<close>

text \<open>C2: As long as the chain starts no session of a worker that was never registered, the gatekeeper
  never panics on a heartbeat, however the workers lag behind and whenever their messages arrive.
  Whatever worker it knows, its copy of the worker's machine is the one the worker reaches when it has
  processed its part of the chain, and it waits for exactly the heartbeats on their way and those
  that the worker will still send, in this order.\<close>

theorem gatekeeper_never_poisoned:
  assumes "u64f64 gx" and "registered_first [] ls"
  shows "\<exists>s. replay_run gx hashed ls (replay_init hashed) = Some s \<and>
    (\<forall>k info. bt_get (ce_workers (rs_gk s)) k = Some info \<longrightarrow>
      ws_view (wg_state info) = ws_after (rs_inbox s k) (rs_worker s k) \<and>
      wg_waiting_heartbeats info =
        map heartbeat_block (rs_pending s k) @ hb_after (rs_inbox s k) (rs_worker s k))"
proof -
  obtain s R' where s: "replay_run gx hashed ls (replay_init hashed) = Some s" "replay_inv hashed R' s"
    using replay_run_follows [OF assms(1) replay_inv_init assms(2), of hashed] by blast
  have "ws_view (wg_state info) = ws_after (rs_inbox s k) (rs_worker s k) \<and>
      wg_waiting_heartbeats info =
        map heartbeat_block (rs_pending s k) @ hb_after (rs_inbox s k) (rs_worker s k)"
    if "bt_get (ce_workers (rs_gk s)) k = Some info" for k info
  proof -
    have "replay_follows hashed R' s k" using s(2) by (simp add: replay_inv_def)
    with that show ?thesis by (auto simp: replay_follows_def gk_track_def wg_track_def)
  qed
  with s(1) show ?thesis by blast
qed

text \<open>A worker is registered, starts a session, is hit by a challenge and answers it.\<close>

definition ex_replay :: "replay_label list" where
  "ex_replay =
     (let b = (\<lambda>n. \<lparr>bi_block_number = n, bi_now_ms = 6000\<rparr>)
      in [Block_begins (b 1), Chain_event (b 1) (WorkerEvent_ev 7 (Registered 1)),
          Chain_event (b 1) (WorkerEvent_ev 7 (Started 3 100 10)), Block_ends (b 1),
          Block_begins (b 2), Chain_event (b 2) (HeartbeatChallenge_ev \<lparr>hc_seed = 0, hc_online_target = - 1\<rparr>),
          Block_ends (b 2), Worker_step 7 0 0 benchmark_statics, Worker_step 7 0 0 benchmark_statics,
          Worker_step 7 0 0 benchmark_statics, Worker_step 7 0 0 benchmark_statics,
          Heartbeat_arrives (b 3) 7])"

theorem gatekeeper_never_poisoned_witness:
  "registered_first [] ex_replay \<and> replay_run q64_ops id ex_replay (replay_init id) \<noteq> None"
proof -
  have "registered_first [] ex_replay" by (simp add: ex_replay_def Let_def)
  with gatekeeper_never_poisoned [OF q64.u64f64_axioms this, of id] show ?thesis by auto
qed

end
