(* ===== verification/Gk_Safety.thy ===== *)
theory Gk_Safety
  imports Gk_System Gk_Replay Pallet_Mq
begin

text \<open>
  What the gatekeeper's keys guarantee: a new gatekeeper receives and seals the whole history of master
  keys; a random number is accepted by the gatekeepers that have the key it was made with. And where
  they fail: reports after a rotation are signed with the old key, a gatekeeper that syncs from the
  first block panics once there were two rotations, and challenges that wait for the launch are replayed
  under the wrong block.
\<close>

section \<open>Sharing keys\<close>

lemma blake2_length: "crypto_laws cr \<Longrightarrow> length (cr_blake2_256 cr m) = 32"
  unfolding crypto_laws_def by (elim conjE) blast

lemma generate_iv_returns:
  assumes "crypto_laws (ge_cr env)" and "good_secret (ge_cr env) (gk_master_key g)"
  shows "\<exists>iv. Gatekeeper_generate_iv env blk g = Some (iv, g\<lparr>gk_iv_seq := gk_iv_seq g + 1\<rparr>) \<and> length iv = IV_BYTES"
proof -
  obtain d where "derive_sr25519_pair (ge_cr env) (gk_master_key g) [bstr ''iv_generator''] = Inr d"
    using derive_good [OF assms] by blast
  then show ?thesis
    by (simp add: Gatekeeper_generate_iv_def expect_ok_def blake2_length [OF assms(1)] IV_BYTES_def Let_def)
qed

text \<open>What a gatekeeper encrypts to a worker, the worker decrypts.\<close>

definition decrypts_to :: "gk_env \<Rightarrow> bytes \<Rightarrow> EncryptedKey \<Rightarrow> bytes \<Rightarrow> bool" where
  "decrypts_to env identity ek secret \<longleftrightarrow>
     decrypt_secret_from (ge_cr env) (derive_ecdh_key identity) (ek_ecdh_pubkey ek) (ek_encrypted_key ek) (ek_iv ek) =
       Inr secret"

lemma encrypt_key_to_returns:
  assumes "crypto_laws (ge_cr env)" and "good_secret (ge_cr env) (gk_master_key g)"
    and "good_secret (ge_cr env) identity" and "length secret = 64"
  shows "\<exists>ek. Gatekeeper_encrypt_key_to env info (cr_public (ge_cr env) identity) secret blk g =
      Some (ek, g\<lparr>gk_iv_seq := gk_iv_seq g + 1\<rparr>) \<and> decrypts_to env identity ek secret"
proof -
  obtain iv where iv: "Gatekeeper_generate_iv env blk g = Some (iv, g\<lparr>gk_iv_seq := gk_iv_seq g + 1\<rparr>)" "length iv = IV_BYTES"
    using generate_iv_returns [OF assms(1,2)] by blast
  obtain epk c where "encrypt_secret_to (ge_cr env) (gk_master_key g) info (cr_public (ge_cr env) identity) secret iv = Inr (epk, c)"
    "decrypt_secret_from (ge_cr env) (derive_ecdh_key identity) epk c iv = Inr secret"
    using share_secret [OF assms(1-4) iv(2)] by blast
  then show ?thesis by (simp add: Gatekeeper_encrypt_key_to_def iv(1) expect_ok_def decrypts_to_def)
qed

lemma decrypt_key_from_returns:
  assumes "good_secret (ge_cr env) secret" and "decrypts_to env (ps_identity_key s) ek secret"
  shows "System_decrypt_key_from env (ek_ecdh_pubkey ek) (ek_encrypted_key ek) (ek_iv ek) s = Some secret"
  using assms by (simp add: System_decrypt_key_from_def decrypts_to_def expect_ok_def restore_from_secret_key_def
      good_secret_def)

lemma encrypt_history_returns:
  assumes "crypto_laws (ge_cr env)" and "good_secret (ge_cr env) (gk_master_key g)"
    and "good_secret (ge_cr env) (ps_identity_key s)" and "\<forall>k \<in> set keys. good_secret (ge_cr env) (mk_secret k)"
  shows "\<exists>eks seq. gk_encrypt_history env (cr_public (ge_cr env) (ps_identity_key s)) blk keys g =
      Some (eks, g\<lparr>gk_iv_seq := seq\<rparr>) \<and> sys_decrypt_history env s eks = Some keys"
  using assms(2,4)
proof (induction keys arbitrary: g)
  case Nil
  show ?case by (auto intro!: exI [where x = "gk_iv_seq g"])
next
  case (Cons k keys)
  have k: "good_secret (ge_cr env) (mk_secret k)" using Cons.prems(2) by simp
  then have "length (mk_secret k) = 64" by (simp add: good_secret_def)
  from encrypt_key_to_returns [OF assms(1) Cons.prems(1) assms(3) this]
  obtain ek where ek: "Gatekeeper_encrypt_key_to env [MASTER_KEY_SHARING_SALT] (cr_public (ge_cr env) (ps_identity_key s))
      (mk_secret k) blk g = Some (ek, g\<lparr>gk_iv_seq := gk_iv_seq g + 1\<rparr>)" "decrypts_to env (ps_identity_key s) ek (mk_secret k)"
    by blast
  obtain eks seq where "gk_encrypt_history env (cr_public (ge_cr env) (ps_identity_key s)) blk keys (g\<lparr>gk_iv_seq := gk_iv_seq g + 1\<rparr>) =
      Some (eks, g\<lparr>gk_iv_seq := seq\<rparr>)" "sys_decrypt_history env s eks = Some keys"
    using Cons.IH [of "g\<lparr>gk_iv_seq := gk_iv_seq g + 1\<rparr>"] Cons.prems by auto
  with ek decrypt_key_from_returns [OF k ek(2)] show ?case by (auto simp: dump_secret_key_def)
qed

text \<open>A worker that is no gatekeeper seals the history it receives and ends.\<close>

lemma set_history_seals:
  assumes "crypto_laws (ge_cr env)" and "good_secret (ge_cr env) (ps_identity_key s)" and "ps_gatekeeper s = None"
    and "\<And>sig. se_dec se (se_enc se (Seal_V2 keys sig)) = Some (Seal_V2 keys sig)"
    and "\<And>d. \<exists>f. se_seal se d = Some f \<and> se_unseal se f = Some d"
  shows "\<exists>f. System_set_master_key_history env se keys s = Dies (Some f) \<and>
    master_key_try_unseal (ge_cr env) se (Some f) (ps_identity_key s) = Inr keys"
  using seal_unseal [where se = se, OF assms(1,2,4,5)] assms(3)
  by (auto simp: System_set_master_key_history_def System_seal_def or_dies_def expect_ok_def)

text \<open>C13: When a worker registers as a gatekeeper, the message a gatekeeper shares the master keys with
  makes that worker seal exactly the gatekeeper's history of master keys and restart; the restarted
  process reads this history back. (Before the first rotation the history is the master key alone.)
  Hypotheses: the laws of the cryptographic operations, well-formed secret keys, a platform that
  unseals what it sealed, and a codec that decodes the sealed data it encoded.\<close>

theorem master_keys_reach_new_gatekeeper:
  assumes "crypto_laws (ge_cr env)" and "good_secret (ge_cr env) (gk_master_key g)"
    and "good_secret (ge_cr env) (ps_identity_key s)" and "ps_gatekeeper s = None"
    and "\<forall>k \<in> set (gk_master_key_history g). good_secret (ge_cr env) (mk_secret k)"
    and "length (gk_master_key_history g) > 1 \<or>
      gk_master_key_history g = [\<lparr>mk_rotation_id = 0, mk_block_height = 0, mk_secret = gk_master_key g\<rparr>]"
    and "\<And>sig. se_dec se (se_enc se (Seal_V2 (gk_master_key_history g) sig)) =
      Some (Seal_V2 (gk_master_key_history g) sig)"
    and "\<And>d. \<exists>f. se_seal se d = Some f \<and> se_unseal se f = Some d"
  shows "\<exists>g' m f. Gatekeeper_share_master_key env (cr_public (ge_cr env) (ps_identity_key s))
        (cr_public (ge_cr env) (ps_identity_key s)) blk g q =
        Some (g', gk_push env (gk_egress g) (Gk_key_distribution m) q) \<and>
      System_process_key_distribution_event env se cv Gatekeeper m s = Dies (Some f) \<and>
      master_key_try_unseal (ge_cr env) se (Some f) (ps_identity_key s) = Inr (gk_master_key_history g)"
proof (cases "length (gk_master_key_history g) > 1")
  note seals = set_history_seals [where se = se, OF assms(1,3,4,7,8)]
  case True
  obtain eks seq where "gk_encrypt_history env (cr_public (ge_cr env) (ps_identity_key s)) blk (gk_master_key_history g) g =
      Some (eks, g\<lparr>gk_iv_seq := seq\<rparr>)" "sys_decrypt_history env s eks = Some (gk_master_key_history g)"
    using encrypt_history_returns [OF assms(1-3,5)] by blast
  with True seals show ?thesis
    by (auto simp: Gatekeeper_share_master_key_def Gatekeeper_share_master_key_history_def
        System_process_master_key_history_def or_dies_def)
next
  note seals = set_history_seals [where se = se, OF assms(1,3,4,7,8)]
  case False
  with assms(6) have h: "gk_master_key_history g = [\<lparr>mk_rotation_id = 0, mk_block_height = 0, mk_secret = gk_master_key g\<rparr>]"
    by simp
  have "length (gk_master_key g) = 64" using assms(2) by (simp add: good_secret_def)
  from encrypt_key_to_returns [OF assms(1,2,3) this]
  obtain ek where ek: "Gatekeeper_encrypt_key_to env [MASTER_KEY_SHARING_SALT] (cr_public (ge_cr env) (ps_identity_key s))
      (gk_master_key g) blk g = Some (ek, g\<lparr>gk_iv_seq := gk_iv_seq g + 1\<rparr>)" "decrypts_to env (ps_identity_key s) ek (gk_master_key g)"
    by blast
  from False ek(1) decrypt_key_from_returns [OF assms(2) ek(2)] seals show ?thesis
    by (auto simp: Gatekeeper_share_master_key_def Gatekeeper_share_latest_master_key_def dump_secret_key_def
        KeyDistribution_master_key_distribution_def System_process_master_key_distribution_def or_dies_def h)
qed

definition ex_gk_env :: gk_env where
  "ex_gk_env = \<lparr>ge_cr = ex_crypto, ge_gx = q64_ops, ge_hashed = id, ge_encode = \<lambda>_. ([1], [94, 47]),
     ge_enc_signed = \<lambda>_. [], ge_enc_rotation = \<lambda>_. []\<rparr>"

definition ex_gk :: Gatekeeper_state where
  "ex_gk = \<lparr>gk_master_key = replicate 64 5, gk_master_pubkey_on_chain = False, gk_registered_on_chain = True,
     gk_master_key_history = ex_keys, gk_egress = \<lparr>mc_sender = Gatekeeper, mc_signer = replicate 64 5\<rparr>,
     gk_events = [], gk_last_random_number = replicate 32 0, gk_iv_seq = 0, gk_economics = ComputingEconomics_new,
     gk_economics_events = [], gk_economics_egress = \<lparr>mc_sender = Gatekeeper, mc_signer = replicate 64 5\<rparr>\<rparr>"

definition ex_sys :: pr_system where
  "ex_sys = \<lparr>ps_identity_key = replicate 64 1, ps_gatekeeper = None, ps_block_number = 3, ps_genesis_block = 0,
     ps_sealed = None, ps_worker_egress = [], ps_send_mq = []\<rparr>"

theorem master_keys_reach_new_gatekeeper_witness:
  "\<exists>g' m f. Gatekeeper_share_master_key ex_gk_env 1 1 3 ex_gk [] =
        Some (g', gk_push ex_gk_env (gk_egress ex_gk) (Gk_key_distribution m) []) \<and>
      System_process_key_distribution_event ex_gk_env ex_seal
        \<lparr>cv_block = \<lparr>bi_block_number = 3, bi_now_ms = 0\<rparr>, cv_gatekeepers = [], cv_tokenomic_parameters = None\<rparr>
        Gatekeeper m ex_sys = Dies (Some f) \<and>
      master_key_try_unseal ex_crypto ex_seal (Some f) (replicate 64 1) = Inr ex_keys"
proof -
  have f: "ge_cr ex_gk_env = ex_crypto" "gk_master_key_history ex_gk = ex_keys" "gk_master_key ex_gk = replicate 64 5"
    "ps_identity_key ex_sys = replicate 64 1" "ps_gatekeeper ex_sys = None" "cr_public ex_crypto (replicate 64 1) = 1"
    by (simp_all add: ex_gk_env_def ex_gk_def ex_sys_def ex_crypto_def first_byte_def numeral_eq_Suc)
  show ?thesis
    using master_keys_reach_new_gatekeeper [of ex_gk_env ex_gk ex_sys ex_seal 3 "[]"
        "\<lparr>cv_block = \<lparr>bi_block_number = 3, bi_now_ms = 0\<rparr>, cv_gatekeepers = [], cv_tokenomic_parameters = None\<rparr>"]
    by (simp add: f ex_crypto_laws ex_good_secret ex_seal_def) (simp add: ex_keys_def)
qed

section \<open>Random numbers\<close>

text \<open>C37: In a block whose number is a multiple of the interval a gatekeeper pushes exactly one event,
  with the number it makes in that block. When this event comes back over the chain, it is accepted by
  every gatekeeper that has not rotated the key since, and by every gatekeeper whose last rotation came
  after that block and whose key before it is the one the number was made with.\<close>

theorem random_number_accepted:
  assumes "Gatekeeper_emit_random_number env blk g q = Some (g1, q1)" and "blk mod VRF_INTERVAL = 0"
    and "event = GatekeeperEvent_new_random_number blk (gk_last_random_number g1) (gk_last_random_number g)"
    and "gk_master_key_history g' \<noteq> []"
    and "(mk_block_height (last (gk_master_key_history g')) \<le> blk \<and> gk_master_key g' = gk_master_key g) \<or>
      (mk_block_height (last (gk_master_key_history g')) > blk \<and> length (gk_master_key_history g') \<ge> 2 \<and>
       mk_secret (gk_master_key_history g' ! (length (gk_master_key_history g') - 2)) = gk_master_key g \<and>
       good_secret (ge_cr env) (gk_master_key g))"
  shows "q1 = gk_push env (gk_egress g) (Gk_event event) q \<and>
    Gatekeeper_process_gatekeeper_event env Gatekeeper event g' = Some g'"
proof -
  have "next_random_number (ge_cr env) (gk_master_key g) blk (gk_last_random_number g) = Some (gk_last_random_number g1)"
    and "q1 = gk_push env (gk_egress g) (Gk_event event) q"
    using assms(1-3) by (auto simp: Gatekeeper_emit_random_number_def bind_eq_Some_conv)
  with assms(3-5) show ?thesis
    by (auto simp: Gatekeeper_process_random_number_event_def expect_ok_def restore_from_secret_key_def
        good_secret_def GatekeeperEvent_new_random_number_def Let_def)
qed

theorem random_number_accepted_witness:
  "\<exists>g1 q1 event. Gatekeeper_emit_random_number ex_gk_env 5 ex_gk [] = Some (g1, q1) \<and>
     q1 = gk_push ex_gk_env (gk_egress ex_gk) (Gk_event event) [] \<and>
     Gatekeeper_process_gatekeeper_event ex_gk_env Gatekeeper event ex_gk = Some ex_gk"
proof -
  have n: "next_random_number ex_crypto (replicate 64 b) 5 (replicate 32 0) = Some (replicate 32 b)" for b
    by (simp add: next_random_number_def derive_sr25519_pair_def expect_ok_def ex_crypto_def Let_def
        dump_secret_key_def)
  obtain g1 q1 where e: "Gatekeeper_emit_random_number ex_gk_env 5 ex_gk [] = Some (g1, q1)"
    by (simp add: Gatekeeper_emit_random_number_def ex_gk_env_def ex_gk_def VRF_INTERVAL_def n)
  from random_number_accepted [OF e _ refl, of ex_gk] e show ?thesis
    by (auto simp: VRF_INTERVAL_def ex_gk_def ex_keys_def)
qed

text \<open>C23: A gatekeeper that starts from the sealed history after two rotations and syncs from the first
  block panics at the first random number from before the rotations: for a block before the last
  rotation the check takes the key before the last one, not the key of that time.\<close>

theorem resync_after_two_rotations_panics:
  assumes "Gatekeeper_new env history egress q = Some (g, q')" and "length history \<ge> 3"
    and "rn_block_number event < mk_block_height (last history)"
    and "next_random_number (ge_cr env) (mk_secret (hd history)) (rn_block_number event)
      (rn_last_random_number event) = Some (rn_random_number event)"
    and "next_random_number (ge_cr env) (mk_secret (history ! (length history - 2))) (rn_block_number event)
      (rn_last_random_number event) \<noteq> Some (rn_random_number event)"
    and "\<forall>k \<in> set history. good_secret (ge_cr env) (mk_secret k)"
  shows "gk_master_key g = mk_secret (hd history) \<and>
    Gatekeeper_process_gatekeeper_event env Gatekeeper (NewRandomNumber event) g = None"
proof -
  have h: "history \<noteq> []" using assms(2) by auto
  then have hd: "good_secret (ge_cr env) (mk_secret (hd history))" using assms(6) by auto
  have g: "gk_master_key g = mk_secret (hd history)" "gk_master_key_history g = history"
    using assms(1) h hd
    by (auto simp: Gatekeeper_new_def expect_ok_def restore_from_secret_key_def good_secret_def split: list.splits)
  have "good_secret (ge_cr env) (mk_secret (history ! (length history - 2)))"
    using assms(2,6) by auto
  then show ?thesis
    using g h assms(2,3,5)
    by (cases "next_random_number (ge_cr env) (mk_secret (history ! (length history - 2)))
        (rn_block_number event) (rn_last_random_number event)")
      (auto simp: Gatekeeper_process_random_number_event_def expect_ok_def restore_from_secret_key_def
        good_secret_def Let_def)
qed

definition ex_history :: "RotatedMasterKey list" where
  "ex_history = map (\<lambda>n. \<lparr>mk_rotation_id = of_nat n, mk_block_height = of_nat (10 * n), mk_secret = replicate 64 (of_nat n)\<rparr>) [0, 1, 2]"

theorem resync_after_two_rotations_panics_witness:
  "\<exists>g q' r. Gatekeeper_new ex_gk_env ex_history \<lparr>mc_sender = Gatekeeper, mc_signer = replicate 64 0\<rparr> [] = Some (g, q') \<and>
    Gatekeeper_process_gatekeeper_event ex_gk_env Gatekeeper (NewRandomNumber
      \<lparr>rn_block_number = 5, rn_random_number = r, rn_last_random_number = replicate 32 0\<rparr>) g = None"
proof -
  have n: "next_random_number ex_crypto (replicate 64 b) 5 (replicate 32 0) = Some (replicate 32 b)" for b
    by (simp add: next_random_number_def derive_sr25519_pair_def expect_ok_def ex_crypto_def Let_def
        dump_secret_key_def)
  obtain g q' where g: "Gatekeeper_new ex_gk_env ex_history \<lparr>mc_sender = Gatekeeper, mc_signer = replicate 64 0\<rparr> [] = Some (g, q')"
    by (simp add: Gatekeeper_new_def ex_history_def ex_gk_env_def ex_crypto_def expect_ok_def restore_from_secret_key_def)
  have "gk_master_key g = mk_secret (hd ex_history) \<and>
    Gatekeeper_process_gatekeeper_event ex_gk_env Gatekeeper (NewRandomNumber
      \<lparr>rn_block_number = 5, rn_random_number = replicate 32 0, rn_last_random_number = replicate 32 0\<rparr>) g = None"
    by (rule resync_after_two_rotations_panics [OF g])
      (simp_all add: ex_gk_env_def n ex_good_secret, simp_all add: ex_history_def n)
  with g show ?thesis by blast
qed

section \<open>Reports after a rotation\<close>

lemma messages_gk_push:
  assumes "\<not> sq_dummy (sq_entry q (mc_sender ch))"
  shows "\<exists>m. MessageSendQueue_messages (mc_sender ch) (gk_push env ch msg q) =
      MessageSendQueue_messages (mc_sender ch) q @ [m] \<and> msg_sender (sm_message m) = mc_sender ch \<and>
      sm_sequence m = sq_sequence (sq_entry q (mc_sender ch)) \<and>
      sm_signature m = cr_sign (ge_cr env) (mc_signer ch) (SignedMessage_data_be_signed (ge_enc_signed env) m)"
  using assms
  by (cases "bt_get q (mc_sender ch)")
    (auto simp: gk_push_def MessageChannel_push_data_def MessageSendQueue_enqueue_message_def
      MessageChannel_prepare_with_data_def MessageSendQueue_messages_def Let_def bt_get_insert_at sq_entry_def
      SendQueue_Channel_default_def SigningMessage_sign_def SignedMessage_data_be_signed_def split: prod.split)

text \<open>C22: After a rotation the economics still sign with the key from before it. Every report a
  gatekeeper pushes then stands in the queue under the next sequence number, and the chain, which has
  the new key, refuses it, whoever submits it. (Hypothesis on the signature scheme: a signature by one
  key does not verify under another one.)\<close>

theorem rotation_stalls_reports:
  assumes "Gatekeeper_switch_master_key env rotation_id blk g q = Some (True, g', q')"
    and "gk_economics_egress g = \<lparr>mc_sender = Gatekeeper, mc_signer = gk_master_key g\<rparr>"
    and "cr_public (ge_cr env) (gk_master_key g') \<noteq> cr_public (ge_cr env) (gk_master_key g)"
    and "\<And>sk pk msg. cr_public (ge_cr env) sk \<noteq> pk \<Longrightarrow> \<not> cr_verify (ge_cr env) (cr_sign (ge_cr env) sk msg) msg pk"
    and "\<not> sq_dummy (sq_entry q' Gatekeeper)"
    and "GatekeeperMasterPubkey s = Some (cr_public (ge_cr env) (gk_master_key g'))"
  shows "\<exists>m. MessageSendQueue_messages Gatekeeper (gk_push env (gk_economics_egress g') (Gk_report report) q') =
      MessageSendQueue_messages Gatekeeper q' @ [m] \<and>
      sm_sequence m = sq_sequence (sq_entry q' Gatekeeper) \<and>
      (\<forall>origin. \<exists>e. Mq_sync_offchain_message (ge_enc_signed env) (cr_verify (ge_cr env)) nf origin m s = Inl (Fails e))"
proof -
  have ch: "gk_economics_egress g' = \<lparr>mc_sender = Gatekeeper, mc_signer = gk_master_key g\<rparr>"
    using assms(1,2) by (auto simp: Gatekeeper_switch_master_key_def bind_eq_Some_conv Let_def split: if_splits)
  obtain m where m: "MessageSendQueue_messages Gatekeeper (gk_push env (gk_economics_egress g') (Gk_report report) q') =
      MessageSendQueue_messages Gatekeeper q' @ [m]" "sm_sequence m = sq_sequence (sq_entry q' Gatekeeper)"
    "msg_sender (sm_message m) = Gatekeeper"
    "sm_signature m = cr_sign (ge_cr env) (gk_master_key g) (SignedMessage_data_be_signed (ge_enc_signed env) m)"
    using messages_gk_push [of q' "gk_economics_egress g'" env "Gk_report report"] assms(5) ch by auto
  have "\<exists>e. Registry_check_message (ge_enc_signed env) (cr_verify (ge_cr env)) s m = Inl e"
    using m(3,4) assms(6) assms(4) [OF assms(3) [symmetric]]
    by (auto simp: Registry_check_message_def sender_pubkey_def Registry_verify_signature_def ensure_def Let_def)
  then have "\<exists>e. Mq_sync_offchain_message (ge_enc_signed env) (cr_verify (ge_cr env)) nf origin m s = Inl (Fails e)" for origin
    by (cases origin) (auto simp: Mq_sync_offchain_message_def ensure_def Let_def)
  with m(1,2) show ?thesis by blast
qed

definition ex_chain :: "unit chain_state" where
  "ex_chain = \<lparr>OffchainIngress = (\<lambda>_. None), QueuedOutboundMessage = None, OutboundMessages = [],
     ClusterKeys = (\<lambda>_. None), ContractKeys = (\<lambda>_. None), GatekeeperMasterPubkey = Some 1, other_storage = ()\<rparr>"

definition ex_rotated_gk :: Gatekeeper_state where
  "ex_rotated_gk = ex_gk\<lparr>gk_master_key := replicate 64 0, gk_master_key_history := ex_history,
     gk_economics_egress := \<lparr>mc_sender = Gatekeeper, mc_signer = replicate 64 0\<rparr>\<rparr>"

lemma ex_public: "cr_public ex_crypto (replicate 64 b) = ucast b"
proof -
  have "replicate 64 b = b # replicate 63 b" by (simp add: numeral_eq_Suc)
  then show ?thesis by (simp add: ex_crypto_def first_byte_def)
qed

theorem rotation_stalls_reports_witness:
  "\<exists>g' q' m. Gatekeeper_switch_master_key ex_gk_env 1 10 ex_rotated_gk [] = Some (True, g', q') \<and>
    MessageSendQueue_messages Gatekeeper (gk_push ex_gk_env (gk_economics_egress g') (Gk_report (WorkingInfoUpdateEvent_new 0 0)) q') =
      MessageSendQueue_messages Gatekeeper q' @ [m] \<and>
    (\<exists>e. Mq_sync_offchain_message (ge_enc_signed ex_gk_env) (cr_verify ex_crypto) (\<lambda>_ s. Some (Inr () :: unit + unit, s)) (Signed 1) m ex_chain = Inl (Fails e))"
proof -
  obtain g' q' where w: "Gatekeeper_switch_master_key ex_gk_env 1 10 ex_rotated_gk [] = Some (True, g', q')"
    "gk_master_key g' = replicate 64 1" "\<not> sq_dummy (sq_entry q' Gatekeeper)"
    by (simp add: Gatekeeper_switch_master_key_def ex_rotated_gk_def ex_gk_def ex_history_def ex_gk_env_def expect_ok_def
        restore_from_secret_key_def ex_crypto_def gk_push_def MessageChannel_push_data_def
        MessageSendQueue_enqueue_message_def Let_def sq_entry_def bt_get_insert_at SendQueue_Channel_default_def)
  have f: "ge_cr ex_gk_env = ex_crypto" "gk_master_key ex_rotated_gk = replicate 64 0"
    by (simp_all add: ex_gk_env_def ex_rotated_gk_def)
  have "\<exists>m. MessageSendQueue_messages Gatekeeper (gk_push ex_gk_env (gk_economics_egress g') (Gk_report (WorkingInfoUpdateEvent_new 0 0)) q') =
      MessageSendQueue_messages Gatekeeper q' @ [m] \<and> sm_sequence m = sq_sequence (sq_entry q' Gatekeeper) \<and>
      (\<forall>origin. \<exists>e. Mq_sync_offchain_message (ge_enc_signed ex_gk_env) (cr_verify (ge_cr ex_gk_env))
        (\<lambda>_ s. Some (Inr () :: unit + unit, s)) origin m ex_chain = Inl (Fails e))"
  proof (rule rotation_stalls_reports [OF w(1)])
    show "gk_economics_egress ex_rotated_gk = \<lparr>mc_sender = Gatekeeper, mc_signer = gk_master_key ex_rotated_gk\<rparr>"
      by (simp add: ex_rotated_gk_def)
    show "\<not> sq_dummy (sq_entry q' Gatekeeper)" by (rule w(3))
  qed (simp_all add: f w(2) ex_public, simp_all add: ex_crypto_def ex_chain_def)
  with w(1) show ?thesis by (auto simp: f)
qed

section \<open>The launch\<close>

text \<open>Every heartbeat waited for is for the block that is being processed.\<close>

definition waits_for_now :: "BaseBlockInfo \<Rightarrow> ComputingEconomics \<Rightarrow> bool" where
  "waits_for_now block c \<longleftrightarrow>
     (\<forall>k w hbs. gk_track c k = Some (w, hbs) \<longrightarrow> set hbs \<subseteq> {bi_block_number block})"

lemma ws_heartbeats_now: "set (ws_heartbeats block e w) \<subseteq> {bi_block_number block}"
  by (cases e) auto

lemma process_system_event_waits:
  assumes "bt_wf (ce_workers c)" and "waits_for_now block c"
  shows "\<exists>c'. ComputingEconomics_process_system_event gx hashed (Pallet p) e block c = Some c' \<and>
    bt_wf (ce_workers c') \<and> waits_for_now block c' \<and>
    (\<forall>k. gk_track c k \<noteq> None \<or> (\<exists>cl. e = WorkerEvent_ev k (Registered cl)) \<longrightarrow> gk_track c' k \<noteq> None)"
proof -
  obtain c' where c': "ComputingEconomics_process_system_event gx hashed (Pallet p) e block c = Some c'"
    "bt_wf (ce_workers c')" "gk_track c' = (\<lambda>k. map_option (track_event block e) (gk_created hashed e (gk_track c) k))"
    using process_system_event_track [OF assms(1), of "Pallet p" gx hashed e block] by auto
  have cr: "gk_created hashed e (gk_track c) k = Some (w, hbs) \<Longrightarrow> set hbs \<subseteq> {bi_block_number block}" for k w hbs
    using assms(2) by (cases "(hashed, e, gk_track c)" rule: gk_created.cases)
      (auto simp: waits_for_now_def split: if_splits)
  have "waits_for_now block c'"
    unfolding waits_for_now_def c'(3) using cr ws_heartbeats_now [of block e] by (fastforce simp: track_event_def)
  moreover have "gk_track c k \<noteq> None \<or> (\<exists>cl. e = WorkerEvent_ev k (Registered cl)) \<Longrightarrow> gk_track c' k \<noteq> None" for k
    unfolding c'(3) by (cases "(hashed, e, gk_track c)" rule: gk_created.cases) auto
  ultimately show ?thesis using c'(1,2) by blast
qed

lemma process_messages_waits:
  assumes "bt_wf (ce_workers c)" and "waits_for_now block c"
  shows "\<exists>c'. ComputingEconomics_process_messages gx hashed block (map (System_in (Pallet p)) es) c = Some c' \<and>
    bt_wf (ce_workers c') \<and> waits_for_now block c' \<and>
    (\<forall>k. gk_track c k \<noteq> None \<or> (\<exists>cl. WorkerEvent_ev k (Registered cl) \<in> set es) \<longrightarrow> gk_track c' k \<noteq> None)"
  using assms
proof (induction es arbitrary: c)
  case (Cons e es)
  from process_system_event_waits [OF Cons.prems, of gx hashed p e]
  obtain c1 where c1: "ComputingEconomics_process_system_event gx hashed (Pallet p) e block c = Some c1"
    "bt_wf (ce_workers c1)" "waits_for_now block c1"
    "\<forall>k. gk_track c k \<noteq> None \<or> (\<exists>cl. e = WorkerEvent_ev k (Registered cl)) \<longrightarrow> gk_track c1 k \<noteq> None"
    by blast
  from Cons.IH [OF c1(2,3)] c1(1,4) show ?case by fastforce
qed simp

lemma process_messages_append:
  "ComputingEconomics_process_messages gx hashed block (ms @ ms') c =
     Option.bind (ComputingEconomics_process_messages gx hashed block ms c)
       (ComputingEconomics_process_messages gx hashed block ms')"
  by (induction ms arbitrary: c) (auto split: option.split)

text \<open>C24: Messages wait in the gatekeeper's queues until the master key is on the chain, and are then
  processed as if they belonged to the block of the launch. A heartbeat among them that answers a
  challenge of an earlier block makes the gatekeeper panic.\<close>

theorem launch_delay_poisons:
  assumes "\<not> gk_master_pubkey_on_chain g" and "gk_events g = []" and "gk_economics g = ComputingEconomics_new"
    and "gk_economics_events g = map (System_in (Pallet p)) es @ [Computing_in (Worker k) heartbeat]"
    and "WorkerEvent_ev k (Registered cl) \<in> set es"
    and "heartbeat_block heartbeat \<noteq> bi_block_number launch"
    and "Gatekeeper_master_pubkey_uploaded env master_pubkey g = Some g'"
  shows "Gatekeeper_process_messages env earlier g q = Some (g, q) \<and>
    Gatekeeper_process_messages env launch g' q = None"
proof -
  have wf: "bt_wf (ce_workers ComputingEconomics_new)" "waits_for_now launch ComputingEconomics_new"
    by (simp_all add: ComputingEconomics_new_def bt_wf_def waits_for_now_def gk_track_def)
  from process_messages_waits [OF this, of "ge_gx env" "ge_hashed env" p es]
  obtain c where c: "ComputingEconomics_process_messages (ge_gx env) (ge_hashed env) launch (map (System_in (Pallet p)) es)
      ComputingEconomics_new = Some c" "waits_for_now launch c" "gk_track c k \<noteq> None"
    using assms(5) by blast
  then obtain info where i: "bt_get (ce_workers c) k = Some info" by (auto simp: gk_track_def)
  with c(2) have "set (wg_waiting_heartbeats info) \<subseteq> {bi_block_number launch}"
    by (auto simp: waits_for_now_def gk_track_def wg_track_def)
  then have "ComputingEconomics_process_computing_report (ge_gx env) (Worker k) heartbeat launch c = None"
    using i heartbeat_fields_block [of heartbeat] assms(6)
    by (cases "wg_waiting_heartbeats info") (auto simp: Let_def)
  with assms c(1) show ?thesis
    by (auto simp: Gatekeeper_process_messages_def Gatekeeper_master_pubkey_uploaded_def process_messages_append
        split: if_splits)
qed

theorem launch_delay_poisons_witness:
  "\<exists>g g'. Gatekeeper_master_pubkey_uploaded ex_gk_env 5 g = Some g' \<and>
    Gatekeeper_process_messages ex_gk_env \<lparr>bi_block_number = 7, bi_now_ms = 84000\<rparr> g [] = Some (g, []) \<and>
    Gatekeeper_process_messages ex_gk_env \<lparr>bi_block_number = 9, bi_now_ms = 108000\<rparr> g' [] = None"
proof -
  define es where "es = [WorkerEvent_ev 1 (Registered 1), WorkerEvent_ev 1 (Started 3 100 200),
    HeartbeatChallenge_ev \<lparr>hc_seed = 0, hc_online_target = - 1\<rparr>]"
  define g where "g = ex_gk\<lparr>gk_economics_events := map (System_in (Pallet [])) es @ [Computing_in (Worker 1) (Heartbeat 3 7 84000 11)]\<rparr>"
  define g' where "g' = g\<lparr>gk_master_pubkey_on_chain := True\<rparr>"
  have u: "Gatekeeper_master_pubkey_uploaded ex_gk_env 5 g = Some g'"
    by (simp add: Gatekeeper_master_pubkey_uploaded_def g_def g'_def ex_gk_def ex_gk_env_def ex_public)
  have "Gatekeeper_process_messages ex_gk_env \<lparr>bi_block_number = 7, bi_now_ms = 84000\<rparr> g [] = Some (g, []) \<and>
    Gatekeeper_process_messages ex_gk_env \<lparr>bi_block_number = 9, bi_now_ms = 108000\<rparr> g' [] = None"
    by (rule launch_delay_poisons [where p = "[]" and es = es and k = 1 and cl = 1 and
          heartbeat = "Heartbeat 3 7 84000 11", OF _ _ _ _ _ _ u])
      (simp_all add: g_def ex_gk_def, simp_all add: es_def)
  with u show ?thesis by blast
qed

end
