(* ===== verification/Spec2Isabelle.thy ===== *)
theory Spec2Isabelle
  imports Mq_Dispatcher Mq_Relay Rollup_System Rollup_Oracle Session_Budget Gk_Safety
begin

text \<open>
  \<^bold>\<open>A verification development for the Phala blockchain\<close>

  The program. A chain (pallets under \<open>src/pallets\<close>) manages workers that run in SGX enclaves
  (\<open>src/crates/phactory\<close> and the crates it uses). Workers and chain exchange messages: what a worker
  pushes is signed, numbered and relayed to the message queue pallet by anybody; what the chain pushes
  reaches the workers with the blocks and is dispatched inside a worker by topic. Workers prove by
  remote attestation what code they run; the registry pallet admits them, and some of them become
  gatekeepers, which share a master key. The computation pallet binds workers to sessions, starts and
  stops them and holds their stake; the workers answer heartbeat challenges, the gatekeepers replay
  every worker, compute what each one is paid, and report it to the pallet. Contracts reach other chains
  through roll-up transactions, built in a key-value session and submitted to an anchor pallet.

  \<^bold>\<open>Theories and the code they model\<close> (paths under \<open>src/\<close>)

  \<^item> \<open>Prelude\<close>, \<open>BTree\<close>, \<open>Fixed_Point\<close>: machine integers, results and panics, \<open>BTreeMap\<close> as a sorted
    association list (locale \<open>map_interface\<close>), and fixed-point numbers (locale \<open>u64f64\<close>: the documented
    laws of \<open>U64F64\<close> of the crate \<open>fixed\<close>, interpreted by an exact 64.64 implementation).
  \<^item> \<open>Mq_Types\<close>, \<open>Mq_Mpsc\<close>, \<open>Mq_Send_Queue\<close>, \<open>Mq_Dispatcher\<close>: the crate \<open>crates/phala-mq\<close> (\<open>types.rs\<close>,
    \<open>simple_mpsc.rs\<close>, \<open>send_queue.rs\<close>, \<open>dispatcher.rs\<close>). Channels and queues are records, handles on a
    shared queue are explicit, a method is a function on the shared state.
  \<^item> \<open>Pallet_Mq\<close>: \<open>pallets/phala/src/mq.rs\<close>, \<open>mq/check_seq.rs\<close> and the signature check of \<open>registry.rs\<close>.
    \<open>Mq_Relay\<close> composes the send queue of a worker, an untrusted relayer and the pallet.
  \<^item> \<open>Kv_Session\<close>, \<open>Kv_Program\<close>: \<open>crates/pink-libs/kv-session\<close> (session, trackers, roll-up) and client code
    over it. \<open>Rollup_Anchor\<close>, \<open>Rollup_Oracle\<close>: \<open>pallets/offchain-rollup\<close>. \<open>Rollup_System\<close> composes them.
  \<^item> \<open>Sgx_Dcap\<close>, \<open>Attestation\<close>: \<open>crates/sgx-attestation\<close> and \<open>pallets/phala/src/utils/attestation*.rs\<close>.
  \<^item> \<open>Phala_Messages\<close>, \<open>Key_Messages\<close>: the messages of \<open>crates/phala-types\<close>. \<open>Pallet_Registry\<close>:
    \<open>pallets/phala/src/registry.rs\<close>. \<open>Pallet_Computation\<close>: \<open>pallets/phala/src/compute/computation.rs\<close>, with
    its properties in \<open>Session_Lifecycle\<close>, \<open>Session_Safety\<close>, \<open>Session_Scores\<close> and \<open>Session_Budget\<close>.
  \<^item> \<open>Worker_Benchmark\<close>, \<open>Worker_Machine\<close>: \<open>crates/phactory/src/benchmark.rs\<close> and the state machine of a
    worker in \<open>system/mod.rs\<close>, with the callbacks of the worker and of the gatekeeper.
  \<^item> \<open>Gk_Tokenomic\<close>, \<open>Gk_Economics\<close>, \<open>Gk_Keys\<close>, \<open>Gk_System\<close>: the gatekeeper, \<open>system/gk.rs\<close>, and the part of
    \<open>system/mod.rs\<close> that makes a worker one. \<open>Crypto_Share\<close>: \<open>crates/phala-crypto\<close>, \<open>secret_channel.rs\<close> and
    \<open>master_key.rs\<close>. \<open>Gk_Replay\<close> composes workers, chain and gatekeeper; \<open>Gk_Safety\<close> holds the properties
    of the keys.

  \<^bold>\<open>How state, errors and outside code are modelled\<close>

  Storage items and struct fields are fields of records; an extrinsic or handler is a function to an
  error or the new state. \<open>Result<T, E>\<close> is a sum; a panic is \<^term>\<open>Inl Panics\<close> where errors exist too,
  and \<^term>\<open>None\<close> otherwise. The message handlers of the runtime, which the queue pallet calls, may
  panic too. A failed extrinsic leaves the storage; a failed handler of a message keeps what it changed
  before. Integers keep their width, and subtraction and addition wrap as they do in a release build.
  Code outside the repository (cryptography, codecs, DER and X.509, the \<open>fixed\<close> crate, balances,
  randomness, clocks, the allocator) is an argument, collected in records such as \<open>crypto_ops\<close>,
  \<open>sgx_ops\<close> or \<open>comp_env\<close>; the laws a theorem uses are hypotheses of that theorem, and its witness
  discharges them for concrete functions.

  \<^bold>\<open>What the lemmas show\<close>

  \<^item> Messages: end to end, every message a worker pushes is accepted once, in order, whatever a relayer
    does, and relaying the queue makes progress up to the first message that the chain can never take
    (an invalid topic, a handler that panics); inside a worker every live subscriber gets each message
    once and \<open>select!\<close> returns them in the order of the log of dispatched messages; the transaction
    extension agrees with the pallet.
  \<^item> Roll-ups: a session behaves as direct execution on the store; with the read-write tracker or one
    lock (whose version keys must be kept apart from the data) accepted roll-ups are serializable, with
    the read tracker they are not; names keep their owner, the queue is first-in first-out, and an owner can break the queue of a name for every later push.
  \<^item> Attestation and registry: an accepted quote is authentic, and which quotes make the verifier panic;
    every registered worker comes from genesis, root, or a registration whose own report attests the
    submitted data (unless attestation is configured to be optional); the registry refines a protocol of
    gatekeepers and master keys; a rotation without a gatekeeper never ends.
  \<^item> Sessions: the pallet refines a life-cycle machine; bindings, stakes and the count of online workers
    are consistent in every run; a stake comes back in full after the cool-down; scores stay bounded; which
    inputs make a handler panic.
  \<^item> Gatekeepers: a gatekeeper and the workers it replays never disagree about the heartbeats to come, in
    every interleaving, so that it does not panic; what a heartbeat pays is bounded by the
    budget in the proportion of the shares, and a run shows that a block can settle more than its budget,
    because the shares are summed up before the heartbeats change them; the master keys shared with a new
    gatekeeper are what it reads back from its seal. After a rotation the reports are signed with the old key, a gatekeeper that syncs from the first block after two rotations
    panics, and so does one that finds heartbeats from before the launch.

  \<^bold>\<open>Bounds and fuel\<close>

  Loops over an iterator or a range are recursions over the list of what they visit. Repeating
  \<open>select!\<close> has a number of rounds as an argument, and as many rounds as there are pending messages are
  shown to be enough. The unbounded loop of the benchmark thread runs over the clock readings and the locked
  flags its passes see, which may be failures, so that its prefixes are the finite lists. Counters wrap at
  their width; theorems that need a counter not to have wrapped say so (fewer than \<open>2 ^ 64\<close> pushes or rotations).

  \<^bold>\<open>Not modelled\<close>

  \<^item> Stake pools, vaults and the wrapped balances: share accounting over NFT and asset pallets whose code
    is outside the repository.
  \<^item> Contract clusters, the pink runtime and its host functions, SideVM: execution of contracts by
    \<open>pallet-contracts\<close> and WebAssembly engines outside the repository.
  \<^item> Light validation of blocks, query handling and the RPC services of a worker; the request and task
    schedulers.
  \<^item> The node, runtime configuration, relayers, command-line tools, generated bindings and procedural
    macros: input and output, constants, or code that writes code.
  \<^item> Logging, metrics, protocol-buffer conversions, and code under the features \<open>gk-stat\<close> and \<open>shadow-gk\<close>.
\<close>

end
